theory Spec2Isabelle
  imports Complex_Main "HOL-Library.Word" "HOL-Library.Sublist"
begin

section \<open>JavaScript values\<close>

subsection \<open>Strings\<close>

text \<open>
  A JavaScript string is a sequence of UTF-16 code units. The operations the sources use
  (\<^verbatim>\<open>includes\<close>, \<^verbatim>\<open>split\<close> and \<^verbatim>\<open>replace\<close> with a literal pattern, \<^verbatim>\<open>trim\<close>)
  all work on code units, so a string is a list of 16-bit words. \<open>str\<close> embeds an ASCII
  literal of the source.
\<close>

type_synonym jschar = "16 word"
type_synonym jsstring = "jschar list"

definition str :: "string \<Rightarrow> jsstring" where
  "str s = map of_char s"

text \<open>\<^verbatim>\<open>s.includes(sub)\<close>: \<open>sub\<close> occurs in \<open>s\<close> as a contiguous run.\<close>

definition jsIncludes :: "'a list \<Rightarrow> 'a list \<Rightarrow> bool" where
  "jsIncludes s sub = sublist sub s"

text \<open>
  \<^verbatim>\<open>s.split(sep)\<close> with a string separator: the pieces between the occurrences of
  \<open>sep\<close>, found from the left without overlap. The empty separator splits into single
  code units.
\<close>

fun splitFrom :: "'a list \<Rightarrow> 'a list \<Rightarrow> 'a list \<Rightarrow> 'a list list" where
  "splitFrom sep cur [] = [cur]"
| "splitFrom sep cur (x # xs) =
     (if sep \<noteq> [] \<and> prefix sep (x # xs)
      then cur # splitFrom sep [] (drop (length sep - 1) xs)
      else splitFrom sep (cur @ [x]) xs)"

definition jsSplit :: "'a list \<Rightarrow> 'a list \<Rightarrow> 'a list list" where
  "jsSplit s sep = (if sep = [] then map (\<lambda>c. [c]) s else splitFrom sep [] s)"

text \<open>
  \<^verbatim>\<open>s.replace(/pat/g, rep)\<close> for a pattern without metacharacters and a replacement
  without \<^verbatim>\<open>$\<close>: scan from the left, replace each match, continue behind it. The empty
  pattern matches before every code unit and at the end.
\<close>

fun replaceAll :: "'a list \<Rightarrow> 'a list \<Rightarrow> 'a list \<Rightarrow> 'a list" where
  "replaceAll pat rep [] = (if pat = [] then rep else [])"
| "replaceAll pat rep (x # xs) =
     (if pat = [] then rep @ x # replaceAll pat rep xs
      else if prefix pat (x # xs) then rep @ replaceAll pat rep (drop (length pat - 1) xs)
      else x # replaceAll pat rep xs)"

text \<open>\<^verbatim>\<open>s.replace(pat, rep)\<close> with a string pattern: only the first occurrence.\<close>

fun replaceFirst :: "'a list \<Rightarrow> 'a list \<Rightarrow> 'a list \<Rightarrow> 'a list" where
  "replaceFirst pat rep [] = (if pat = [] then rep else [])"
| "replaceFirst pat rep (x # xs) =
     (if prefix pat (x # xs) then rep @ drop (length pat) (x # xs)
      else x # replaceFirst pat rep xs)"

text \<open>
  The code units that \<^verbatim>\<open>trim\<close>, \<^verbatim>\<open>parseFloat\<close> and \<^verbatim>\<open>parseInt\<close> skip: ECMAScript's
  WhiteSpace and LineTerminator.
\<close>

definition isWhiteSpace :: "jschar \<Rightarrow> bool" where
  "isWhiteSpace c \<longleftrightarrow>
     c \<in> set [0x9, 0xA, 0xB, 0xC, 0xD, 0x20, 0xA0, 0x1680, 0x2028, 0x2029, 0x202F,
              0x205F, 0x3000, 0xFEFF]
     \<or> (0x2000 \<le> c \<and> c \<le> 0x200A)"

definition trimStart :: "jsstring \<Rightarrow> jsstring" where
  "trimStart s = dropWhile isWhiteSpace s"

definition trimEnd :: "jsstring \<Rightarrow> jsstring" where
  "trimEnd s = rev (dropWhile isWhiteSpace (rev s))"

definition jsTrim :: "jsstring \<Rightarrow> jsstring" where
  "jsTrim s = trimEnd (trimStart s)"

text \<open>Decimal digits; \<open>showNat\<close> is the text of a non-negative integer in a template literal.\<close>

definition isDigit :: "jschar \<Rightarrow> bool" where
  "isDigit c \<longleftrightarrow> 0x30 \<le> c \<and> c \<le> 0x39"

definition digitChar :: "nat \<Rightarrow> jschar" where
  "digitChar d = 0x30 + of_nat d"

fun showNat :: "nat \<Rightarrow> jsstring" where
  "showNat n = (if n < 10 then [digitChar n] else showNat (n div 10) @ [digitChar (n mod 10)])"

declare showNat.simps [simp del]

text \<open>The value of a run of digits in a radix up to 16 (letters in either case).\<close>

definition digitValue :: "jschar \<Rightarrow> nat" where
  "digitValue c =
     (if 0x30 \<le> c \<and> c \<le> 0x39 then unat (c - 0x30)
      else if 0x61 \<le> c \<and> c \<le> 0x66 then unat (c - 0x61) + 10
      else if 0x41 \<le> c \<and> c \<le> 0x46 then unat (c - 0x41) + 10
      else 16)"

definition digitsValue :: "nat \<Rightarrow> jsstring \<Rightarrow> nat" where
  "digitsValue radix ds = foldl (\<lambda>acc c. acc * radix + digitValue c) 0 ds"

subsection \<open>Numbers\<close>

text \<open>
  A JavaScript number is an IEEE 754 double: \<^verbatim>\<open>NaN\<close>, an infinity, or a finite value,
  here the real number it stands for (the sign of zero is not modelled). \<^verbatim>\<open>parseFloat\<close>
  and the division round their exact result to the nearest double (\<open>toDouble\<close>), as the
  engines do. The comparators only use the sign of a difference of two doubles, which
  rounding keeps. \<^verbatim>\<open>parseInt\<close> is left exact: it is only applied to the texts of
  opening hours, and an integer below \<open>2^53\<close> (a text of up to 15 digits) is a double.
  The trigonometry of \<^verbatim>\<open>calculateDistance\<close> is computed in the reals. An optional
  field (\<^verbatim>\<open>price?: number\<close>) and a nullable one (\<^verbatim>\<open>number | null\<close>) are options.
\<close>

datatype number = NaN | Num real | Infinity | NegInfinity

text \<open>
  Rounding to the nearest double, ties to even. \<open>binade x\<close> is the exponent \<open>e\<close> with
  \<open>2^e \<le> |x| < 2^(e+1)\<close>, at least \<open>-1022\<close> (below it the doubles are subnormal); the
  doubles of that binade are the multiples of \<open>2^(e-52)\<close>. A result of \<open>2^1024\<close> or more
  is an infinity, and a value below half of \<open>2^(-1074)\<close> rounds to 0.
\<close>

fun log2floor :: "nat \<Rightarrow> nat" where
  "log2floor n = (if n < 2 then 0 else Suc (log2floor (n div 2)))"

declare log2floor.simps [simp del]

definition log2ceil :: "nat \<Rightarrow> nat" where
  "log2ceil n = (if n \<le> 1 then 0 else Suc (log2floor (n - 1)))"

definition binade :: "real \<Rightarrow> int" where
  "binade x =
     max (if 1 \<le> \<bar>x\<bar> then int (log2floor (nat \<lfloor>\<bar>x\<bar>\<rfloor>))
          else - int (log2ceil (nat \<lceil>1 / \<bar>x\<bar>\<rceil>)))
         (- 1022)"

definition roundHalfEven :: "real \<Rightarrow> int" where
  "roundHalfEven q =
     (if q - of_int \<lfloor>q\<rfloor> < 1 / 2 then \<lfloor>q\<rfloor>
      else if 1 / 2 < q - of_int \<lfloor>q\<rfloor> then \<lfloor>q\<rfloor> + 1
      else if even \<lfloor>q\<rfloor> then \<lfloor>q\<rfloor> else \<lfloor>q\<rfloor> + 1)"

definition toDouble :: "real \<Rightarrow> number" where
  "toDouble x =
     (if x = 0 then Num 0
      else
        let ulp = 2 powi (binade x - 52);
            y = of_int (roundHalfEven (\<bar>x\<bar> / ulp)) * ulp
        in if 2 ^ 1024 \<le> y then (if x < 0 then NegInfinity else Infinity)
           else Num (if x < 0 then - y else y))"

text \<open>Truthiness: \<^verbatim>\<open>0\<close>, \<^verbatim>\<open>NaN\<close>, \<^verbatim>\<open>undefined\<close> and \<^verbatim>\<open>null\<close> are falsy.\<close>

fun truthy :: "number \<Rightarrow> bool" where
  "truthy NaN = False"
| "truthy (Num x) = (x \<noteq> 0)"
| "truthy Infinity = True"
| "truthy NegInfinity = True"

fun truthyOpt :: "number option \<Rightarrow> bool" where
  "truthyOpt None = False"
| "truthyOpt (Some n) = truthy n"

text \<open>\<^verbatim>\<open>undefined\<close> in arithmetic and comparisons is \<^verbatim>\<open>NaN\<close>.\<close>

fun toNumber :: "number option \<Rightarrow> number" where
  "toNumber None = NaN"
| "toNumber (Some n) = n"

text \<open>\<^verbatim>\<open>a || b\<close> for an optional number \<open>a\<close> and a number \<open>b\<close>.\<close>

definition orNumber :: "number option \<Rightarrow> number \<Rightarrow> number" where
  "orNumber a b = (if truthyOpt a then toNumber a else b)"

fun num_sub :: "number \<Rightarrow> number \<Rightarrow> number" where
  "num_sub NaN b = NaN"
| "num_sub a NaN = NaN"
| "num_sub (Num x) (Num y) = Num (x - y)"
| "num_sub (Num x) Infinity = NegInfinity"
| "num_sub (Num x) NegInfinity = Infinity"
| "num_sub Infinity Infinity = NaN"
| "num_sub Infinity b = Infinity"
| "num_sub NegInfinity NegInfinity = NaN"
| "num_sub NegInfinity b = NegInfinity"

text \<open>\<^verbatim>\<open>a < b\<close> and \<^verbatim>\<open>a <= b\<close>; both are false when an operand is \<^verbatim>\<open>NaN\<close>.\<close>

fun num_less :: "number \<Rightarrow> number \<Rightarrow> bool" where
  "num_less NaN b = False"
| "num_less a NaN = False"
| "num_less (Num x) (Num y) = (x < y)"
| "num_less a Infinity = (a \<noteq> Infinity)"
| "num_less NegInfinity b = (b \<noteq> NegInfinity)"
| "num_less a b = False"

fun num_le :: "number \<Rightarrow> number \<Rightarrow> bool" where
  "num_le NaN b = False"
| "num_le a NaN = False"
| "num_le a b = (a = b \<or> num_less a b)"

text \<open>
  \<^verbatim>\<open>a / c\<close> for a positive finite constant \<open>c\<close> of the source: the exact quotient,
  rounded.
\<close>

fun num_div :: "number \<Rightarrow> real \<Rightarrow> number" where
  "num_div (Num x) c = toDouble (x / c)"
| "num_div a c = a"

text \<open>
  \<^verbatim>\<open>xs.slice(0, end)\<close>: \<open>end\<close> is truncated towards zero (\<^verbatim>\<open>NaN\<close> counts as 0), a negative
  \<open>end\<close> counts from the end of the array.
\<close>

definition truncToInt :: "real \<Rightarrow> int" where
  "truncToInt x = (if 0 \<le> x then \<lfloor>x\<rfloor> else \<lceil>x\<rceil>)"

fun slice0 :: "'a list \<Rightarrow> number \<Rightarrow> 'a list" where
  "slice0 xs NaN = []"
| "slice0 xs Infinity = xs"
| "slice0 xs NegInfinity = []"
| "slice0 xs (Num e) =
     (if truncToInt e < 0 then take (nat (int (length xs) + truncToInt e)) xs
      else take (nat (truncToInt e)) xs)"

text \<open>
  \<^verbatim>\<open>xs.sort(cmp)\<close>: a stable sort. \<open>x\<close> goes behind \<open>y\<close> only when \<^verbatim>\<open>cmp(x, y) > 0\<close>;
  a comparator result of \<^verbatim>\<open>NaN\<close> counts as 0. (ECMAScript fixes the result only for a
  consistent comparator; the comparators of the sources are differences of keys that are
  never \<^verbatim>\<open>NaN\<close>.)
\<close>

fun insertBy :: "('a \<Rightarrow> 'a \<Rightarrow> number) \<Rightarrow> 'a \<Rightarrow> 'a list \<Rightarrow> 'a list" where
  "insertBy cmp x [] = [x]"
| "insertBy cmp x (y # ys) =
     (if num_less (Num 0) (cmp x y) then y # insertBy cmp x ys else x # y # ys)"

definition jsSort :: "('a \<Rightarrow> 'a \<Rightarrow> number) \<Rightarrow> 'a list \<Rightarrow> 'a list" where
  "jsSort cmp xs = foldr (insertBy cmp) xs []"

text \<open>
  \<^verbatim>\<open>parseFloat\<close>: skip leading white space, then read the longest prefix that is a
  decimal literal (sign, digits, fraction, exponent) or \<^verbatim>\<open>Infinity\<close>; \<^verbatim>\<open>NaN\<close> when there
  is none. The result is the double nearest to the value of the literal.
\<close>

definition readSign :: "jsstring \<Rightarrow> bool \<times> jsstring" where
  "readSign s =
     (case s of [] \<Rightarrow> (False, [])
      | c # cs \<Rightarrow> if c = 0x2D then (True, cs) else if c = 0x2B then (False, cs) else (False, s))"

definition readExponent :: "jsstring \<Rightarrow> int" where
  "readExponent s =
     (case s of [] \<Rightarrow> 0
      | c # cs \<Rightarrow>
          if c = 0x65 \<or> c = 0x45 then
            (let (neg, ds) = readSign cs; e = takeWhile isDigit ds
             in if e = [] then 0
                else if neg then - int (digitsValue 10 e) else int (digitsValue 10 e))
          else 0)"

definition scale10 :: "real \<Rightarrow> int \<Rightarrow> real" where
  "scale10 x e = (if 0 \<le> e then x * 10 ^ nat e else x / 10 ^ nat (- e))"

definition parseFloat :: "jsstring \<Rightarrow> number" where
  "parseFloat s =
     (let (neg, u) = readSign (trimStart s) in
      if prefix (str ''Infinity'') u then (if neg then NegInfinity else Infinity)
      else
        let ip = takeWhile isDigit u;
            r1 = dropWhile isDigit u;
            hasPoint = (r1 \<noteq> [] \<and> hd r1 = 0x2E);
            fp = (if hasPoint then takeWhile isDigit (tl r1) else []);
            r2 = (if hasPoint then dropWhile isDigit (tl r1) else r1)
        in if ip = [] \<and> fp = [] then NaN
           else
             let mantissa = real (digitsValue 10 ip) + real (digitsValue 10 fp) / 10 ^ length fp;
                 v = scale10 mantissa (readExponent r2)
             in toDouble (if neg then - v else v))"

text \<open>
  \<^verbatim>\<open>parseInt\<close> without a radix: skip leading white space, read a sign, then hexadecimal
  digits behind \<^verbatim>\<open>0x\<close> and decimal digits otherwise; \<^verbatim>\<open>NaN\<close> when there is no digit.
\<close>

definition parseInt :: "jsstring \<Rightarrow> number" where
  "parseInt s =
     (let (neg, u) = readSign (trimStart s);
          hex = (prefix (str ''0x'') u \<or> prefix (str ''0X'') u);
          radix = (if hex then 16 else 10);
          ds = takeWhile (\<lambda>c. digitValue c < radix) (if hex then drop 2 u else u)
      in if ds = [] then NaN
         else Num (if neg then - real (digitsValue radix ds) else real (digitsValue radix ds)))"

section \<open>utils.ts\<close>

text \<open>\<^verbatim>\<open>parseServices\<close>: split a service string at each separator in turn, then trim the
  pieces and drop the empty ones.\<close>

definition separators :: "jsstring list" where
  "separators = [str '' // '', str ''//'', str '' / '', str ''/'', str '' - '', str ''-'',
                 str '','', str '';'']"

definition splitServices :: "jsstring list \<Rightarrow> jsstring \<Rightarrow> jsstring list" where
  "splitServices services separator =
     concat (map (\<lambda>service. if jsIncludes service separator then jsSplit service separator
                              else [service]) services)"

definition parseServices :: "jsstring \<Rightarrow> jsstring list" where
  "parseServices serviceString =
     (if serviceString = [] then []
      else filter (\<lambda>service. length service > 0)
             (map jsTrim (foldl splitServices [serviceString] separators)))"

text \<open>No piece of a list contains the code unit \<open>c\<close>.\<close>

definition freeOf :: "'a \<Rightarrow> 'a list list \<Rightarrow> bool" where
  "freeOf c pieces \<longleftrightarrow> (\<forall>p \<in> set pieces. c \<notin> set p)"


section \<open>types/station.ts\<close>

text \<open>
  The interfaces of the data model. Field names that two interfaces share, or that are
  constants of HOL already, carry a prefix: \<open>fuel_id\<close>, \<open>station_id\<close>, \<open>range_open\<close>,
  \<open>ds_closed\<close>.
\<close>

record TimeRange =
  range_open :: jsstring
  range_close :: jsstring

record DaySchedule =
  ds_closed :: "bool option"
  ds_hours :: "TimeRange list option"

datatype weekday = monday | tuesday | wednesday | thursday | friday | saturday | sunday

type_synonym OpeningHours = "weekday \<Rightarrow> DaySchedule option"

record Fuel =
  fuel_id :: jsstring
  fuel_name :: jsstring
  price :: "number option"
  fuel_lastUpdate :: "jsstring option"

record GasStation =
  station_id :: jsstring
  station_name :: "jsstring option"
  brand :: "jsstring option"
  address :: "jsstring option"
  city :: jsstring
  postalCode :: "jsstring option"
  latitude :: "number option"
  longitude :: "number option"
  fuels :: "Fuel list"
  services :: "jsstring list option"
  lastUpdate :: "jsstring option"
  openingHours :: "OpeningHours option"
  automate24h :: "bool option"
  highway :: "bool option"
  freeAccess :: "bool option"

datatype orderBy = distance_order | price_order

record MapFilters =
  fuelType :: jsstring
  maxStations :: "number option"
  maxPrice :: "number option"
  maxDistance :: "number option"
  location :: jsstring
  userLatitude :: "number option"
  userLongitude :: "number option"
  topN :: "number option"
  topNOrderBy :: orderBy

text \<open>
  The query results: \<^verbatim>\<open>GasStation & { distance?: number }\<close> and
  \<^verbatim>\<open>GasStation & { distance?: number; selectedFuelPrice?: number }\<close>, the station with
  its annotations beside it.
\<close>

record MapStation =
  station :: GasStation
  distance :: "number option"

record TopNStation = MapStation +
  selectedFuelPrice :: "number option"

section \<open>mapUtils.ts\<close>

text \<open>
  \<^verbatim>\<open>calculateDistance\<close>: the haversine formula. On finite arguments it is computed in the
  reals; an argument that is \<^verbatim>\<open>NaN\<close> or infinite makes every sine and cosine it reaches
  \<^verbatim>\<open>NaN\<close>, and with it the result.
\<close>

definition toRadians :: "real \<Rightarrow> real" where
  "toRadians degrees = degrees * (pi / 180)"

definition atan2 :: "real \<Rightarrow> real \<Rightarrow> real" where
  "atan2 y x =
     (if 0 < x then arctan (y / x)
      else if x < 0 then (if 0 \<le> y then arctan (y / x) + pi else arctan (y / x) - pi)
      else if 0 < y then pi / 2 else if y < 0 then - pi / 2 else 0)"

definition haversine :: "real \<Rightarrow> real \<Rightarrow> real \<Rightarrow> real \<Rightarrow> real" where
  "haversine lat1 lon1 lat2 lon2 =
     (let R = 6371;
          dLat = toRadians (lat2 - lat1);
          dLon = toRadians (lon2 - lon1);
          a = sin (dLat / 2) * sin (dLat / 2) +
              cos (toRadians lat1) * cos (toRadians lat2) * sin (dLon / 2) * sin (dLon / 2);
          c = 2 * atan2 (sqrt a) (sqrt (1 - a))
      in R * c)"

fun calculateDistance :: "number \<Rightarrow> number \<Rightarrow> number \<Rightarrow> number \<Rightarrow> number" where
  "calculateDistance (Num lat1) (Num lon1) (Num lat2) (Num lon2) =
     Num (haversine lat1 lon1 lat2 lon2)"
| "calculateDistance lat1 lon1 lat2 lon2 = NaN"

text \<open>
  The callback of \<^verbatim>\<open>stations.filter\<close>, the same text in \<^verbatim>\<open>filterStationsForMap\<close> and in
  \<^verbatim>\<open>getTopNStations\<close>: coordinates, fuel type, maximum price.
\<close>

definition fuelTypeSelected :: "MapFilters \<Rightarrow> bool" where
  "fuelTypeSelected filters \<longleftrightarrow> fuelType filters \<noteq> [] \<and> fuelType filters \<noteq> str ''all''"

definition passesFilters :: "MapFilters \<Rightarrow> GasStation \<Rightarrow> bool" where
  "passesFilters filters s =
     (if \<not> truthyOpt (latitude s) \<or> \<not> truthyOpt (longitude s) then False
      else if fuelTypeSelected filters \<and>
              \<not> list_ex (\<lambda>fuel. fuel_name fuel = fuelType filters) (fuels s) then False
      else if maxPrice filters \<noteq> None \<and> fuelTypeSelected filters \<and>
              (case find (\<lambda>f. fuel_name f = fuelType filters) (fuels s) of
                 None \<Rightarrow> True
               | Some fuel \<Rightarrow> \<not> truthyOpt (price fuel) \<or>
                               num_less (toNumber (maxPrice filters)) (toNumber (price fuel)))
           then False
      else True)"

definition hasUserLocation :: "MapFilters \<Rightarrow> bool" where
  "hasUserLocation filters \<longleftrightarrow> userLatitude filters \<noteq> None \<and> userLongitude filters \<noteq> None"

definition distanceTo :: "MapFilters \<Rightarrow> GasStation \<Rightarrow> number" where
  "distanceTo filters s =
     calculateDistance (toNumber (userLatitude filters)) (toNumber (userLongitude filters))
       (toNumber (latitude s)) (toNumber (longitude s))"

text \<open>\<^verbatim>\<open>fuel?.price || Infinity\<close> for the fuel found by name.\<close>

definition fuelPriceOrInfinity :: "jsstring \<Rightarrow> GasStation \<Rightarrow> number" where
  "fuelPriceOrInfinity name s =
     (case find (\<lambda>f. fuel_name f = name) (fuels s) of
        None \<Rightarrow> Infinity
      | Some fuel \<Rightarrow> orNumber (price fuel) Infinity)"

definition filterStationsForMap :: "GasStation list \<Rightarrow> MapFilters \<Rightarrow> MapStation list" where
  "filterStationsForMap stations filters =
     (let filtered0 = map (\<lambda>s. \<lparr>station = s, distance = None\<rparr>)
                        (filter (passesFilters filters) stations);
          filtered1 =
            (if hasUserLocation filters
             then map (\<lambda>r. r\<lparr>distance := Some (distanceTo filters (station r))\<rparr>) filtered0
             else filtered0);
          filtered2 =
            (if hasUserLocation filters \<and> maxDistance filters \<noteq> None
             then filter (\<lambda>r. distance r \<noteq> None \<and>
                               num_le (toNumber (distance r)) (toNumber (maxDistance filters)))
                    filtered1
             else filtered1)
      in if topN filters \<noteq> None then
           slice0
             (if topNOrderBy filters = distance_order \<and> hasUserLocation filters
              then jsSort (\<lambda>a b. num_sub (orNumber (distance a) (Num 0))
                                          (orNumber (distance b) (Num 0))) filtered2
              else if topNOrderBy filters = price_order \<and> fuelTypeSelected filters
              then jsSort (\<lambda>a b. num_sub (fuelPriceOrInfinity (fuelType filters) (station a))
                                          (fuelPriceOrInfinity (fuelType filters) (station b)))
                     filtered2
              else filtered2)
             (toNumber (topN filters))
         else
           (let sorted =
                  (if hasUserLocation filters
                   then jsSort (\<lambda>a b. num_sub (orNumber (distance a) (Num 0))
                                               (orNumber (distance b) (Num 0))) filtered2
                   else filtered2)
            in if maxStations filters \<noteq> None
               then slice0 sorted (toNumber (maxStations filters))
               else sorted))"

text \<open>
  \<^verbatim>\<open>getTopNStations\<close>. \<open>cheapestPrice\<close> is
  \<^verbatim>\<open>station.fuels.filter(f => f.price).sort((a, b) => a.price! - b.price!)[0]?.price\<close>.
\<close>

definition cheapestPrice :: "Fuel list \<Rightarrow> number option" where
  "cheapestPrice fs =
     (case jsSort (\<lambda>a b. num_sub (toNumber (price a)) (toNumber (price b)))
             (filter (\<lambda>f. truthyOpt (price f)) fs) of
        [] \<Rightarrow> None
      | f # _ \<Rightarrow> price f)"

definition selectFuelPrice :: "MapFilters \<Rightarrow> GasStation \<Rightarrow> number option" where
  "selectFuelPrice filters s =
     (if fuelTypeSelected filters then
        (case find (\<lambda>f. fuel_name f = fuelType filters) (fuels s) of
           None \<Rightarrow> None
         | Some fuel \<Rightarrow> price fuel)
      else if fuelType filters = str ''all'' \<and> length (fuels s) > 0 then cheapestPrice (fuels s)
      else None)"

definition getTopNStations :: "GasStation list \<Rightarrow> MapFilters \<Rightarrow> TopNStation list" where
  "getTopNStations stations filters =
     (if topN filters = None then []
      else
        let filtered0 =
              map (\<lambda>s. \<lparr>station = s,
                        distance = (if hasUserLocation filters
                                    then Some (distanceTo filters s) else None),
                        selectedFuelPrice = selectFuelPrice filters s\<rparr>)
                (filter (passesFilters filters) stations);
            filtered1 =
              (if maxDistance filters \<noteq> None \<and> hasUserLocation filters
               then filter (\<lambda>r. distance r \<noteq> None \<and>
                                 num_le (toNumber (distance r)) (toNumber (maxDistance filters)))
                      filtered0
               else filtered0)
        in slice0
             (if topNOrderBy filters = distance_order \<and> hasUserLocation filters
              then jsSort (\<lambda>a b. num_sub (orNumber (distance a) Infinity)
                                          (orNumber (distance b) Infinity)) filtered1
              else if topNOrderBy filters = price_order \<and> fuelTypeSelected filters
              then jsSort (\<lambda>a b. num_sub (orNumber (selectedFuelPrice a) Infinity)
                                          (orNumber (selectedFuelPrice b) Infinity)) filtered1
              else filtered1)
             (toNumber (topN filters)))"

text \<open>
  \<^verbatim>\<open>isStationOpen\<close>. The clock is read once (\<^verbatim>\<open>new Date()\<close>); the model takes what it
  reads as arguments: the weekday, the hour and the minute.
\<close>

definition timeOf :: "jsstring \<Rightarrow> number" where
  "timeOf t = parseInt (replaceFirst (str '':'') [] t)"

definition inTimeRange :: "number \<Rightarrow> TimeRange \<Rightarrow> bool" where
  "inTimeRange currentTime timeRange =
     (let openTime = timeOf (range_open timeRange);
          closeTime = timeOf (range_close timeRange)
      in if num_less closeTime openTime
         then num_le openTime currentTime \<or> num_le currentTime closeTime
         else num_le openTime currentTime \<and> num_le currentTime closeTime)"

definition isStationOpen :: "GasStation \<Rightarrow> weekday \<Rightarrow> nat \<Rightarrow> nat \<Rightarrow> bool" where
  "isStationOpen s currentDay hours minutes =
     (case openingHours s of
        None \<Rightarrow> True
      | Some oh \<Rightarrow>
          (let currentTime = Num (real (hours * 100 + minutes)) in
           case oh currentDay of
             None \<Rightarrow> False
           | Some daySchedule \<Rightarrow>
               if ds_closed daySchedule = Some True then False
               else (case ds_hours daySchedule of
                       None \<Rightarrow> True
                     | Some hs \<Rightarrow> if length hs = 0 then True
                                  else list_ex (inTimeRange currentTime) hs)))"

section \<open>dataService.ts: the primary parser\<close>

subsection \<open>The document tree\<close>

text \<open>
  What \<^verbatim>\<open>DOMParser\<close> returns: elements with a tag name, attributes and child nodes, and
  text nodes. Tag names carry no namespace prefix. \<^verbatim>\<open>querySelectorAll\<close> is only called with
  a type selector; it lists the matching descendants in document order.
\<close>

datatype node = Element jsstring "(jsstring \<times> jsstring) list" "node list" | Text jsstring

fun tagName :: "node \<Rightarrow> jsstring" where
  "tagName (Element t as cs) = t"
| "tagName (Text d) = []"

fun isElement :: "node \<Rightarrow> bool" where
  "isElement (Element t as cs) = True"
| "isElement (Text d) = False"

fun childNodes :: "node \<Rightarrow> node list" where
  "childNodes (Element t as cs) = cs"
| "childNodes (Text d) = []"

definition children :: "node \<Rightarrow> node list" where
  "children e = filter isElement (childNodes e)"

fun getAttribute :: "node \<Rightarrow> jsstring \<Rightarrow> jsstring option" where
  "getAttribute (Element t as cs) name = map_of as name"
| "getAttribute (Text d) name = None"

fun textContent :: "node \<Rightarrow> jsstring" where
  "textContent (Text d) = d"
| "textContent (Element t as cs) = concat (map textContent cs)"

fun descendants :: "node \<Rightarrow> node list" where
  "descendants (Text d) = []"
| "descendants (Element t as cs) =
     concat (map (\<lambda>c. if isElement c then c # descendants c else []) cs)"

definition querySelectorAll :: "node \<Rightarrow> jsstring \<Rightarrow> node list" where
  "querySelectorAll e selector = filter (\<lambda>d. tagName d = selector) (descendants e)"

definition querySelector :: "node \<Rightarrow> jsstring \<Rightarrow> node option" where
  "querySelector e selector =
     (case querySelectorAll e selector of [] \<Rightarrow> None | d # _ \<Rightarrow> Some d)"

text \<open>\<^verbatim>\<open>xmlDoc.querySelectorAll\<close>: the root element is a descendant of the document.\<close>

definition docQuerySelectorAll :: "node \<Rightarrow> jsstring \<Rightarrow> node list" where
  "docQuerySelectorAll documentElement selector =
     filter (\<lambda>d. tagName d = selector) (documentElement # descendants documentElement)"

text \<open>
  \<^verbatim>\<open>for (const selector of selectors) { els = q(selector); if (els.length > 0) break }\<close>:
  the matches of the first selector that has any.
\<close>

fun probeSelectors :: "(jsstring \<Rightarrow> node list) \<Rightarrow> jsstring list \<Rightarrow> node list" where
  "probeSelectors q [] = []"
| "probeSelectors q (selector # selectors) =
     (if length (q selector) > 0 then q selector else probeSelectors q selectors)"

subsection \<open>Optional strings\<close>

text \<open>
  \<^verbatim>\<open>getAttribute\<close> gives a string or \<^verbatim>\<open>null\<close>; the empty string, \<^verbatim>\<open>null\<close> and
  \<^verbatim>\<open>undefined\<close> are falsy. \<open>firstTruthy [a, b, c]\<close> is \<^verbatim>\<open>a || b || c\<close>: the first truthy
  operand, or the last operand.
\<close>

fun truthyStr :: "jsstring option \<Rightarrow> bool" where
  "truthyStr None = False"
| "truthyStr (Some s) = (s \<noteq> [])"

fun firstTruthy :: "jsstring option list \<Rightarrow> jsstring option" where
  "firstTruthy [] = None"
| "firstTruthy [a] = a"
| "firstTruthy (a # b # bs) = (if truthyStr a then a else firstTruthy (b # bs))"

text \<open>\<^verbatim>\<open>a || undefined\<close> and \<^verbatim>\<open>a || ''\<close>.\<close>

definition orUndefined :: "jsstring option \<Rightarrow> jsstring option" where
  "orUndefined a = (if truthyStr a then a else None)"

definition orEmpty :: "jsstring option \<Rightarrow> jsstring" where
  "orEmpty a = (case a of None \<Rightarrow> [] | Some s \<Rightarrow> s)"

definition attrs :: "node \<Rightarrow> string list \<Rightarrow> jsstring option list" where
  "attrs e names = map (\<lambda>n. getAttribute e (str n)) names"

text \<open>\<^verbatim>\<open>el ? el.textContent?.trim() : null\<close> for the first match of a selector.\<close>

definition elementText :: "node \<Rightarrow> string \<Rightarrow> jsstring option" where
  "elementText pdv selector =
     (case querySelector pdv (str selector) of
        None \<Rightarrow> None
      | Some el \<Rightarrow> Some (jsTrim (textContent el)))"

subsection \<open>Unique ids\<close>

text \<open>
  \<^verbatim>\<open>while (usedIds.has(uniqueId)) { uniqueId = `${stationId}-${suffix}`; suffix++ }\<close>.
  The set \<^verbatim>\<open>usedIds\<close> is the list of its members, the latest first; \<open>suffixNum\<close> is the
  counter \<^verbatim>\<open>suffix\<close>. The loop ends because the candidates for different counters differ
  and \<^verbatim>\<open>usedIds\<close> is finite.
\<close>

definition candidateId :: "jsstring \<Rightarrow> nat \<Rightarrow> jsstring" where
  "candidateId stationId suffixNum = stationId @ str ''-'' @ showNat suffixNum"

lemma digitValue_digitChar: "d < 10 \<Longrightarrow> digitValue (digitChar d) = d"
proof -
  assume "d < 10"
  then have "d \<in> {0, 1, 2, 3, 4, 5, 6, 7, 8, 9}" by auto
  then show ?thesis
    by (auto simp: digitValue_def digitChar_def)
qed

lemma digitsValue_showNat: "digitsValue 10 (showNat n) = n"
proof (induction n rule: showNat.induct)
  case (1 n)
  show ?case
  proof (cases "n < 10")
    case True
    then show ?thesis
      by (subst showNat.simps) (simp add: digitsValue_def digitValue_digitChar)
  next
    case False
    have "digitsValue 10 (showNat n) =
          digitsValue 10 (showNat (n div 10)) * 10 + digitValue (digitChar (n mod 10))"
      using False by (subst showNat.simps) (simp add: digitsValue_def)
    also have "\<dots> = (n div 10) * 10 + n mod 10"
      using "1.IH"[OF False] by (simp add: digitValue_digitChar)
    finally show ?thesis by simp
  qed
qed

lemma inj_candidateId: "inj (candidateId stationId)"
proof (rule injI)
  fix a b assume "candidateId stationId a = candidateId stationId b"
  then have "showNat a = showNat b" by (simp add: candidateId_def)
  then have "digitsValue 10 (showNat a) = digitsValue 10 (showNat b)" by simp
  then show "a = b" by (simp only: digitsValue_showNat)
qed

lemma finite_candidates: "finite {k. P k \<and> candidateId stationId k \<in> set usedIds}"
proof -
  have "finite (candidateId stationId -` set usedIds)"
    by (rule finite_vimageI[OF _ inj_candidateId]) simp
  then show ?thesis by (rule rev_finite_subset) auto
qed

function findUniqueId :: "jsstring list \<Rightarrow> jsstring \<Rightarrow> jsstring \<Rightarrow> nat \<Rightarrow> jsstring" where
  "findUniqueId usedIds stationId uniqueId suffixNum =
     (if uniqueId \<in> set usedIds
      then findUniqueId usedIds stationId (candidateId stationId suffixNum) (suffixNum + 1)
      else uniqueId)"
  by pat_completeness auto
termination
proof (relation "measure (\<lambda>(usedIds, stationId, uniqueId, suffixNum).
          (if uniqueId \<in> set usedIds then 1 else 0) +
          card {k. suffixNum \<le> k \<and> candidateId stationId k \<in> set usedIds})")
  show "wf (measure (\<lambda>(usedIds, stationId, uniqueId, suffixNum).
          (if uniqueId \<in> set usedIds then 1 else 0) +
          card {k. suffixNum \<le> k \<and> candidateId stationId k \<in> set usedIds}))"
    by simp
next
  fix usedIds :: "jsstring list" and stationId uniqueId :: jsstring and suffixNum :: nat
  assume used: "uniqueId \<in> set usedIds"
  let ?A = "{k. suffixNum + 1 \<le> k \<and> candidateId stationId k \<in> set usedIds}"
  let ?B = "{k. suffixNum \<le> k \<and> candidateId stationId k \<in> set usedIds}"
  have finA: "finite ?A" by (rule finite_candidates)
  have "(if candidateId stationId suffixNum \<in> set usedIds then 1 else 0) + card ?A = card ?B"
  proof (cases "candidateId stationId suffixNum \<in> set usedIds")
    case True
    then have "?B = insert suffixNum ?A" by (auto simp: le_Suc_eq)
    moreover have "suffixNum \<notin> ?A" by simp
    ultimately show ?thesis using True finA by simp
  next
    case False
    have "k \<noteq> suffixNum" if "candidateId stationId k \<in> set usedIds" for k
      using that False by auto
    then have "?B = ?A" by (auto simp: Suc_le_eq order_less_le)
    with False show ?thesis by simp
  qed
  with used
  show "((usedIds, stationId, candidateId stationId suffixNum, suffixNum + 1),
         (usedIds, stationId, uniqueId, suffixNum))
        \<in> measure (\<lambda>(usedIds, stationId, uniqueId, suffixNum).
          (if uniqueId \<in> set usedIds then 1 else 0) +
          card {k. suffixNum \<le> k \<and> candidateId stationId k \<in> set usedIds})"
    by simp
qed

declare findUniqueId.simps [simp del]

subsection \<open>Coordinates\<close>

text \<open>\<^verbatim>\<open>raw ? raw / 100000 : undefined\<close>, for each axis on its own.\<close>

definition convertCoordinate :: "number \<Rightarrow> number option" where
  "convertCoordinate raw = (if truthy raw then Some (num_div raw 100000) else None)"

definition rawLatitude :: "node \<Rightarrow> number" where
  "rawLatitude pdv =
     parseFloat (orEmpty (firstTruthy (attrs pdv [''latitude'', ''lat'', ''y''] @ [Some (str ''0'')])))"

definition rawLongitude :: "node \<Rightarrow> number" where
  "rawLongitude pdv =
     parseFloat (orEmpty (firstTruthy
       (attrs pdv [''longitude'', ''lng'', ''lon'', ''x''] @ [Some (str ''0'')])))"

subsection \<open>Fuels\<close>

text \<open>
  \<^verbatim>\<open>FUEL_NAMES[fuelId] || fuelId\<close>. (Ids that name an inherited property of the table
  object, such as \<^verbatim>\<open>constructor\<close>, are outside the model.)
\<close>

definition FUEL_NAMES :: "jsstring \<Rightarrow> jsstring option" where
  "FUEL_NAMES = map_of
     [(str ''1'', str ''Gazole''), (str ''2'', str ''SP95''), (str ''3'', str ''E85''),
      (str ''4'', str ''GPLc''), (str ''5'', str ''E10''), (str ''6'', str ''SP98'')]"

definition fuelName :: "jsstring \<Rightarrow> jsstring" where
  "fuelName fuelId = (if truthyStr (FUEL_NAMES fuelId) then orEmpty (FUEL_NAMES fuelId) else fuelId)"

text \<open>
  The part both parsers share, word for word: from the id, the parsed price and the update
  stamp to the fuel that is pushed, if any.
\<close>

definition makeFuel :: "jsstring option \<Rightarrow> number \<Rightarrow> jsstring option \<Rightarrow> Fuel option" where
  "makeFuel fuelId fuelPrice fuelUpdate =
     (if truthyStr fuelId \<and> num_less (Num 0) fuelPrice
      then Some \<lparr>fuel_id = orEmpty fuelId,
                 fuel_name = fuelName (orEmpty fuelId),
                 price = Some (if num_less (Num 10) fuelPrice then num_div fuelPrice 1000
                               else fuelPrice),
                 fuel_lastUpdate = orUndefined fuelUpdate\<rparr>
      else None)"

text \<open>\<^verbatim>\<open>fuelPriceStr ? parseFloat(fuelPriceStr.replace(',', '.')) : 0\<close>\<close>

definition parsePrice :: "jsstring option \<Rightarrow> number" where
  "parsePrice fuelPriceStr =
     (if truthyStr fuelPriceStr
      then parseFloat (replaceFirst (str '','') (str ''.'') (orEmpty fuelPriceStr))
      else Num 0)"

definition fuelPriceStr :: "node \<Rightarrow> jsstring option" where
  "fuelPriceStr prix =
     firstTruthy (attrs prix [''valeur'', ''price'', ''prix'', ''value'']
                  @ [Some (jsTrim (textContent prix))])"

definition parseFuel :: "node \<Rightarrow> Fuel option" where
  "parseFuel prix =
     makeFuel (firstTruthy (attrs prix [''nom'', ''id'', ''type'', ''name'', ''code'']))
       (parsePrice (fuelPriceStr prix))
       (firstTruthy (attrs prix [''maj'', ''last_update'', ''date'', ''update'']))"

definition fuelSelectors :: "jsstring list" where
  "fuelSelectors = map str [''prix'', ''fuel'', ''carburant'', ''price'', ''essence'']"

definition parseFuels :: "node \<Rightarrow> Fuel list" where
  "parseFuels pdv = List.map_filter parseFuel (probeSelectors (querySelectorAll pdv) fuelSelectors)"

subsection \<open>Services\<close>

definition serviceSelectors :: "jsstring list" where
  "serviceSelectors = map str [''service'', ''services'', ''equipement'', ''equipment'']"

text \<open>The first loop: every match of every selector, pushed when the name is not empty.\<close>

definition serviceName :: "node \<Rightarrow> jsstring option" where
  "serviceName service =
     orUndefined (firstTruthy (Some (jsTrim (textContent service))
                               # attrs service [''nom'', ''name'', ''type'']))"

definition selectorServices :: "node \<Rightarrow> jsstring list" where
  "selectorServices pdv =
     concat (map (\<lambda>selector. List.map_filter serviceName (querySelectorAll pdv selector))
               serviceSelectors)"

text \<open>
  The second loop, over the direct children whose lower-cased tag name contains
  \<^verbatim>\<open>service\<close>: a name is pushed unless the list has it already. \<^verbatim>\<open>toLowerCase\<close> is the
  engine's Unicode case mapping; the parser takes it as the argument \<open>lc\<close>.
\<close>

definition childServiceName :: "node \<Rightarrow> jsstring option" where
  "childServiceName child =
     orUndefined (firstTruthy (Some (jsTrim (textContent child)) # attrs child [''nom'', ''name'']))"

definition addChildService ::
    "(jsstring \<Rightarrow> jsstring) \<Rightarrow> jsstring list \<Rightarrow> node \<Rightarrow> jsstring list" where
  "addChildService lc svs child =
     (if tagName child \<noteq> [] \<and> jsIncludes (lc (tagName child)) (str ''service'') then
        (case childServiceName child of
           None \<Rightarrow> svs
         | Some name \<Rightarrow> if name \<in> set svs then svs else svs @ [name])
      else svs)"

definition parseServiceList :: "(jsstring \<Rightarrow> jsstring) \<Rightarrow> node \<Rightarrow> jsstring list" where
  "parseServiceList lc pdv = foldl (addChildService lc) (selectorServices pdv) (children pdv)"

subsection \<open>Opening hours\<close>

text \<open>
  \<^verbatim>\<open>parseOpeningHours\<close>. (Day names that are inherited properties of the mapping object,
  such as \<^verbatim>\<open>constructor\<close>, are outside the model.)
\<close>

definition dayMapping :: "jsstring \<Rightarrow> weekday option" where
  "dayMapping = map_of
     [(str ''lundi'', monday), (str ''mardi'', tuesday), (str ''mercredi'', wednesday),
      (str ''jeudi'', thursday), (str ''vendredi'', friday), (str ''samedi'', saturday),
      (str ''dimanche'', sunday),
      (str ''monday'', monday), (str ''tuesday'', tuesday), (str ''wednesday'', wednesday),
      (str ''thursday'', thursday), (str ''friday'', friday), (str ''saturday'', saturday),
      (str ''sunday'', sunday),
      (str ''lun'', monday), (str ''mar'', tuesday), (str ''mer'', wednesday),
      (str ''jeu'', thursday), (str ''ven'', friday), (str ''sam'', saturday),
      (str ''dim'', sunday)]"

definition daySelectors :: "jsstring list" where
  "daySelectors = map str [''jour'', ''day'', ''horaire'', ''schedule'']"

definition timeSelectors :: "jsstring list" where
  "timeSelectors = map str [''horaire'', ''hours'', ''time'', ''schedule'']"

definition isClosedDay :: "(jsstring \<Rightarrow> jsstring) \<Rightarrow> node \<Rightarrow> bool" where
  "isClosedDay lc dayElement \<longleftrightarrow>
     getAttribute dayElement (str ''ferme'') = Some (str ''1'') \<or>
     getAttribute dayElement (str ''closed'') = Some (str ''1'') \<or>
     jsIncludes (lc (textContent dayElement)) (str ''ferm'' @ [0xE9]) \<or>
     jsIncludes (lc (textContent dayElement)) (str ''closed'')"

definition parseTimeRanges :: "node \<Rightarrow> TimeRange list" where
  "parseTimeRanges dayElement =
     filter (\<lambda>r. range_open r \<noteq> [] \<and> range_close r \<noteq> [])
       (map (\<lambda>horaire.
               \<lparr>range_open = orEmpty (firstTruthy
                   (attrs horaire [''ouverture'', ''open'', ''start''] @ [Some []])),
                range_close = orEmpty (firstTruthy
                   (attrs horaire [''fermeture'', ''close'', ''end''] @ [Some []]))\<rparr>)
          (probeSelectors (querySelectorAll dayElement) timeSelectors))"

definition parseDay ::
    "(jsstring \<Rightarrow> jsstring) \<Rightarrow> OpeningHours \<Rightarrow> node \<Rightarrow> OpeningHours" where
  "parseDay lc oh dayElement =
     (let dayName = firstTruthy (attrs dayElement [''nom'', ''name'', ''day'']
                                 @ [Some (lc (tagName dayElement))]);
          isClosed = isClosedDay lc dayElement
      in if truthyStr dayName then
           (case dayMapping (lc (orEmpty dayName)) of
              None \<Rightarrow> oh
            | Some dayKey \<Rightarrow>
                oh(dayKey \<mapsto>
                   \<lparr>ds_closed = Some isClosed,
                    ds_hours = (if \<not> isClosed \<and> length (parseTimeRanges dayElement) > 0
                                then Some (parseTimeRanges dayElement) else None)\<rparr>))
         else oh)"

definition parseOpeningHours :: "(jsstring \<Rightarrow> jsstring) \<Rightarrow> node \<Rightarrow> OpeningHours" where
  "parseOpeningHours lc horairesElement =
     foldl (parseDay lc) Map.empty
       (probeSelectors (querySelectorAll horairesElement) daySelectors)"

definition hourSelectors :: "jsstring list" where
  "hourSelectors = map str [''horaires'', ''opening_hours'', ''hours'', ''horaire'']"

text \<open>The first selector with a match decides; no match leaves the field unset.\<close>

fun findOpeningHours ::
    "(jsstring \<Rightarrow> jsstring) \<Rightarrow> node \<Rightarrow> jsstring list \<Rightarrow> OpeningHours option" where
  "findOpeningHours lc pdv [] = None"
| "findOpeningHours lc pdv (selector # selectors) =
     (case querySelector pdv selector of
        Some horairesElement \<Rightarrow> Some (parseOpeningHours lc horairesElement)
      | None \<Rightarrow> findOpeningHours lc pdv selectors)"

subsection \<open>One station\<close>

text \<open>\<^verbatim>\<open>parts.join(' ')\<close>\<close>

fun jsJoin :: "jsstring \<Rightarrow> jsstring list \<Rightarrow> jsstring" where
  "jsJoin sep [] = []"
| "jsJoin sep [x] = x"
| "jsJoin sep (x # y # ys) = x @ sep @ jsJoin sep (y # ys)"

text \<open>
  The address: the text of the \<^verbatim>\<open>adresse\<close> element or an attribute, else the street
  number, road name and road type that are present, joined by spaces.
\<close>

definition buildAddress ::
    "jsstring option \<Rightarrow> jsstring option \<Rightarrow> jsstring option \<Rightarrow> jsstring option
       \<Rightarrow> jsstring option" where
  "buildAddress fullAddress streetNumber roadName roadType =
     (if \<not> truthyStr fullAddress \<and>
         (truthyStr streetNumber \<or> truthyStr roadName \<or> truthyStr roadType)
      then (let addressParts = filter truthyStr [streetNumber, roadName, roadType]
            in if length addressParts > 0
               then Some (jsJoin (str '' '') (map orEmpty addressParts))
               else fullAddress)
      else fullAddress)"

text \<open>
  \<^verbatim>\<open>station.id && (station.city || station.latitude || station.fuels.length > 0 ||
  station.brand)\<close>
\<close>

definition hasMeaningfulData :: "GasStation \<Rightarrow> bool" where
  "hasMeaningfulData s \<longleftrightarrow>
     station_id s \<noteq> [] \<and>
     (city s \<noteq> [] \<or> truthyOpt (latitude s) \<or> length (fuels s) > 0 \<or> truthyStr (brand s))"

text \<open>
  The body of \<^verbatim>\<open>pdvElements.forEach((pdv, index) => ...)\<close>: the new \<^verbatim>\<open>usedIds\<close> and the
  station, if it is pushed. The id is recorded before the station is accepted or dropped.
  The body sits in a \<^verbatim>\<open>try\<close> whose \<^verbatim>\<open>catch\<close> skips the station; no operation of the
  body throws on a parsed element, so the model has no such branch.
\<close>

definition stationIdOf :: "node \<Rightarrow> nat \<Rightarrow> jsstring" where
  "stationIdOf pdv index =
     orEmpty (firstTruthy (attrs pdv [''id'', ''station_id'', ''code'']
                           @ [Some (str ''station-'' @ showNat index)]))"

definition buildStation :: "(jsstring \<Rightarrow> jsstring) \<Rightarrow> jsstring \<Rightarrow> node \<Rightarrow> GasStation" where
  "buildStation lc uniqueId pdv =
     (let roadType = firstTruthy (attrs pdv [''route'', ''road'']);
          roadName = firstTruthy (attrs pdv [''nom_rue'', ''nom_voie'']);
          streetNumber = firstTruthy (attrs pdv [''num'', ''numero'']);
          xmlAddress = elementText pdv ''adresse'';
          fullAddress = buildAddress
            (firstTruthy (xmlAddress # attrs pdv [''adresse'', ''address'', ''rue'', ''voie'',
                                                  ''addr'', ''street'']))
            streetNumber roadName roadType;
          xmlCity = elementText pdv ''ville'';
          brandAttr = firstTruthy (attrs pdv [''marque'', ''brand'', ''enseigne'', ''nom''])
      in \<lparr>station_id = uniqueId,
          station_name = (if truthyStr brandAttr then brandAttr else None),
          brand = (if truthyStr brandAttr then brandAttr else None),
          address = orUndefined fullAddress,
          city = orEmpty (firstTruthy (xmlCity # attrs pdv [''ville'', ''city'', ''commune'',
                                                            ''localite''] @ [Some []])),
          postalCode = orUndefined (firstTruthy
            (attrs pdv [''cp'', ''postal_code'', ''code_postal'', ''codepostal''])),
          latitude = convertCoordinate (rawLatitude pdv),
          longitude = convertCoordinate (rawLongitude pdv),
          fuels = parseFuels pdv,
          services = Some (parseServiceList lc pdv),
          lastUpdate = orUndefined (firstTruthy
            (attrs pdv [''maj'', ''last_update'', ''date_maj'', ''update''])),
          openingHours = findOpeningHours lc pdv hourSelectors,
          automate24h = Some (getAttribute pdv (str ''automate-24-24'') = Some (str ''1'') \<or>
                              getAttribute pdv (str ''automate_24h'') = Some (str ''1'') \<or>
                              getAttribute pdv (str ''automate24h'') = Some (str ''1'')),
          highway = Some (getAttribute pdv (str ''autoroute'') = Some (str ''1'') \<or>
                          getAttribute pdv (str ''highway'') = Some (str ''1'') \<or>
                          getAttribute pdv (str ''autorute'') = Some (str ''1'')),
          freeAccess = Some (getAttribute pdv (str ''libre-service'') = Some (str ''1'') \<or>
                             getAttribute pdv (str ''free_access'') = Some (str ''1'') \<or>
                             getAttribute pdv (str ''libre_service'') = Some (str ''1''))\<rparr>)"

definition parseStation ::
    "(jsstring \<Rightarrow> jsstring) \<Rightarrow> nat \<Rightarrow> jsstring list \<Rightarrow> node
       \<Rightarrow> jsstring list \<times> GasStation option" where
  "parseStation lc index usedIds pdv =
     (let stationId = stationIdOf pdv index;
          uniqueId = findUniqueId usedIds stationId stationId 1;
          s = buildStation lc uniqueId pdv
      in (uniqueId # usedIds, if hasMeaningfulData s then Some s else None))"

text \<open>The loop over \<^verbatim>\<open>pdvElements\<close>, \<^verbatim>\<open>usedIds\<close> passed along; the stations in push order.\<close>

fun parseStations ::
    "(jsstring \<Rightarrow> jsstring) \<Rightarrow> nat \<Rightarrow> jsstring list \<Rightarrow> node list \<Rightarrow> GasStation list" where
  "parseStations lc index usedIds [] = []"
| "parseStations lc index usedIds (pdv # pdvs) =
     (case parseStation lc index usedIds pdv of
        (usedIds', None) \<Rightarrow> parseStations lc (index + 1) usedIds' pdvs
      | (usedIds', Some s) \<Rightarrow> s # parseStations lc (index + 1) usedIds' pdvs)"

text \<open>
  \<^verbatim>\<open>parseXMLData\<close> from the parsed document on: the station elements are the matches of
  the first selector that has any; with none the function throws.
\<close>

datatype parseError = NoGasStationElements

definition possibleSelectors :: "jsstring list" where
  "possibleSelectors =
     map str [''pdv'', ''station'', ''point-de-vente'', ''pdv_id'', ''gasStation'', ''fuel-station'']"

definition parseDocument ::
    "(jsstring \<Rightarrow> jsstring) \<Rightarrow> node \<Rightarrow> parseError + GasStation list" where
  "parseDocument lc documentElement =
     (let pdvElements = probeSelectors (docQuerySelectorAll documentElement) possibleSelectors
      in if length pdvElements = 0 then Inl NoGasStationElements
         else Inr (parseStations lc 0 [] pdvElements))"

section \<open>dataService.ts: the fallback parser\<close>

text \<open>
  \<^verbatim>\<open>parseXMLWithFallback\<close> reads the text with regular expressions. The model starts from
  what they capture in one \<^verbatim>\<open><pdv ...>...</pdv>\<close> block: the dictionary \<^verbatim>\<open>attributes\<close>,
  group 1 of the \<^verbatim>\<open>adresse\<close> and \<^verbatim>\<open>ville\<close> matches, groups 1 to 3 of each \<^verbatim>\<open>fuelRegex\<close>
  match and groups 1 and 2 of each \<^verbatim>\<open>serviceRegex\<close> match.
\<close>

record pdvBlock =
  attributes :: "jsstring \<Rightarrow> jsstring option"
  addressMatch :: "jsstring option"
  cityMatch :: "jsstring option"
  fuelMatches :: "(jsstring \<times> jsstring \<times> jsstring option) list"
  serviceMatches :: "(jsstring option \<times> jsstring option) list"

definition attr :: "pdvBlock \<Rightarrow> string \<Rightarrow> jsstring option" where
  "attr b name = attributes b (str name)"

definition fallbackFuel :: "jsstring \<times> jsstring \<times> jsstring option \<Rightarrow> Fuel option" where
  "fallbackFuel m =
     (case m of (fuelId, priceStr, fuelUpdate) \<Rightarrow>
        makeFuel (Some fuelId) (parseFloat (replaceFirst (str '','') (str ''.'') priceStr))
          fuelUpdate)"

definition fallbackService :: "jsstring option \<times> jsstring option \<Rightarrow> jsstring option" where
  "fallbackService m =
     (case m of (g1, g2) \<Rightarrow> orUndefined (map_option jsTrim (firstTruthy [g1, g2])))"

definition fallbackStationId :: "pdvBlock \<Rightarrow> nat \<Rightarrow> jsstring" where
  "fallbackStationId b index =
     orEmpty (firstTruthy [attr b ''id'', Some (str ''station-'' @ showNat index)])"

definition fallbackRawLatitude :: "pdvBlock \<Rightarrow> number" where
  "fallbackRawLatitude b =
     parseFloat (orEmpty (firstTruthy [attr b ''latitude'', Some (str ''0'')]))"

definition fallbackRawLongitude :: "pdvBlock \<Rightarrow> number" where
  "fallbackRawLongitude b =
     parseFloat (orEmpty (firstTruthy [attr b ''longitude'', Some (str ''0'')]))"

definition buildFallbackStation :: "jsstring \<Rightarrow> pdvBlock \<Rightarrow> GasStation" where
  "buildFallbackStation uniqueId b =
     (let xmlAddress = map_option jsTrim (addressMatch b);
          xmlCity = map_option jsTrim (cityMatch b);
          roadType = firstTruthy [attr b ''route'', attr b ''road''];
          roadName = firstTruthy [attr b ''nom_rue'', attr b ''nom_voie''];
          streetNumber = firstTruthy [attr b ''num'', attr b ''numero''];
          fullAddress = buildAddress
            (firstTruthy [xmlAddress, attr b ''adresse'', attr b ''address'', attr b ''rue'',
                          attr b ''voie'', attr b ''addr'', attr b ''street''])
            streetNumber roadName roadType;
          brandAttr = attr b ''marque''
      in \<lparr>station_id = uniqueId,
          station_name = (if truthyStr brandAttr then brandAttr else None),
          brand = (if truthyStr brandAttr then brandAttr else None),
          address = orUndefined fullAddress,
          city = orEmpty (firstTruthy [xmlCity, attr b ''ville'', attr b ''city'', Some []]),
          postalCode = orUndefined (firstTruthy
            [attr b ''cp'', attr b ''postal_code'', attr b ''code_postal'']),
          latitude = convertCoordinate (fallbackRawLatitude b),
          longitude = convertCoordinate (fallbackRawLongitude b),
          fuels = List.map_filter fallbackFuel (fuelMatches b),
          services = Some (List.map_filter fallbackService (serviceMatches b)),
          lastUpdate = orUndefined (attr b ''maj''),
          openingHours = None,
          automate24h = Some (attr b ''automate-24-24'' = Some (str ''1'')),
          highway = Some (attr b ''autoroute'' = Some (str ''1'')),
          freeAccess = Some (attr b ''libre-service'' = Some (str ''1''))\<rparr>)"

definition fallbackStation ::
    "nat \<Rightarrow> jsstring list \<Rightarrow> pdvBlock \<Rightarrow> jsstring list \<times> GasStation option" where
  "fallbackStation index usedIds b =
     (let stationId = fallbackStationId b index;
          uniqueId = findUniqueId usedIds stationId stationId 1;
          s = buildFallbackStation uniqueId b
      in (uniqueId # usedIds, if hasMeaningfulData s then Some s else None))"

fun fallbackStations :: "nat \<Rightarrow> jsstring list \<Rightarrow> pdvBlock list \<Rightarrow> GasStation list" where
  "fallbackStations index usedIds [] = []"
| "fallbackStations index usedIds (b # bs) =
     (case fallbackStation index usedIds b of
        (usedIds', None) \<Rightarrow> fallbackStations (index + 1) usedIds' bs
      | (usedIds', Some s) \<Rightarrow> s # fallbackStations (index + 1) usedIds' bs)"

text \<open>
  \<^verbatim>\<open>while ((match = stationRegex.exec(...)) !== null && index < 10000)\<close>: the first
  10000 blocks are read.
\<close>

definition parseXMLWithFallback :: "pdvBlock list \<Rightarrow> GasStation list" where
  "parseXMLWithFallback blocks = fallbackStations 0 [] (take 10000 blocks)"

section \<open>dataService.ts: fetching\<close>

text \<open>
  \<^verbatim>\<open>fetchGasStationData\<close> awaits each step in turn, so it is a sequential program over
  what the outside world answers. The answers are the fields of \<open>environment\<close>: the
  network (\<^verbatim>\<open>fetch\<close>, \<^verbatim>\<open>response.arrayBuffer\<close>), the archive library (\<^verbatim>\<open>loadAsync\<close>,
  \<^verbatim>\<open>async('uint8array')\<close>), the text decoders, \<^verbatim>\<open>encodeURIComponent\<close>,
  \<^verbatim>\<open>toLowerCase\<close>, and \<^verbatim>\<open>parseXMLData\<close> on the decoded text. A call that throws
  answers \<open>Inl\<close> with the message of the error; \<open>'r\<close> is what \<^verbatim>\<open>parseXMLData\<close> returns.
\<close>

type_synonym byte = "8 word"

record response =
  ok :: bool
  status :: nat
  statusText :: jsstring
  arrayBuffer :: "jsstring + byte list"

record zipEntry =
  entryName :: jsstring
  dir :: bool
  async :: "jsstring + byte list"

record attempt =
  url :: jsstring
  proxyName :: jsstring
  headers :: "(jsstring \<times> jsstring) list"

record 'r environment =
  fetch :: "attempt \<Rightarrow> jsstring + response"
  loadAsync :: "byte list \<Rightarrow> jsstring + zipEntry list"
  decodeUtf8 :: "byte list \<Rightarrow> jsstring"
  decodeUtf8Fatal :: "byte list \<Rightarrow> jsstring option"
  decodeWindows1252 :: "byte list \<Rightarrow> jsstring"
  encodeURIComponent :: "jsstring \<Rightarrow> jsstring"
  toLowerCase :: "jsstring \<Rightarrow> jsstring"
  parseXMLData :: "jsstring \<Rightarrow> jsstring + 'r"

definition endpoints :: "jsstring list" where
  "endpoints = [str ''https://donnees.roulez-eco.fr/opendata/jour'',
                str ''https://donnees.roulez-eco.fr/opendata/instantane'']"

definition attemptsFor :: "'r environment \<Rightarrow> jsstring \<Rightarrow> attempt list" where
  "attemptsFor env baseUrl =
     [\<lparr>url = str ''https://api.codetabs.com/v1/proxy?quest='' @ encodeURIComponent env baseUrl,
       proxyName = str ''codetabs'', headers = []\<rparr>,
      \<lparr>url = str ''https://cors-proxy.htmldriven.com/?url='' @ encodeURIComponent env baseUrl,
       proxyName = str ''htmldriven'', headers = []\<rparr>,
      \<lparr>url = str ''https://api.allorigins.win/raw?url='' @ encodeURIComponent env baseUrl,
       proxyName = str ''allorigins'', headers = []\<rparr>,
      \<lparr>url = str ''https://cors-anywhere.herokuapp.com/'' @ baseUrl,
       proxyName = str ''cors-anywhere'',
       headers = [(str ''X-Requested-With'', str ''XMLHttpRequest'')]\<rparr>,
      \<lparr>url = baseUrl, proxyName = str ''direct'', headers = []\<rparr>,
      \<lparr>url = str ''https://corsproxy.io/?'' @ encodeURIComponent env baseUrl,
       proxyName = str ''corsproxy.io'', headers = []\<rparr>]"

text \<open>The decoding of the XML entry: byte-order mark, declared encoding, then trial.\<close>

definition decodeXml :: "'r environment \<Rightarrow> byte list \<Rightarrow> jsstring" where
  "decodeXml env xmlBuffer =
     (if length xmlBuffer \<ge> 3 \<and> take 3 xmlBuffer = [0xEF, 0xBB, 0xBF]
      then decodeUtf8 env (drop 3 xmlBuffer)
      else
        let probe = decodeUtf8 env (take 200 xmlBuffer) in
        if jsIncludes probe (str ''encoding=\"ISO-8859-1\"'') \<or>
           jsIncludes probe (str ''encoding=\"windows-1252\"'')
        then decodeWindows1252 env xmlBuffer
        else if jsIncludes probe (str ''encoding=\"UTF-8\"'') \<or> jsIncludes probe (str ''utf-8'')
        then decodeUtf8 env xmlBuffer
        else (case decodeUtf8Fatal env xmlBuffer of
                Some xmlContent \<Rightarrow> xmlContent
              | None \<Rightarrow> decodeWindows1252 env xmlBuffer))"

text \<open>The body of the \<^verbatim>\<open>try\<close> block of one attempt: the stations, or the error thrown.\<close>

definition endsWith :: "'a list \<Rightarrow> 'a list \<Rightarrow> bool" where
  "endsWith s e = suffix e s"

definition runAttempt :: "'r environment \<Rightarrow> attempt \<Rightarrow> jsstring + 'r" where
  "runAttempt env a =
     (case fetch env a of
        Inl e \<Rightarrow> Inl e
      | Inr resp \<Rightarrow>
          if \<not> ok resp
          then Inl (str ''HTTP Error: '' @ showNat (status resp) @ str '' '' @ statusText resp)
          else
            (case arrayBuffer resp of
               Inl e \<Rightarrow> Inl e
             | Inr zipBuffer \<Rightarrow>
                 if length zipBuffer = 0 then Inl (str ''Empty response received from server'')
                 else if take 2 zipBuffer \<noteq> [0x50, 0x4B]
                 then Inl (str ''Response is not a valid zip file. Got text response instead.'')
                 else
                   (case loadAsync env zipBuffer of
                      Inl e \<Rightarrow> Inl e
                    | Inr files \<Rightarrow>
                        (case find (\<lambda>f. endsWith (toLowerCase env (entryName f)) (str ''.xml'')
                                         \<and> \<not> dir f) files of
                           None \<Rightarrow>
                             Inl (str ''No XML file found in the zip archive. Available files: ''
                                  @ jsJoin (str '', '') (map entryName files))
                         | Some f \<Rightarrow>
                             (case async f of
                                Inl e \<Rightarrow> Inl e
                              | Inr xmlBuffer \<Rightarrow>
                                  let xmlContent = decodeXml env xmlBuffer in
                                  if xmlContent = [] \<or> length (jsTrim xmlContent) = 0
                                  then Inl (str ''XML file appears to be empty'')
                                  else parseXMLData env xmlContent)))))"

text \<open>
  The two loops. \<^verbatim>\<open>lastError\<close> is the message of the latest error caught, \<^verbatim>\<open>null\<close> at
  the start; a successful attempt returns at once.
\<close>

fun tryAttempts ::
    "'r environment \<Rightarrow> jsstring option \<Rightarrow> attempt list \<Rightarrow> jsstring option + 'r" where
  "tryAttempts env lastError [] = Inl lastError"
| "tryAttempts env lastError (a # as) =
     (case runAttempt env a of
        Inr stations \<Rightarrow> Inr stations
      | Inl errorMessage \<Rightarrow> tryAttempts env (Some errorMessage) as)"

fun tryEndpoints ::
    "'r environment \<Rightarrow> jsstring option \<Rightarrow> jsstring list \<Rightarrow> jsstring option + 'r" where
  "tryEndpoints env lastError [] = Inl lastError"
| "tryEndpoints env lastError (baseUrl # baseUrls) =
     (case tryAttempts env lastError (attemptsFor env baseUrl) of
        Inr stations \<Rightarrow> Inr stations
      | Inl lastError' \<Rightarrow> tryEndpoints env lastError' baseUrls)"

definition possibleSolutions :: jsstring where
  "possibleSolutions =
     str ''Possible solutions:'' @ [0xA] @
     str ''1. The API might be temporarily down'' @ [0xA] @
     str ''2. CORS restrictions are blocking all proxy attempts'' @ [0xA] @
     str ''3. Network connectivity issues'' @ [0xA] @
     str ''4. The data format might have changed'' @ [0xA, 0xA] @
     str ''Please try again in a few minutes or check the browser'' @ [0x27] @
     str ''s developer console for more details.''"

definition finalError :: "jsstring option \<Rightarrow> jsstring" where
  "finalError lastError =
     str ''Failed to fetch data from all endpoints. Last error: '' @
     (if truthyStr lastError then orEmpty lastError else str ''Unknown error'') @
     str ''. '' @ [0xA, 0xA] @ possibleSolutions"

definition fetchGasStationData :: "'r environment \<Rightarrow> jsstring + 'r" where
  "fetchGasStationData env =
     (case tryEndpoints env None endpoints of
        Inr stations \<Rightarrow> Inr stations
      | Inl lastError \<Rightarrow> Inl (finalError lastError))"

text \<open>The message of the error an attempt throws (empty when it returns).\<close>

definition errorOf :: "'r environment \<Rightarrow> attempt \<Rightarrow> jsstring" where
  "errorOf env a = (case runAttempt env a of Inl e \<Rightarrow> e | Inr r \<Rightarrow> [])"


section \<open>dataService.ts: the mojibake repair table\<close>

text \<open>
  \<^verbatim>\<open>encodingFixes\<close> of \<^verbatim>\<open>parseXMLData\<close>; \<^verbatim>\<open>parseXMLWithFallback\<close> declares the same
  table again, entry for entry. Each entry is the code units of the pattern and of the
  replacement.
\<close>

definition encodingFixes :: "(jsstring \<times> jsstring) list" where
  "encodingFixes =
    [([0xE2, 0x20AC, 0x2122], [0x27]),
     ([0xE2, 0x20AC, 0x153], [0x22]),
     ([0xE2, 0x20AC], [0x22]),
     ([0xE2, 0x20AC, 0x22], [0x2013]),
     ([0xE2, 0x20AC, 0x22], [0x2014]),
     ([0xC3, 0xA9], [0xE9]),
     ([0xC3, 0xA8], [0xE8]),
     ([0xC3, 0xAA], [0xEA]),
     ([0xC3, 0xAF], [0xEF]),
     ([0xC3, 0xAE], [0xEE]),
     ([0xC3, 0xB4], [0xF4]),
     ([0xC3, 0xB9], [0xF9]),
     ([0xC3, 0xBB], [0xFB]),
     ([0xC3, 0xBC], [0xFC]),
     ([0xC3, 0x20], [0xE0]),
     ([0xC3, 0xA2], [0xE2]),
     ([0xC3, 0xA7], [0xE7]),
     ([0xC3, 0x2030], [0xC9]),
     ([0xC3, 0x20AC], [0xC0]),
     ([0xC3, 0x2021], [0xC7]),
     ([0x98E8], [0xE9]),
     ([0x951A], [0xE0]),
     ([0x8C65], [0xE8]),
     ([0x8822], [0xE7]),
     ([0x94C6], [0xEE]),
     ([0x4E48], [0xF4]),
     ([0x9709], [0xF9]),
     ([0x8D42], [0xFB]),
     ([0x9732], [0xEF]),
     ([0x813A], [0xFC]),
     ([0x8305], [0xE9]),
     ([0x813F], [0xE0]),
     ([0x732B], [0xE8]),
     ([0x6F0F], [0xF9]),
     ([0x9504], [0xE7])]"

text \<open>
  \<^verbatim>\<open>encodingFixes.forEach(([pattern, replacement]) => { fixedXmlContent =
  fixedXmlContent.replace(pattern, replacement) })\<close>
\<close>

definition applyEncodingFixes :: "(jsstring \<times> jsstring) list \<Rightarrow> jsstring \<Rightarrow> jsstring" where
  "applyEncodingFixes fixes xmlContent =
     foldl (\<lambda>fixedXmlContent (pattern, replacement).
              replaceAll pattern replacement fixedXmlContent) xmlContent fixes"

text \<open>The table with the entry at index \<open>i\<close> taken out.\<close>

definition withoutEntry :: "nat \<Rightarrow> 'a list \<Rightarrow> 'a list" where
  "withoutEntry i xs = take i xs @ drop (Suc i) xs"

section \<open>Reference notions and sample data\<close>

text \<open>
  Stated from the spec's words, to be compared with the code: the ranking by cheapest
  fuel price (the stations sorted ascending by their cheapest priced fuel, those without
  one last, cut to the first \<open>n\<close>).
\<close>

definition rankByCheapestPrice :: "GasStation list \<Rightarrow> number \<Rightarrow> GasStation list" where
  "rankByCheapestPrice stations n =
     slice0 (jsSort (\<lambda>a b. num_sub (orNumber (cheapestPrice (fuels a)) Infinity)
                                   (orNumber (cheapestPrice (fuels b)) Infinity)) stations) n"

text \<open>
  What the queries keep when no fuel type is selected: the stations with both
  coordinates and, if a reference point and a maximum distance are given, within it.
\<close>

definition withinReach :: "MapFilters \<Rightarrow> GasStation \<Rightarrow> bool" where
  "withinReach filters s \<longleftrightarrow>
     truthyOpt (latitude s) \<and> truthyOpt (longitude s) \<and>
     (\<not> (hasUserLocation filters \<and> maxDistance filters \<noteq> None) \<or>
      num_le (distanceTo filters s) (toNumber (maxDistance filters)))"

text \<open>\<^verbatim>\<open>toLowerCase\<close> on ASCII text, for the examples.\<close>

definition asciiLower :: "jsstring \<Rightarrow> jsstring" where
  "asciiLower s = map (\<lambda>c. if 0x41 \<le> c \<and> c \<le> 0x5A then c + 0x20 else c) s"

definition sampleFuel :: "string \<Rightarrow> string \<Rightarrow> real \<Rightarrow> Fuel" where
  "sampleFuel i n p =
     \<lparr>fuel_id = str i, fuel_name = str n, price = Some (Num p), fuel_lastUpdate = None\<rparr>"

definition sampleStation ::
    "string \<Rightarrow> number option \<Rightarrow> number option \<Rightarrow> Fuel list \<Rightarrow> OpeningHours option
       \<Rightarrow> GasStation" where
  "sampleStation i lat lon fs oh =
     \<lparr>station_id = str i, station_name = None, brand = None, address = None,
      city = str ''Paris'', postalCode = None, latitude = lat, longitude = lon, fuels = fs,
      services = Some [], lastUpdate = None, openingHours = oh, automate24h = Some False,
      highway = Some False, freeAccess = Some False\<rparr>"

definition stationA :: GasStation where
  "stationA = sampleStation ''A'' (Some (Num 48.85)) (Some (Num 2.35))
                [sampleFuel ''1'' ''Gazole'' 2] None"

definition stationB :: GasStation where
  "stationB = sampleStation ''B'' (Some (Num 45.76)) (Some (Num 4.83))
                [sampleFuel ''1'' ''Gazole'' 1, sampleFuel ''2'' ''SP95'' 1.5] None"

definition topNByPriceAll :: "real \<Rightarrow> MapFilters" where
  "topNByPriceAll n =
     \<lparr>fuelType = str ''all'', maxStations = None, maxPrice = None, maxDistance = None,
      location = [], userLatitude = None, userLongitude = None, topN = Some (Num n),
      topNOrderBy = price_order\<rparr>"

definition nightSchedule :: OpeningHours where
  "nightSchedule =
     Map.empty(monday \<mapsto>
       \<lparr>ds_closed = Some False,
        ds_hours = Some [\<lparr>range_open = str ''22:00'', range_close = str ''06:00''\<rparr>]\<rparr>)"

definition nightStation :: GasStation where
  "nightStation = sampleStation ''N'' None None [] (Some nightSchedule)"


text \<open>Sample documents: a list of \<^verbatim>\<open>pdv\<close> elements under one root.\<close>

definition samplePdv :: "(string \<times> string) list \<Rightarrow> node list \<Rightarrow> node" where
  "samplePdv as cs = Element (str ''pdv'') (map (\<lambda>(k, v). (str k, str v)) as) cs"

definition sampleDocument :: "node list \<Rightarrow> node" where
  "sampleDocument pdvs = Element (str ''pdv_liste'') [] pdvs"

definition halfPlacedPdv :: node where
  "halfPlacedPdv =
     samplePdv [(''id'', ''1''), (''latitude'', ''0''), (''longitude'', ''250000''),
                (''ville'', ''Paris'')] []"

text \<open>
  Stated from the spec's words: the names given by the direct children whose tag name
  contains \<^verbatim>\<open>service\<close>, a list without its repetitions (the first occurrence of each
  element is kept), and the names that the children add to those of the selector probes.
\<close>

definition childServiceNames :: "(jsstring \<Rightarrow> jsstring) \<Rightarrow> node \<Rightarrow> jsstring list" where
  "childServiceNames lc pdv =
     List.map_filter childServiceName
       (filter (\<lambda>child. tagName child \<noteq> [] \<and> jsIncludes (lc (tagName child)) (str ''service''))
          (children pdv))"

fun firstOccurrences :: "jsstring list \<Rightarrow> jsstring list" where
  "firstOccurrences [] = []"
| "firstOccurrences (x # xs) = x # firstOccurrences (filter (\<lambda>y. y \<noteq> x) xs)"

definition addedServices :: "(jsstring \<Rightarrow> jsstring) \<Rightarrow> node \<Rightarrow> jsstring list" where
  "addedServices lc pdv =
     firstOccurrences
       (filter (\<lambda>name. name \<notin> set (selectorServices pdv)) (childServiceNames lc pdv))"

definition repeatedServicePdv :: node where
  "repeatedServicePdv =
     samplePdv [(''id'', ''1''), (''ville'', ''Paris'')]
       [Element (str ''service'') [] [Text (str ''X'')],
        Element (str ''service'') [] [Text (str ''X'')]]"

definition mixedServicePdv :: node where
  "mixedServicePdv =
     samplePdv [(''id'', ''1''), (''ville'', ''Paris'')]
       [Element (str ''service'') [] [Text (str ''X'')],
        Element (str ''service_b'') [] [Text (str ''Y'')],
        Element (str ''service_c'') [] [Text (str ''X'')],
        Element (str ''service_d'') [] [Text (str ''Y'')]]"

definition gazolePrix :: node where
  "gazolePrix =
     Element (str ''prix'') [(str ''nom'', str ''Gazole''), (str ''valeur'', str ''1,5'')] []"

definition sp95Prix :: node where
  "sp95Prix =
     Element (str ''prix'') [(str ''nom'', str ''SP95''), (str ''valeur'', str ''1750'')] []"

definition e85Prix :: node where
  "e85Prix =
     Element (str ''prix'') [(str ''nom'', str ''E85''), (str ''valeur'', str ''0'')] []"

definition roundedPrix :: node where
  "roundedPrix =
     Element (str ''prix'')
       [(str ''nom'', str ''SP98''), (str ''valeur'', str ''10.0000000000000001'')] []"

definition pricedPdv :: node where
  "pricedPdv =
     samplePdv [(''id'', ''1''), (''ville'', ''Paris'')] [gazolePrix, sp95Prix, e85Prix]"

definition twinPdv :: node where
  "twinPdv = samplePdv [(''id'', ''7''), (''ville'', ''Paris'')] []"

text \<open>An environment without network: every \<^verbatim>\<open>fetch\<close> throws.\<close>

definition offlineEnvironment :: "GasStation list environment" where
  "offlineEnvironment =
     \<lparr>fetch = (\<lambda>a. Inl (str ''Failed to fetch'')),
      loadAsync = (\<lambda>bytes. Inr []),
      decodeUtf8 = (\<lambda>bytes. []),
      decodeUtf8Fatal = (\<lambda>bytes. None),
      decodeWindows1252 = (\<lambda>bytes. []),
      encodeURIComponent = (\<lambda>s. s),
      toLowerCase = asciiLower,
      parseXMLData = (\<lambda>xmlContent. Inr [])\<rparr>"

text \<open>Sample blocks for the fallback parser, with the same content.\<close>

definition sampleBlock ::
    "(string \<times> string) list \<Rightarrow> (jsstring \<times> jsstring \<times> jsstring option) list \<Rightarrow> pdvBlock" where
  "sampleBlock as fs =
     \<lparr>attributes = map_of (map (\<lambda>(k, v). (str k, str v)) as),
      addressMatch = None, cityMatch = None, fuelMatches = fs, serviceMatches = []\<rparr>"

definition halfPlacedBlock :: pdvBlock where
  "halfPlacedBlock =
     sampleBlock [(''id'', ''1''), (''latitude'', ''0''), (''longitude'', ''250000''),
                  (''ville'', ''Paris'')] []"

definition pricedBlock :: pdvBlock where
  "pricedBlock =
     sampleBlock [(''id'', ''1''), (''ville'', ''Paris'')]
       [(str ''1'', str ''1,5'', None), (str ''2'', str ''0'', None)]"

definition twinBlock :: pdvBlock where
  "twinBlock = sampleBlock [(''id'', ''7''), (''ville'', ''Paris'')] []"


section \<open>Rounding\<close>

lemmas double_defs = toDouble_def binade_def roundHalfEven_def log2floor.simps log2ceil_def
  Let_def

text \<open>\<open>log2floor\<close> and \<open>log2ceil\<close> are the integer logarithms.\<close>

lemma log2floor_le: "0 < n \<Longrightarrow> 2 ^ log2floor n \<le> n"
proof (induction n rule: log2floor.induct)
  case (1 n)
  show ?case
  proof (cases "n < 2")
    case True
    with "1.prems" show ?thesis by (subst log2floor.simps) simp
  next
    case False
    then have "0 < n div 2" by simp
    from "1.IH"[OF False this] have "2 * 2 ^ log2floor (n div 2) \<le> 2 * (n div 2)" by simp
    also have "\<dots> \<le> n" by simp
    finally show ?thesis using False by (subst log2floor.simps) simp
  qed
qed

lemma log2floor_gt: "n < 2 ^ Suc (log2floor n)"
proof (induction n rule: log2floor.induct)
  case (1 n)
  show ?case
  proof (cases "n < 2")
    case True
    then show ?thesis by (subst log2floor.simps) simp
  next
    case False
    from "1.IH"[OF False] have "n div 2 + 1 \<le> 2 ^ Suc (log2floor (n div 2))" by simp
    then have "2 * (n div 2) + 2 \<le> 2 * 2 ^ Suc (log2floor (n div 2))" by simp
    moreover have "n < 2 * (n div 2) + 2" by presburger
    ultimately show ?thesis using False by (subst log2floor.simps) simp
  qed
qed

lemma log2ceil_ge: "n \<le> 2 ^ log2ceil n"
proof (cases "n \<le> 1")
  case True
  then show ?thesis by (simp add: log2ceil_def)
next
  case False
  with log2floor_gt[of "n - 1"] show ?thesis by (simp add: log2ceil_def)
qed

lemma binade_lower:
  assumes "0 < x"
  shows "2 powi (binade x - 52) \<le> x \<or> binade x = - 1022"
proof (cases "binade x = - 1022")
  case True
  then show ?thesis by simp
next
  case False
  let ?e = "if 1 \<le> x then int (log2floor (nat \<lfloor>x\<rfloor>)) else - int (log2ceil (nat \<lceil>1 / x\<rceil>))"
  from False assms have e: "binade x = ?e" by (auto simp: binade_def max_def split: if_splits)
  have "2 powi ?e \<le> x"
  proof (cases "1 \<le> x")
    case True
    then have "0 < nat \<lfloor>x\<rfloor>" by simp
    from log2floor_le[OF this] have "(2::real) ^ log2floor (nat \<lfloor>x\<rfloor>) \<le> real (nat \<lfloor>x\<rfloor>)"
      by (metis of_nat_le_iff of_nat_numeral of_nat_power)
    also have "\<dots> \<le> x" using True by simp
    finally show ?thesis using True by simp
  next
    case False
    let ?k = "log2ceil (nat \<lceil>1 / x\<rceil>)"
    have "1 / x \<le> real (nat \<lceil>1 / x\<rceil>)" using assms by (simp add: le_of_int_ceiling) linarith?
    also have "\<dots> \<le> 2 ^ ?k" using log2ceil_ge[of "nat \<lceil>1 / x\<rceil>"]
      by (metis of_nat_le_iff of_nat_numeral of_nat_power)
    finally have "1 / x \<le> 2 ^ ?k" .
    with assms have "1 / 2 ^ ?k \<le> x" by (simp add: field_simps)
    then show ?thesis using False by (simp add: power_int_minus field_simps)
  qed
  moreover have "(2::real) powi (?e - 52) \<le> 2 powi ?e"
    by (rule power_int_increasing) simp_all
  ultimately show ?thesis using e by simp
qed

lemma roundHalfEven_pos: "1 \<le> q \<Longrightarrow> 1 \<le> roundHalfEven q"
proof -
  assume "1 \<le> q"
  then have "1 \<le> \<lfloor>q\<rfloor>" by simp
  then show ?thesis by (auto simp: roundHalfEven_def)
qed

lemma toDouble_positive:
  assumes "1 / 128 \<le> x"
  shows "num_less (Num 0) (toDouble x)"
proof -
  from assms have pos: "0 < x" by simp
  let ?ulp = "(2::real) powi (binade x - 52)"
  have up: "0 < ?ulp" by simp
  have "?ulp \<le> x"
  proof (cases "binade x = - 1022")
    case True
    then have "?ulp = 2 powi (- 1074)" by simp
    also have "\<dots> \<le> 1 / 128" by (simp add: power_int_minus field_simps)
    finally show ?thesis using assms by simp
  next
    case False
    with binade_lower[OF pos] show ?thesis by simp
  qed
  with up have "1 \<le> x / ?ulp" by (simp add: field_simps)
  then have "1 \<le> roundHalfEven (\<bar>x\<bar> / ?ulp)" using pos by (simp add: roundHalfEven_pos)
  then have "0 < real_of_int (roundHalfEven (\<bar>x\<bar> / ?ulp)) * ?ulp"
    using up by (simp add: zero_less_mult_iff)
  then show ?thesis using pos by (simp add: toDouble_def Let_def)
qed



lemma log2floor_ge: "2 ^ k \<le> n \<Longrightarrow> k \<le> log2floor n"
proof -
  assume "2 ^ k \<le> n"
  with log2floor_gt[of n] have "(2::nat) ^ k < 2 ^ Suc (log2floor n)" by linarith
  then have "k < Suc (log2floor n)" by (simp only: power_strict_increasing_iff one_less_numeral_iff semiring_norm)
  then show ?thesis by simp
qed

lemma log2ceil_gt: "2 ^ k < n \<Longrightarrow> k < log2ceil n"
proof -
  assume a: "2 ^ k < n"
  have "(1::nat) \<le> 2 ^ k" by simp
  with a have n: "\<not> n \<le> 1" by linarith
  from a have "2 ^ k \<le> n - 1" by linarith
  then have "k \<le> log2floor (n - 1)" by (rule log2floor_ge)
  with n show ?thesis by (simp add: log2ceil_def)
qed

lemma binade_small:
  fixes x :: real
  assumes "0 < x" and "x < 1 / 2 ^ k" and "1022 \<le> k"
  shows "binade x = - 1022"
proof -
  have p: "(0::real) < 2 ^ k" by simp
  have "(1::real) \<le> 2 ^ k" by simp
  then have "1 / 2 ^ k \<le> (1::real)" by (simp add: field_simps)
  with assms(2) have small: "x < 1" by linarith
  from assms(1,2) p have "2 ^ k < 1 / x" by (simp add: field_simps)
  then have "(2::nat) ^ k < nat \<lceil>1 / x\<rceil>"
    by (simp add: zless_nat_eq_int_zless less_ceiling_iff)
  then have "k < log2ceil (nat \<lceil>1 / x\<rceil>)" by (rule log2ceil_gt)
  with assms(3) have "1022 < log2ceil (nat \<lceil>1 / x\<rceil>)" by linarith
  with small assms(1) show ?thesis by (simp add: binade_def)
qed

lemma roundHalfEven_small: "0 \<le> q \<Longrightarrow> q < 1 / 2 \<Longrightarrow> roundHalfEven q = 0"
proof -
  assume a: "0 \<le> q" "q < 1 / 2"
  then have "\<lfloor>q\<rfloor> = 0" by (simp add: floor_eq_iff)
  with a show ?thesis by (simp add: roundHalfEven_def)
qed

lemma binade_abs: "binade (\<bar>x\<bar>) = binade x"
  by (simp add: binade_def)

lemma toDouble_underflow:
  assumes "x \<noteq> 0" and "\<bar>x\<bar> < 1 / 2 ^ 1075"
  shows "toDouble x = Num 0"
proof -
  let ?a = "\<bar>x\<bar>"
  from assms have pos: "0 < ?a" by simp
  from binade_small[OF pos assms(2)] have b: "binade x = - 1022" by (simp add: binade_abs)
  have u: "(2::real) powi (- 1022 - 52) = 1 / 2 ^ 1074" by (simp add: power_int_minus field_simps)
  have "?a / (1 / 2 ^ 1074) = ?a * 2 ^ 1074" by simp
  also have "\<dots> < (1 / 2 ^ 1075) * 2 ^ 1074" using assms(2) by (simp only: mult_less_cancel_right_pos zero_less_power zero_less_numeral)
  also have "\<dots> = 1 / 2" by simp
  finally have "?a / (1 / 2 ^ 1074) < 1 / 2" .
  moreover have "0 \<le> ?a / (1 / 2 ^ 1074)" by simp
  ultimately have "roundHalfEven (?a / (1 / 2 ^ 1074)) = 0" by (rule roundHalfEven_small[rotated])
  then have "roundHalfEven (?a / 2 powi (binade x - 52)) = 0" by (simp only: b u)
  then show ?thesis using assms(1) by (simp only: toDouble_def Let_def) simp
qed

lemma roundHalfEven_ge: "of_int n \<le> q \<Longrightarrow> n \<le> roundHalfEven q"
proof -
  assume "of_int n \<le> q"
  then have "n \<le> \<lfloor>q\<rfloor>" by (simp add: le_floor_iff)
  then show ?thesis by (auto simp: roundHalfEven_def)
qed

lemma toDouble_large:
  fixes x :: real
  assumes "2 ^ k \<le> x" and "52 \<le> k"
  shows "2 ^ k \<le> real_of_int (roundHalfEven (\<bar>x\<bar> / 2 powi (binade x - 52))) * 2 powi (binade x - 52)"
proof -
  have "(1::real) \<le> 2 ^ k" by simp
  with assms(1) have one: "1 \<le> x" by linarith
  let ?n = "nat \<lfloor>x\<rfloor>"
  let ?e = "log2floor ?n"
  have "(2::nat) ^ k \<le> ?n" using assms(1) by (intro le_nat_floor) simp
  then have e: "k \<le> ?e" by (rule log2floor_ge)
  have b: "binade x = int ?e" using one by (simp add: binade_def)
  let ?m = "?e - 52"
  have ulp: "(2::real) powi (int ?e - 52) = 2 ^ ?m"
  proof -
    have "int ?e - 52 = int ?m" using e assms(2) by linarith
    then show ?thesis by (simp only: power_int_of_nat)
  qed
  have split: "(2::real) ^ ?e = 2 ^ 52 * 2 ^ ?m"
  proof -
    have "?e = 52 + ?m" using e assms(2) by linarith
    then show ?thesis by (metis power_add)
  qed
  have "0 < ?n" using one by simp
  from log2floor_le[OF this] have "real ((2::nat) ^ ?e) \<le> real ?n" by (simp only: of_nat_le_iff)
  then have "(2::real) ^ ?e \<le> real ?n" by simp
  also have "\<dots> \<le> x" using one by simp
  finally have xe: "(2::real) ^ ?e \<le> x" .
  have up: "(0::real) < 2 ^ ?m" by simp
  from xe split have "2 ^ 52 * 2 ^ ?m \<le> x" by simp
  with up have "of_int (2 ^ 52) \<le> x / 2 ^ ?m" by (simp add: field_simps)
  then have "(2::int) ^ 52 \<le> roundHalfEven (x / 2 ^ ?m)" by (rule roundHalfEven_ge)
  then have "real_of_int (2 ^ 52) \<le> of_int (roundHalfEven (x / 2 ^ ?m))" by (simp only: of_int_le_iff)
  then have "real_of_int (2 ^ 52) * 2 ^ ?m \<le> of_int (roundHalfEven (x / 2 ^ ?m)) * 2 ^ ?m"
    using up by (simp only: mult_le_cancel_right_pos)
  then have "(2::real) ^ ?e \<le> of_int (roundHalfEven (x / 2 ^ ?m)) * 2 ^ ?m"
    using split by simp
  moreover have "(2::real) ^ k \<le> 2 ^ ?e" using e by (intro power_increasing) simp_all
  ultimately have "(2::real) ^ k \<le> of_int (roundHalfEven (x / 2 ^ ?m)) * 2 ^ ?m" by linarith
  moreover have "\<bar>x\<bar> = x" using one by simp
  ultimately show ?thesis by (simp only: b ulp)
qed

lemma toDouble_overflow:
  assumes "2 ^ 1024 \<le> x"
  shows "toDouble x = Infinity"
proof -
  have "(0::real) < 2 ^ 1024" by (rule zero_less_power) simp
  with assms have pos: "0 < x" by linarith
  from toDouble_large[OF assms] pos show ?thesis
    by (simp only: toDouble_def Let_def) simp
qed

text \<open>
  The rounding on examples: a value with a short binary expansion is kept, the decimal
  \<open>10.0000000000000001\<close> is rounded to 10, and values beyond the range of the doubles go
  to 0 and to \<^verbatim>\<open>Infinity\<close>.
\<close>

lemma toDouble_zero: "toDouble 0 = Num 0"
  by (simp add: toDouble_def)

lemma toDouble_values:
  "toDouble 250000 = Num 250000"
  "toDouble (5 / 2) = Num (5 / 2)"
  "toDouble (3 / 2) = Num (3 / 2)"
  "toDouble 1750 = Num 1750"
  "toDouble (7 / 4) = Num (7 / 4)"
  "toDouble (- (3 / 8)) = Num (- (3 / 8))"
  by (simp_all add: double_defs)

lemma toDouble_rounds:
  "toDouble (10 + 1 / 10 ^ 16) = Num 10"
  "toDouble (1 / 10 ^ 400) = Num 0"
  "toDouble (10 ^ 400) = Infinity"
proof -
  show "toDouble (10 + 1 / 10 ^ 16) = Num 10" by (simp add: double_defs)
  show "toDouble (1 / 10 ^ 400) = Num 0" by (rule toDouble_underflow) simp_all
  show "toDouble (10 ^ 400) = Infinity" by (rule toDouble_overflow) simp
qed

lemmas parseFloat_defs = parseFloat_def readSign_def readExponent_def scale10_def isDigit_def
  digitsValue_def digitValue_def trimStart_def isWhiteSpace_def

lemma parseFloat_examples:
  "parseFloat (str ''1.5'') = Num (3 / 2)"
  "parseFloat (str '' 250000abc'') = Num 250000"
  "parseFloat (str ''abc'') = NaN"
  "parseFloat (str ''10.0000000000000001'') = Num 10"
  "parseFloat (str ''1e-400'') = Num 0"
proof -
  show "parseFloat (str ''1.5'') = Num (3 / 2)"
    by (simp add: parseFloat_defs str_def toDouble_values)
  show "parseFloat (str '' 250000abc'') = Num 250000"
    by (simp add: parseFloat_defs str_def toDouble_values)
  show "parseFloat (str ''abc'') = NaN"
    by (simp add: parseFloat_defs str_def)
  have "parseFloat (str ''10.0000000000000001'') = toDouble (10 + 1 / 10 ^ 16)"
    by (simp add: parseFloat_defs str_def)
  then show "parseFloat (str ''10.0000000000000001'') = Num 10"
    by (simp only: toDouble_rounds)
  have "parseFloat (str ''1e-400'') = toDouble (1 / 10 ^ 400)"
    by (simp add: parseFloat_defs str_def)
  then show "parseFloat (str ''1e-400'') = Num 0"
    by (simp only: toDouble_rounds)
qed

section \<open>Properties of the repair table\<close>

lemma replaceAll_prefix_back:
  assumes "pat \<noteq> []" "rep \<noteq> []" "hd rep \<notin> set q"
  shows "prefix q (replaceAll pat rep s) \<Longrightarrow>
         prefix q s \<and> (\<forall>i<length q. \<not> prefix pat (drop i s))"
  using assms
proof (induction q arbitrary: s)
  case Nil
  then show ?case by simp
next
  case (Cons y q)
  show ?case
  proof (cases s)
    case Nil
    with Cons.prems show ?thesis by simp
  next
    case (Cons x xs)
    have np: "\<not> prefix pat (x # xs)"
    proof
      assume "prefix pat (x # xs)"
      with Cons.prems(1) Cons.prems(2,3) Cons
      have "prefix (y # q) (rep @ replaceAll pat rep (drop (length pat - 1) xs))" by simp
      with \<open>rep \<noteq> []\<close> have "y = hd rep" by (cases rep) auto
      with Cons.prems(4) show False by simp
    qed
    with Cons.prems Cons have xy: "x = y" and pq: "prefix q (replaceAll pat rep xs)" by auto
    from Cons.prems(4) have "hd rep \<notin> set q" by simp
    from Cons.IH[OF pq \<open>pat \<noteq> []\<close> \<open>rep \<noteq> []\<close> this]
    have ih: "prefix q xs" "\<forall>i<length q. \<not> prefix pat (drop i xs)" by auto
    have "\<forall>i<length (y # q). \<not> prefix pat (drop i s)"
    proof (intro allI impI)
      fix i assume "i < length (y # q)"
      then show "\<not> prefix pat (drop i s)"
        using np ih(2) Cons by (cases i) auto
    qed
    with ih(1) xy Cons show ?thesis by simp
  qed
qed

lemma replaceAll_no_occurrence:
  assumes "pat \<noteq> []" "rep \<noteq> []" "set rep \<inter> set pat = {}"
  shows "\<not> prefix pat (drop i (replaceAll pat rep s))"
  using assms
proof (induction pat rep s arbitrary: i rule: replaceAll.induct)
  case (1 pat rep)
  then show ?case by simp
next
  case (2 pat rep x xs)
  have hdp: "hd pat \<notin> set rep" and hdr: "hd rep \<notin> set pat"
    using "2.prems" by (auto simp: disjoint_iff)
  show ?case
  proof (cases "prefix pat (x # xs)")
    case True
    let ?t = "replaceAll pat rep (drop (length pat - 1) xs)"
    have eq: "replaceAll pat rep (x # xs) = rep @ ?t"
      using True "2.prems"(1) by simp
    have ih: "\<not> prefix pat (drop j ?t)" for j
      using "2.IH"(2)[OF "2.prems"(1) True "2.prems"] .
    show ?thesis
    proof (cases "i < length rep")
      case True
      then obtain y ys where d: "drop i rep = y # ys" and "y \<in> set rep"
        by (metis Cons_nth_drop_Suc nth_mem)
      with hdp "2.prems"(1) have "\<not> prefix pat (drop i (rep @ ?t))"
        using True by (cases pat) auto
      then show ?thesis unfolding eq .
    next
      case False
      then have "\<not> prefix pat (drop i (rep @ ?t))" using ih[of "i - length rep"] by simp
      then show ?thesis unfolding eq .
    qed
  next
    case False
    have eq: "replaceAll pat rep (x # xs) = x # replaceAll pat rep xs"
      using False "2.prems"(1) by simp
    show ?thesis
    proof (cases i)
      case 0
      show ?thesis
      proof
        assume "prefix pat (drop i (replaceAll pat rep (x # xs)))"
        with 0 have "prefix pat (replaceAll pat rep (x # xs))" by simp
        from replaceAll_prefix_back[OF "2.prems"(1,2) hdr this]
        show False using False by simp
      qed
    next
      case (Suc j)
      then have "\<not> prefix pat (drop i (x # replaceAll pat rep xs))"
        using "2.IH"(3)[OF "2.prems"(1) False "2.prems"] by simp
      then show ?thesis unfolding eq .
    qed
  qed
qed

lemma replaceAll_absent:
  assumes "pat \<noteq> []" "\<And>i. \<not> prefix pat (drop i s)"
  shows "replaceAll pat rep s = s"
  using assms
proof (induction s)
  case Nil
  then show ?case by simp
next
  case (Cons x xs)
  from Cons.prems(2)[of 0] have np: "\<not> prefix pat (x # xs)" by simp
  have "\<not> prefix pat (drop i xs)" for i using Cons.prems(2)[of "Suc i"] by simp
  with Cons.IH Cons.prems(1) have "replaceAll pat rep xs = xs" by blast
  with np Cons.prems(1) show ?case by simp
qed

lemma replaceAll_twice:
  assumes "pat \<noteq> []" "rep \<noteq> []" "set rep \<inter> set pat = {}"
  shows "replaceAll pat rep' (replaceAll pat rep s) = replaceAll pat rep s"
  using replaceAll_absent[OF assms(1)] replaceAll_no_occurrence[OF assms] by blast

lemma encodingFixes_split:
  "encodingFixes =
     take 3 encodingFixes @
     [([0xE2, 0x20AC, 0x22], [0x2013]), ([0xE2, 0x20AC, 0x22], [0x2014])] @
     drop 5 encodingFixes"
  by (simp add: encodingFixes_def)

lemma withoutEntry_encodingFixes:
  "withoutEntry 4 encodingFixes =
     take 3 encodingFixes @ [([0xE2, 0x20AC, 0x22], [0x2013])] @ drop 5 encodingFixes"
  by (simp add: withoutEntry_def encodingFixes_def)

text \<open>
  C8: the em-dash rule, the second of the two entries with the pattern
  \<^verbatim>\<open>U+00E2 U+20AC U+0022\<close> (index 4 of the table), never changes the text: on every
  input the whole table gives the result of the table without that entry, because the
  en-dash rule before it has already replaced every occurrence of the pattern.
\<close>

theorem C8_em_dash_rule_never_fires:
  "encodingFixes ! 4 = ([0xE2, 0x20AC, 0x22], [0x2014]) \<and>
   applyEncodingFixes encodingFixes xmlContent =
   applyEncodingFixes (withoutEntry 4 encodingFixes) xmlContent"
proof -
  let ?step = "\<lambda>fixedXmlContent (pattern :: jsstring, replacement :: jsstring).
                 replaceAll pattern replacement fixedXmlContent"
  let ?pat = "[0xE2, 0x20AC, 0x22] :: jsstring"
  let ?t = "foldl ?step xmlContent (take 3 encodingFixes)"
  have twice: "replaceAll ?pat [0x2014] (replaceAll ?pat [0x2013] ?t)
               = replaceAll ?pat [0x2013] ?t"
    by (rule replaceAll_twice) simp_all
  have "applyEncodingFixes encodingFixes xmlContent
        = foldl ?step (replaceAll ?pat [0x2014] (replaceAll ?pat [0x2013] ?t))
            (drop 5 encodingFixes)"
    unfolding applyEncodingFixes_def by (subst encodingFixes_split) simp
  also have "\<dots> = foldl ?step (replaceAll ?pat [0x2013] ?t) (drop 5 encodingFixes)"
    by (simp only: twice)
  also have "\<dots> = applyEncodingFixes (withoutEntry 4 encodingFixes) xmlContent"
    unfolding applyEncodingFixes_def withoutEntry_encodingFixes by simp
  finally have "applyEncodingFixes encodingFixes xmlContent =
    applyEncodingFixes (withoutEntry 4 encodingFixes) xmlContent" .
  moreover have "encodingFixes ! 4 = ([0xE2, 0x20AC, 0x22], [0x2014])"
    by (simp add: encodingFixes_def)
  ultimately show ?thesis by simp
qed
section \<open>Properties of the queries\<close>

lemma set_insertBy: "set (insertBy cmp x ys) = insert x (set ys)"
  by (induction ys) auto

lemma set_jsSort: "set (jsSort cmp xs) = set xs"
  unfolding jsSort_def by (induction xs) (auto simp: set_insertBy)

lemma in_slice0: "x \<in> set (slice0 xs n) \<Longrightarrow> x \<in> set xs"
  by (cases n) (auto dest: in_set_takeD split: if_splits)

lemma map_slice0: "map f (slice0 xs n) = slice0 (map f xs) n"
  by (cases n) (auto simp: take_map)

lemma passesFilters_coordinates:
  "passesFilters filters s \<Longrightarrow> truthyOpt (latitude s) \<and> truthyOpt (longitude s)"
  unfolding passesFilters_def by (auto split: if_splits)

lemma truthyOpt_Some: "truthyOpt a \<Longrightarrow> a \<noteq> None"
  by (cases a) auto

lemma filterStationsForMap_passes:
  assumes "r \<in> set (filterStationsForMap stations filters)"
  shows "passesFilters filters (station r)"
proof -
  let ?f0 = "map (\<lambda>s. \<lparr>station = s, distance = None\<rparr>) (filter (passesFilters filters) stations)"
  have p0: "\<forall>r \<in> set ?f0. passesFilters filters (station r)" by auto
  define f1 where "f1 = (if hasUserLocation filters
             then map (\<lambda>r. r\<lparr>distance := Some (distanceTo filters (station r))\<rparr>) ?f0
             else ?f0)"
  have p1: "\<forall>r \<in> set f1. passesFilters filters (station r)"
    unfolding f1_def by auto
  define f2 where "f2 = (if hasUserLocation filters \<and> maxDistance filters \<noteq> None
             then filter (\<lambda>r. distance r \<noteq> None \<and>
                               num_le (toNumber (distance r)) (toNumber (maxDistance filters)))
                    f1
             else f1)"
  have p2: "\<forall>r \<in> set f2. passesFilters filters (station r)"
    unfolding f2_def using p1 by auto
  have "set (filterStationsForMap stations filters) \<subseteq> set f2"
    unfolding filterStationsForMap_def Let_def f2_def[symmetric] f1_def[symmetric]
    by (auto simp: set_jsSort split: if_splits dest!: in_slice0)
  with assms p2 show ?thesis by blast
qed

lemma getTopNStations_passes:
  assumes "r \<in> set (getTopNStations stations filters)"
  shows "passesFilters filters (station r)"
proof -
  define f0 :: "TopNStation list" where "f0 = map (\<lambda>s. \<lparr>station = s,
                        distance = (if hasUserLocation filters
                                    then Some (distanceTo filters s) else None),
                        selectedFuelPrice = selectFuelPrice filters s\<rparr>)
                (filter (passesFilters filters) stations)"
  have p0: "\<forall>r \<in> set f0. passesFilters filters (station r)" unfolding f0_def by auto
  define f1 where "f1 = (if maxDistance filters \<noteq> None \<and> hasUserLocation filters
               then filter (\<lambda>r. distance r \<noteq> None \<and>
                                 num_le (toNumber (distance r)) (toNumber (maxDistance filters)))
                      f0
               else f0)"
  have p1: "\<forall>r \<in> set f1. passesFilters filters (station r)"
    unfolding f1_def using p0 by auto
  have "set (getTopNStations stations filters) \<subseteq> set f1"
    unfolding getTopNStations_def Let_def f1_def[symmetric] f0_def[symmetric]
    by (auto simp: set_jsSort split: if_splits dest!: in_slice0)
  with assms p1 show ?thesis by blast
qed

text \<open>
  C9: every station that the map filter or the Top-N query returns has a latitude and a
  longitude, whatever the filters are: a station without one of them is dropped even
  when no reference point and no distance limit is given.
\<close>

theorem C9_results_have_coordinates:
  "(\<forall>r \<in> set (filterStationsForMap stations filters).
      latitude (station r) \<noteq> None \<and> longitude (station r) \<noteq> None) \<and>
   (\<forall>r \<in> set (getTopNStations stations filters).
      latitude (station r) \<noteq> None \<and> longitude (station r) \<noteq> None)"
  using filterStationsForMap_passes getTopNStations_passes passesFilters_coordinates
    truthyOpt_Some by blast


text \<open>C9 at a sample: station A is returned, and it has both coordinates.\<close>

theorem C9_results_have_coordinates_witness:
  "\<lparr>station = stationA, distance = None\<rparr>
     \<in> set (filterStationsForMap [stationA, stationB] (topNByPriceAll 2)) \<and>
   \<lparr>station = stationA, distance = None, selectedFuelPrice = Some (Num 2)\<rparr>
     \<in> set (getTopNStations [stationA, stationB] (topNByPriceAll 2)) \<and>
   latitude stationA \<noteq> None \<and> longitude stationA \<noteq> None"
proof -
  have mem: "\<lparr>station = stationA, distance = None\<rparr>
     \<in> set (filterStationsForMap [stationA, stationB] (topNByPriceAll 2))"
    by (simp add: filterStationsForMap_def passesFilters_def fuelTypeSelected_def
        hasUserLocation_def truncToInt_def Let_def stationA_def stationB_def sampleStation_def
        sampleFuel_def topNByPriceAll_def str_def)
  have mem': "\<lparr>station = stationA, distance = None, selectedFuelPrice = Some (Num 2)\<rparr>
     \<in> set (getTopNStations [stationA, stationB] (topNByPriceAll 2))"
    by (simp add: getTopNStations_def passesFilters_def fuelTypeSelected_def
        hasUserLocation_def selectFuelPrice_def cheapestPrice_def jsSort_def truncToInt_def
        Let_def stationA_def stationB_def sampleStation_def sampleFuel_def topNByPriceAll_def
        str_def)
  from C9_results_have_coordinates[of "[stationA, stationB]" "topNByPriceAll 2",
      THEN conjunct1, rule_format, OF mem]
    C9_results_have_coordinates[of "[stationA, stationB]" "topNByPriceAll 2",
      THEN conjunct2, rule_format, OF mem'] mem mem'
  show ?thesis by simp
qed

subsection \<open>Top-N by price with no fuel type selected\<close>

lemma passesFilters_all:
  "\<not> fuelTypeSelected filters \<Longrightarrow>
   passesFilters filters s = (truthyOpt (latitude s) \<and> truthyOpt (longitude s))"
  unfolding passesFilters_def by auto

lemma not_selected_all: "fuelType filters = str ''all'' \<Longrightarrow> \<not> fuelTypeSelected filters"
  by (simp add: fuelTypeSelected_def)

lemma map_station_annotate:
  "map station (filter P (map (\<lambda>s. \<lparr>station = s, distance = d s, \<dots> = e s\<rparr>) xs))
   = filter (\<lambda>s. P \<lparr>station = s, distance = d s, \<dots> = e s\<rparr>) xs"
  by (induction xs) auto

lemma filterStationsForMap_all:
  assumes "topN filters = Some n" "topNOrderBy filters = price_order"
    "fuelType filters = str ''all''"
  shows "map station (filterStationsForMap stations filters)
         = slice0 (filter (withinReach filters) stations) n"
proof -
  note ns = not_selected_all[OF assms(3)]
  have "map station (filterStationsForMap stations filters) =
        slice0 (map station
          (if hasUserLocation filters \<and> maxDistance filters \<noteq> None
           then filter (\<lambda>r. distance r \<noteq> None \<and>
                             num_le (toNumber (distance r)) (toNumber (maxDistance filters)))
                  (map (\<lambda>s. \<lparr>station = s, distance = Some (distanceTo filters s)\<rparr>)
                     (filter (passesFilters filters) stations))
           else map (\<lambda>s. \<lparr>station = s,
                           distance = (if hasUserLocation filters
                                       then Some (distanceTo filters s) else None)\<rparr>)
                  (filter (passesFilters filters) stations))) n"
    unfolding filterStationsForMap_def Let_def using assms(1,2) ns
    by (auto simp: map_slice0 comp_def)
  also have "\<dots> = slice0 (filter (withinReach filters) stations) n"
    using ns by (auto simp: map_station_annotate comp_def withinReach_def passesFilters_all
        intro!: arg_cong2[where f=slice0] filter_cong)
  finally show ?thesis .
qed

lemma getTopNStations_all:
  assumes "topN filters = Some n" "topNOrderBy filters = price_order"
    "fuelType filters = str ''all''"
  shows "map station (getTopNStations stations filters)
         = slice0 (filter (withinReach filters) stations) n"
proof -
  note ns = not_selected_all[OF assms(3)]
  have "map station (getTopNStations stations filters) =
        slice0 (map station
          (if maxDistance filters \<noteq> None \<and> hasUserLocation filters
           then filter (\<lambda>r. distance r \<noteq> None \<and>
                             num_le (toNumber (distance r)) (toNumber (maxDistance filters)))
                  (map (\<lambda>s. \<lparr>station = s,
                        distance = (if hasUserLocation filters
                                    then Some (distanceTo filters s) else None),
                        selectedFuelPrice = selectFuelPrice filters s\<rparr>)
                     (filter (passesFilters filters) stations))
           else map (\<lambda>s. \<lparr>station = s,
                        distance = (if hasUserLocation filters
                                    then Some (distanceTo filters s) else None),
                        selectedFuelPrice = selectFuelPrice filters s\<rparr>)
                  (filter (passesFilters filters) stations))) n"
    unfolding getTopNStations_def Let_def using assms(1,2) ns
    by (auto simp: map_slice0)
  also have "\<dots> = slice0 (filter (withinReach filters) stations) n"
    using ns by (auto simp: map_station_annotate comp_def withinReach_def passesFilters_all
        intro!: arg_cong2[where f=slice0] filter_cong)
  finally show ?thesis .
qed

lemma insertBy_not_Nil: "insertBy cmp x ys \<noteq> []"
  by (cases ys) auto

lemma hd_insertBy:
  "hd (insertBy cmp x ys) =
     (if ys \<noteq> [] \<and> num_less (Num 0) (cmp x (hd ys)) then hd ys else x)"
  by (cases ys) auto

lemma jsSort_Nil_iff: "jsSort cmp xs = [] \<longleftrightarrow> xs = []"
  unfolding jsSort_def by (cases xs) (auto simp: insertBy_not_Nil)

lemma sub_positive: "a \<noteq> NaN \<Longrightarrow> b \<noteq> NaN \<Longrightarrow> num_less (Num 0) (num_sub a b) = num_less b a"
  by (cases a; cases b) auto

lemma not_less_trans:
  "a \<noteq> NaN \<Longrightarrow> b \<noteq> NaN \<Longrightarrow> c \<noteq> NaN \<Longrightarrow>
   \<not> num_less b a \<Longrightarrow> \<not> num_less c b \<Longrightarrow> \<not> num_less c a"
  by (cases a; cases b; cases c) auto

lemma less_not_less: "num_less a b \<Longrightarrow> \<not> num_less b a"
  by (cases a; cases b) auto

lemma hd_jsSort_least:
  assumes "\<forall>x \<in> set xs. key x \<noteq> NaN" "xs \<noteq> []"
  shows "hd (jsSort (\<lambda>a b. num_sub (key a) (key b)) xs) \<in> set xs \<and>
         (\<forall>x \<in> set xs. \<not> num_less (key x) (key (hd (jsSort (\<lambda>a b. num_sub (key a) (key b)) xs))))"
  using assms
proof (induction xs)
  case Nil
  then show ?case by simp
next
  case (Cons x xs)
  let ?cmp = "\<lambda>a b. num_sub (key a) (key b)"
  show ?case
  proof (cases "xs = []")
    case True
    then show ?thesis by (cases "key x") (auto simp: jsSort_def)
  next
    case False
    let ?m = "hd (jsSort ?cmp xs)"
    from Cons.IH Cons.prems False have m_in: "?m \<in> set xs"
      and m_least: "\<forall>y \<in> set xs. \<not> num_less (key y) (key ?m)" by auto
    have ne: "jsSort ?cmp xs \<noteq> []" using False by (simp add: jsSort_Nil_iff)
    have kx: "key x \<noteq> NaN" and km: "key ?m \<noteq> NaN" using Cons.prems m_in by auto
    have hd_eq: "hd (jsSort ?cmp (x # xs)) = (if num_less (key ?m) (key x) then ?m else x)"
      using ne kx km by (simp add: jsSort_def hd_insertBy sub_positive)
    show ?thesis
    proof (cases "num_less (key ?m) (key x)")
      case True
      with hd_eq have h: "hd (jsSort ?cmp (x # xs)) = ?m" by simp
      from True have "\<not> num_less (key x) (key ?m)" by (rule less_not_less)
      with m_least m_in show ?thesis unfolding h by auto
    next
      case False
      with hd_eq have h: "hd (jsSort ?cmp (x # xs)) = x" by simp
      have "\<not> num_less (key y) (key x)" if "y \<in> set xs" for y
      proof -
        from that Cons.prems have ky: "key y \<noteq> NaN" by auto
        from m_least that have "\<not> num_less (key y) (key ?m)" by blast
        from not_less_trans[OF kx km ky False this] show ?thesis .
      qed
      moreover have "\<not> num_less (key x) (key x)" by (cases "key x") auto
      ultimately show ?thesis unfolding h by auto
    qed
  qed
qed

lemma truthy_not_NaN: "truthyOpt a \<Longrightarrow> toNumber a \<noteq> NaN"
  by (cases a) auto

lemma cheapestPrice_None:
  "cheapestPrice fs = None \<longleftrightarrow> (\<forall>f \<in> set fs. \<not> truthyOpt (price f))"
proof -
  let ?L = "filter (\<lambda>f. truthyOpt (price f)) fs"
  let ?S = "jsSort (\<lambda>a b. num_sub (toNumber (price a)) (toNumber (price b))) ?L"
  show ?thesis
  proof (cases "?L = []")
    case True
    then have "?S = []" by (simp add: jsSort_Nil_iff)
    then have "cheapestPrice fs = None" by (simp add: cheapestPrice_def)
    moreover from True have "\<forall>f \<in> set fs. \<not> truthyOpt (price f)"
      by (simp add: filter_empty_conv)
    ultimately show ?thesis by simp
  next
    case False
    then have sne: "?S \<noteq> []" by (simp add: jsSort_Nil_iff)
    have "\<forall>x \<in> set ?L. toNumber (price x) \<noteq> NaN" by (auto dest: truthy_not_NaN)
    from hd_jsSort_least[OF this False] have "hd ?S \<in> set ?L" by blast
    then have "truthyOpt (price (hd ?S))" by simp
    then have "price (hd ?S) \<noteq> None" by (cases "price (hd ?S)") auto
    moreover from sne have "cheapestPrice fs = price (hd ?S)"
      by (cases ?S) (auto simp: cheapestPrice_def)
    moreover from False have "\<exists>f \<in> set fs. truthyOpt (price f)"
      by (auto simp: filter_empty_conv)
    ultimately show ?thesis by auto
  qed
qed

lemma cheapestPrice_Some:
  assumes "cheapestPrice fs = Some p"
  shows "truthy p \<and> (\<exists>f \<in> set fs. price f = Some p) \<and>
         (\<forall>f \<in> set fs. truthyOpt (price f) \<longrightarrow> \<not> num_less (toNumber (price f)) p)"
proof -
  let ?L = "filter (\<lambda>f. truthyOpt (price f)) fs"
  let ?S = "jsSort (\<lambda>a b. num_sub (toNumber (price a)) (toNumber (price b))) ?L"
  from assms have sne: "?S \<noteq> []" by (auto simp: cheapestPrice_def)
  then have lne: "?L \<noteq> []" by (simp add: jsSort_Nil_iff)
  from sne assms have hp: "price (hd ?S) = Some p"
    by (cases ?S) (auto simp: cheapestPrice_def)
  have "\<forall>x \<in> set ?L. toNumber (price x) \<noteq> NaN" by (auto dest: truthy_not_NaN)
  from hd_jsSort_least[OF this lne]
  have in_L: "hd ?S \<in> set ?L"
    and least: "\<forall>x \<in> set ?L. \<not> num_less (toNumber (price x)) (toNumber (price (hd ?S)))"
    by blast+
  from in_L hp have "truthy p" by auto
  moreover from in_L hp have "\<exists>f \<in> set fs. price f = Some p" by auto
  moreover from least hp
  have "\<forall>f \<in> set fs. truthyOpt (price f) \<longrightarrow> \<not> num_less (toNumber (price f)) p" by auto
  ultimately show ?thesis by blast
qed

lemma getTopNStations_selected:
  assumes "fuelType filters = str ''all''" "r \<in> set (getTopNStations stations filters)"
  shows "selectedFuelPrice r = cheapestPrice (fuels (station r))"
proof -
  note ns = not_selected_all[OF assms(1)]
  have sel: "selectFuelPrice filters s = cheapestPrice (fuels s)" for s
    using ns assms(1) by (cases "fuels s") (auto simp: selectFuelPrice_def cheapestPrice_def jsSort_def)
  have "\<forall>r \<in> set (getTopNStations stations filters).
          selectedFuelPrice r = selectFuelPrice filters (station r)"
    unfolding getTopNStations_def Let_def
    by (auto simp: set_jsSort split: if_splits dest!: in_slice0)
  with assms(2) sel show ?thesis by simp
qed

text \<open>
  C1, as the code has it: with \<^verbatim>\<open>topN\<close> set, \<^verbatim>\<open>orderBy = price\<close> and
  \<^verbatim>\<open>fuelType = 'all'\<close> neither query sorts. Both return the first \<open>n\<close> of the stations
  that have both coordinates (and lie within the distance limit, if a reference point and
  a limit are given), in input order. \<^verbatim>\<open>getTopNStations\<close> annotates each of them with its
  cheapest priced fuel as \<^verbatim>\<open>selectedFuelPrice\<close>, which is not a sort key.
\<close>

theorem C1_all_fuels_keeps_input_order:
  assumes "topN filters = Some n" "topNOrderBy filters = price_order"
    "fuelType filters = str ''all''"
  shows "map station (filterStationsForMap stations filters)
           = slice0 (filter (withinReach filters) stations) n \<and>
         map station (getTopNStations stations filters)
           = slice0 (filter (withinReach filters) stations) n \<and>
         (\<forall>r \<in> set (getTopNStations stations filters).
            (selectedFuelPrice r = None \<longleftrightarrow>
               (\<forall>f \<in> set (fuels (station r)). \<not> truthyOpt (price f))) \<and>
            (\<forall>p. selectedFuelPrice r = Some p \<longrightarrow>
               truthy p \<and> (\<exists>f \<in> set (fuels (station r)). price f = Some p) \<and>
               (\<forall>f \<in> set (fuels (station r)).
                  truthyOpt (price f) \<longrightarrow> \<not> num_less (toNumber (price f)) p)))"
proof -
  have "(selectedFuelPrice r = None \<longleftrightarrow>
               (\<forall>f \<in> set (fuels (station r)). \<not> truthyOpt (price f))) \<and>
            (\<forall>p. selectedFuelPrice r = Some p \<longrightarrow>
               truthy p \<and> (\<exists>f \<in> set (fuels (station r)). price f = Some p) \<and>
               (\<forall>f \<in> set (fuels (station r)).
                  truthyOpt (price f) \<longrightarrow> \<not> num_less (toNumber (price f)) p))"
    if "r \<in> set (getTopNStations stations filters)" for r
    using getTopNStations_selected[OF assms(3) that] cheapestPrice_None cheapestPrice_Some
    by metis
  with filterStationsForMap_all[OF assms] getTopNStations_all[OF assms] show ?thesis
    by blast
qed

lemmas sample_defs = stationA_def stationB_def sampleStation_def sampleFuel_def
  topNByPriceAll_def str_def

lemma eval_getTopN:
  "map station (getTopNStations [stationA, stationB] (topNByPriceAll 1)) = [stationA]"
  by (simp add: getTopNStations_def passesFilters_def fuelTypeSelected_def hasUserLocation_def
      selectFuelPrice_def cheapestPrice_def jsSort_def truncToInt_def Let_def sample_defs)

lemma eval_filterMap:
  "map station (filterStationsForMap [stationA, stationB] (topNByPriceAll 1)) = [stationA]"
  by (simp add: filterStationsForMap_def passesFilters_def fuelTypeSelected_def hasUserLocation_def
      truncToInt_def Let_def sample_defs)

lemma eval_rank:
  "rankByCheapestPrice [stationA, stationB] (Num 1) = [stationB]"
  by (simp add: rankByCheapestPrice_def cheapestPrice_def jsSort_def orNumber_def truncToInt_def Let_def sample_defs)

text \<open>
  C1 as stated fails: of two stations with coordinates, A (cheapest fuel 2) before B
  (cheapest fuel 1), the Top-1 by price with \<^verbatim>\<open>fuelType = 'all'\<close> is A in both queries,
  where the ranking by cheapest price gives B.
\<close>

theorem C1_counterexample:
  "map station (getTopNStations [stationA, stationB] (topNByPriceAll 1)) = [stationA] \<and>
   map station (filterStationsForMap [stationA, stationB] (topNByPriceAll 1)) = [stationA] \<and>
   rankByCheapestPrice [stationA, stationB] (Num 1) = [stationB] \<and>
   stationA \<noteq> stationB"
  using eval_getTopN eval_filterMap eval_rank by (simp add: sample_defs)

text \<open>
  C1 at a sample: the Top-2 of A and B is A, B, in input order.
\<close>

theorem C1_all_fuels_keeps_input_order_witness:
  "topN (topNByPriceAll 2) = Some (Num 2) \<and>
   topNOrderBy (topNByPriceAll 2) = price_order \<and>
   fuelType (topNByPriceAll 2) = str ''all'' \<and>
   map station (filterStationsForMap [stationA, stationB] (topNByPriceAll 2))
     = [stationA, stationB] \<and>
   map station (getTopNStations [stationA, stationB] (topNByPriceAll 2))
     = [stationA, stationB] \<and>
   \<lparr>station = stationB, distance = None, selectedFuelPrice = Some (Num 1)\<rparr>
     \<in> set (getTopNStations [stationA, stationB] (topNByPriceAll 2)) \<and>
   truthy (Num 1) \<and> \<not> num_less (Num 1.5) (Num 1)"
proof -
  have a: "topN (topNByPriceAll 2) = Some (Num 2)"
    and b: "topNOrderBy (topNByPriceAll 2) = price_order"
    and c: "fuelType (topNByPriceAll 2) = str ''all''"
    by (simp_all add: topNByPriceAll_def)
  note inst = C1_all_fuels_keeps_input_order[OF a b c, of "[stationA, stationB]"]
  have s: "slice0 (filter (withinReach (topNByPriceAll 2)) [stationA, stationB]) (Num 2)
        = [stationA, stationB]"
    by (simp add: withinReach_def hasUserLocation_def truncToInt_def Let_def sample_defs)
  have mem: "\<lparr>station = stationB, distance = None, selectedFuelPrice = Some (Num 1)\<rparr>
     \<in> set (getTopNStations [stationA, stationB] (topNByPriceAll 2))"
    by (simp add: getTopNStations_def passesFilters_def fuelTypeSelected_def
        hasUserLocation_def selectFuelPrice_def cheapestPrice_def jsSort_def truncToInt_def
        Let_def sample_defs)
  from inst[THEN conjunct2, THEN conjunct2, THEN bspec, OF mem]
  have "truthy (Num 1) \<and>
        (\<forall>f \<in> set (fuels stationB). truthyOpt (price f) \<longrightarrow> \<not> num_less (toNumber (price f)) (Num 1))"
    by simp
  then have "truthy (Num 1) \<and> \<not> num_less (Num 1.5) (Num 1)"
    by (simp add: sample_defs)
  with inst[THEN conjunct1] inst[THEN conjunct2, THEN conjunct1] s a b c mem
  show ?thesis by simp
qed

subsection \<open>Opening hours\<close>

lemma parseInt_cases: "parseInt s = NaN \<or> (\<exists>x. parseInt s = Num x)"
  by (auto simp: parseInt_def Let_def split: prod.splits)

lemma timeOf_cases: "timeOf t = NaN \<or> (\<exists>x. timeOf t = Num x)"
  using parseInt_cases by (simp add: timeOf_def)

lemma inTimeRange_Num:
  "timeOf (range_open r) = Num x \<Longrightarrow> timeOf (range_close r) = Num y \<Longrightarrow>
   inTimeRange (Num t) r = (if y < x then x \<le> t \<or> t \<le> y else x \<le> t \<and> t \<le> y)"
  by (auto simp: inTimeRange_def)

lemma inTimeRange_NaN:
  "timeOf (range_open r) = NaN \<or> timeOf (range_close r) = NaN \<Longrightarrow> \<not> inTimeRange (Num t) r"
  by (cases "timeOf (range_open r)"; cases "timeOf (range_close r)")
     (auto simp: inTimeRange_def)

lemma inTimeRange_iff:
  "inTimeRange (Num t) r \<longleftrightarrow>
     (\<exists>opening closing. timeOf (range_open r) = Num opening \<and>
        timeOf (range_close r) = Num closing \<and>
        (if closing < opening then opening \<le> t \<or> t \<le> closing
         else opening \<le> t \<and> t \<le> closing))"
proof (cases "timeOf (range_open r) = NaN \<or> timeOf (range_close r) = NaN")
  case True
  then have "\<not> inTimeRange (Num t) r" by (rule inTimeRange_NaN)
  moreover from True have "\<not> (\<exists>opening closing. timeOf (range_open r) = Num opening \<and>
        timeOf (range_close r) = Num closing \<and>
        (if closing < opening then opening \<le> t \<or> t \<le> closing
         else opening \<le> t \<and> t \<le> closing))" by auto
  ultimately show ?thesis by blast
next
  case False
  with timeOf_cases[of "range_open r"] timeOf_cases[of "range_close r"]
  obtain x y where x: "timeOf (range_open r) = Num x" and y: "timeOf (range_close r) = Num y"
    by blast
  show ?thesis unfolding inTimeRange_Num[OF x y] x y by simp
qed

lemma timeOf_2200: "timeOf (str ''22:00'') = Num 2200"
  by (simp add: timeOf_def parseInt_def readSign_def trimStart_def isWhiteSpace_def str_def
      digitsValue_def digitValue_def)

lemma timeOf_0600: "timeOf (str ''06:00'') = Num 600"
  by (simp add: timeOf_def parseInt_def readSign_def trimStart_def isWhiteSpace_def str_def
      digitsValue_def digitValue_def)

text \<open>
  C5: a station without opening hours is open at any time. For a day that is not closed
  and has time ranges, the station is open iff the time \<open>h * 100 + m\<close> lies in one of
  them: for a range whose close is before its open (overnight) iff the time is at or after
  the open or at or before the close, otherwise iff it is between the two. With the one
  range 22:00 to 06:00 the station is open at 23:00 and closed at 10:00.
\<close>

theorem C5_isStationOpen:
  "(openingHours s = None \<longrightarrow> isStationOpen s day h m) \<and>
   (\<forall>oh ds hs.
      openingHours s = Some oh \<and> oh day = Some ds \<and> ds_closed ds \<noteq> Some True \<and>
      ds_hours ds = Some hs \<and> hs \<noteq> [] \<longrightarrow>
      isStationOpen s day h m =
        (\<exists>r \<in> set hs. \<exists>opening closing.
           timeOf (range_open r) = Num opening \<and> timeOf (range_close r) = Num closing \<and>
           (if closing < opening
            then opening \<le> real (h * 100 + m) \<or> real (h * 100 + m) \<le> closing
            else opening \<le> real (h * 100 + m) \<and> real (h * 100 + m) \<le> closing))) \<and>
   (\<forall>oh c.
      openingHours s = Some oh \<and> c \<noteq> Some True \<and>
      oh day = Some \<lparr>ds_closed = c,
                     ds_hours = Some [\<lparr>range_open = str ''22:00'', range_close = str ''06:00''\<rparr>]\<rparr>
      \<longrightarrow> isStationOpen s day 23 0 \<and> \<not> isStationOpen s day 10 0)"
proof (intro conjI allI impI)
  assume "openingHours s = None"
  then show "isStationOpen s day h m" by (simp add: isStationOpen_def)
next
  fix oh ds hs
  assume a: "openingHours s = Some oh \<and> oh day = Some ds \<and> ds_closed ds \<noteq> Some True \<and>
      ds_hours ds = Some hs \<and> hs \<noteq> []"
  then have "isStationOpen s day h m = list_ex (inTimeRange (Num (real (h * 100 + m)))) hs"
    by (simp add: isStationOpen_def)
  then show "isStationOpen s day h m =
        (\<exists>r \<in> set hs. \<exists>opening closing.
           timeOf (range_open r) = Num opening \<and> timeOf (range_close r) = Num closing \<and>
           (if closing < opening
            then opening \<le> real (h * 100 + m) \<or> real (h * 100 + m) \<le> closing
            else opening \<le> real (h * 100 + m) \<and> real (h * 100 + m) \<le> closing))"
    unfolding list_ex_iff inTimeRange_iff by simp
next
  fix oh c
  assume a: "openingHours s = Some oh \<and> c \<noteq> Some True \<and>
      oh day = Some \<lparr>ds_closed = c,
                     ds_hours = Some [\<lparr>range_open = str ''22:00'', range_close = str ''06:00''\<rparr>]\<rparr>"
  then show "isStationOpen s day 23 0"
    by (simp add: isStationOpen_def inTimeRange_def timeOf_2200 timeOf_0600)
next
  fix oh c
  assume a: "openingHours s = Some oh \<and> c \<noteq> Some True \<and>
      oh day = Some \<lparr>ds_closed = c,
                     ds_hours = Some [\<lparr>range_open = str ''22:00'', range_close = str ''06:00''\<rparr>]\<rparr>"
  then show "\<not> isStationOpen s day 10 0"
    by (simp add: isStationOpen_def inTimeRange_def timeOf_2200 timeOf_0600)
qed

text \<open>
  C5 at a sample: the night station on a Monday, and station A, which has no opening
  hours.
\<close>

theorem C5_isStationOpen_witness:
  "openingHours nightStation = Some nightSchedule \<and>
   isStationOpen nightStation monday 23 0 \<and> \<not> isStationOpen nightStation monday 10 0 \<and>
   isStationOpen nightStation monday 5 30 \<and>
   openingHours stationA = None \<and> isStationOpen stationA monday 10 0"
proof -
  let ?r = "\<lparr>range_open = str ''22:00'', range_close = str ''06:00''\<rparr>"
  let ?ds = "\<lparr>ds_closed = Some False, ds_hours = Some [?r]\<rparr>"
  have n: "openingHours nightStation = Some nightSchedule"
    and a: "openingHours stationA = None"
    by (simp_all add: nightStation_def stationA_def sampleStation_def)
  have d: "nightSchedule monday = Some ?ds"
    by (simp add: nightSchedule_def)
  have "openingHours nightStation = Some nightSchedule \<and> Some False \<noteq> Some True \<and>
        nightSchedule monday = Some ?ds"
    using n d by simp
  from C5_isStationOpen[of nightStation monday 0 0, THEN conjunct2, THEN conjunct2,
      rule_format, OF this]
  have night: "isStationOpen nightStation monday 23 0 \<and> \<not> isStationOpen nightStation monday 10 0" .
  have "openingHours nightStation = Some nightSchedule \<and> nightSchedule monday = Some ?ds \<and>
        ds_closed ?ds \<noteq> Some True \<and> ds_hours ?ds = Some [?r] \<and> [?r] \<noteq> []"
    using n d by simp
  from C5_isStationOpen[of nightStation monday 5 30, THEN conjunct2, THEN conjunct1,
      rule_format, OF this]
  have early: "isStationOpen nightStation monday 5 30"
    by (simp add: timeOf_2200 timeOf_0600)
  from C5_isStationOpen[of stationA monday 10 0, THEN conjunct1, rule_format, OF a]
  have "isStationOpen stationA monday 10 0" .
  with night early show ?thesis using n a by simp
qed

section \<open>Properties of parseServices\<close>

lemma splitFrom_set:
  "p \<in> set (splitFrom sep cur s) \<Longrightarrow> set p \<subseteq> set cur \<union> set s"
proof (induction sep cur s rule: splitFrom.induct)
  case (1 sep cur)
  then show ?case by simp
next
  case (2 sep cur x xs)
  show ?case
  proof (cases "sep \<noteq> [] \<and> prefix sep (x # xs)")
    case True
    with "2.prems" have "p = cur \<or> p \<in> set (splitFrom sep [] (drop (length sep - 1) xs))"
      by simp
    then show ?thesis
    proof
      assume "p = cur" then show ?thesis by auto
    next
      assume "p \<in> set (splitFrom sep [] (drop (length sep - 1) xs))"
      from "2.IH"(1)[OF True this] have "set p \<subseteq> set (drop (length sep - 1) xs)" by simp
      also have "\<dots> \<subseteq> set xs" by (rule set_drop_subset)
      finally show ?thesis by auto
    qed
  next
    case False
    with "2.prems" have "p \<in> set (splitFrom sep (cur @ [x]) xs)" by auto
    from "2.IH"(2)[OF False this] show ?thesis by auto
  qed
qed

lemma splitFrom_single:
  "p \<in> set (splitFrom [c] cur s) \<Longrightarrow> c \<notin> set cur \<Longrightarrow> c \<notin> set p"
proof (induction "[c]" cur s rule: splitFrom.induct)
  case (1 cur)
  then show ?case by simp
next
  case (2 cur x xs)
  show ?case
  proof (cases "x = c")
    case True
    with "2.prems" have "p = cur \<or> p \<in> set (splitFrom [c] [] xs)" by simp
    then show ?thesis
    proof
      assume "p = cur" with "2.prems" show ?thesis by simp
    next
      assume "p \<in> set (splitFrom [c] [] xs)"
      with "2.hyps"(1) True show ?thesis by simp
    qed
  next
    case False
    with "2.prems" have "p \<in> set (splitFrom [c] (cur @ [x]) xs)" by simp
    with "2.hyps"(2) False "2.prems"(2) show ?thesis by simp
  qed
qed

lemma jsSplit_set: "p \<in> set (jsSplit s sep) \<Longrightarrow> set p \<subseteq> set s"
  using splitFrom_set[of p sep "[]" s] by (cases "sep = []") (auto simp: jsSplit_def)

lemma splitServices_keeps: "freeOf c svs \<Longrightarrow> freeOf c (splitServices svs sep)"
  unfolding freeOf_def splitServices_def
  by (auto split: if_splits dest!: jsSplit_set)

lemma splitServices_single: "freeOf c (splitServices svs [c])"
proof -
  have "c \<notin> set p" if "s \<in> set svs" "p \<in> set (jsSplit s [c])" for s p
    using that splitFrom_single[of p c "[]" s] by (simp add: jsSplit_def)
  moreover have "c \<notin> set s" if "\<not> jsIncludes s [c]" for s
    using that by (auto simp: jsIncludes_def sublist_def dest!: split_list)
  ultimately show ?thesis
    unfolding freeOf_def splitServices_def by (auto split: if_splits)
qed

lemma separators_free:
  "freeOf 0x2F (foldl splitServices ss separators)"
  "freeOf 0x2D (foldl splitServices ss separators)"
  "freeOf 0x2C (foldl splitServices ss separators)"
  "freeOf 0x3B (foldl splitServices ss separators)"
proof -
  have sl: "str ''/'' = [0x2F]" and da: "str ''-'' = [0x2D]"
    and co: "str '','' = [0x2C]" and se: "str '';'' = [0x3B]"
    by (simp_all add: str_def)
  show "freeOf 0x2F (foldl splitServices ss separators)"
    unfolding separators_def foldl_Cons foldl_Nil sl da co se
    by (intro splitServices_keeps splitServices_single)
  show "freeOf 0x2D (foldl splitServices ss separators)"
    unfolding separators_def foldl_Cons foldl_Nil sl da co se
    by (intro splitServices_keeps splitServices_single)
  show "freeOf 0x2C (foldl splitServices ss separators)"
    unfolding separators_def foldl_Cons foldl_Nil sl da co se
    by (intro splitServices_keeps splitServices_single)
  show "freeOf 0x3B (foldl splitServices ss separators)"
    unfolding separators_def foldl_Cons foldl_Nil sl da co se
    by (intro splitServices_single)
qed

lemma set_jsTrim: "set (jsTrim s) \<subseteq> set s"
proof -
  have "set (jsTrim s) \<subseteq> set (dropWhile isWhiteSpace s)"
    unfolding jsTrim_def trimEnd_def trimStart_def
    using set_dropWhileD by fastforce
  also have "\<dots> \<subseteq> set s" using set_dropWhileD by fastforce
  finally show ?thesis .
qed

lemma trimEnd_prefix: "prefix (trimEnd s) s"
proof -
  have "rev s = takeWhile isWhiteSpace (rev s) @ dropWhile isWhiteSpace (rev s)"
    by simp
  then have "rev (rev s) = rev (takeWhile isWhiteSpace (rev s) @ dropWhile isWhiteSpace (rev s))"
    by (rule arg_cong)
  then have "s = trimEnd s @ rev (takeWhile isWhiteSpace (rev s))"
    unfolding trimEnd_def rev_append rev_rev_ident .
  then show ?thesis by (rule prefixI)
qed

lemma trimEnd_last: "trimEnd s \<noteq> [] \<Longrightarrow> \<not> isWhiteSpace (last (trimEnd s))"
  unfolding trimEnd_def by (simp add: last_rev hd_dropWhile)

lemma jsTrim_last: "jsTrim s \<noteq> [] \<Longrightarrow> \<not> isWhiteSpace (last (jsTrim s))"
  unfolding jsTrim_def by (rule trimEnd_last)

lemma jsTrim_hd:
  assumes "jsTrim s \<noteq> []"
  shows "\<not> isWhiteSpace (hd (jsTrim s))"
proof -
  let ?z = "trimStart s"
  from assms have ne: "trimEnd ?z \<noteq> []" by (simp add: jsTrim_def)
  from trimEnd_prefix[of ?z] obtain zs where zs: "?z = trimEnd ?z @ zs"
    by (auto simp: prefix_def)
  from ne have "hd (trimEnd ?z @ zs) = hd (trimEnd ?z)" by simp
  with zs have hd_eq: "hd (trimEnd ?z) = hd ?z" by simp
  from zs ne have "?z \<noteq> []" by auto
  then have "\<not> isWhiteSpace (hd ?z)"
    unfolding trimStart_def by (rule hd_dropWhile)
  with hd_eq show ?thesis by (simp add: jsTrim_def)
qed

lemma jsTrim_empty: "jsTrim [] = []"
  by (simp add: jsTrim_def trimStart_def trimEnd_def)

lemma separator_unit:
  "sep \<in> set separators \<Longrightarrow> \<exists>c \<in> set (str ''/-,;''). c \<in> set sep"
  by (auto simp: separators_def str_def)

lemma splitServices_none:
  assumes "\<forall>c \<in> set (str ''/-,;''). c \<notin> set s" and "set seps \<subseteq> set separators"
  shows "foldl splitServices [s] seps = [s]"
  using assms(2)
proof (induction seps)
  case Nil
  show ?case by simp
next
  case (Cons sep seps)
  then have "sep \<in> set separators" by simp
  from separator_unit[OF this] obtain c where c: "c \<in> set (str ''/-,;'')" "c \<in> set sep"
    by blast
  have "\<not> jsIncludes s sep"
  proof
    assume "jsIncludes s sep"
    then have "set sep \<subseteq> set s" by (simp add: jsIncludes_def set_mono_sublist)
    with c assms(1) show False by blast
  qed
  then have "splitServices [s] sep = [s]" by (simp add: splitServices_def)
  with Cons show ?case by simp
qed

text \<open>
  C10: \<^verbatim>\<open>parseServices\<close> returns the empty list for the empty string. On every input each
  string it returns is non-empty, neither starts nor ends with a white space code unit
  (a tab, a line feed, a carriage return, a space, a no-break space and the others that
  \<^verbatim>\<open>trim\<close> removes), and contains none of the separator characters \<^verbatim>\<open>/\<close>, \<^verbatim>\<open>-\<close>, \<^verbatim>\<open>,\<close> and
  \<^verbatim>\<open>;\<close>. An input without any of these four characters that is not blank gives one
  string, the input without the white space at its two ends.
\<close>

theorem C10_parseServices_pieces:
  "parseServices [] = [] \<and>
   (\<forall>service \<in> set (parseServices serviceString).
      service \<noteq> [] \<and>
      \<not> isWhiteSpace (hd service) \<and> \<not> isWhiteSpace (last service) \<and>
      (\<forall>c \<in> set [0x9, 0xA, 0xB, 0xC, 0xD, 0x20, 0xA0, 0x1680, 0x2028, 0x2029, 0x202F,
                  0x205F, 0x3000, 0xFEFF]. hd service \<noteq> c \<and> last service \<noteq> c) \<and>
      \<not> (0x2000 \<le> hd service \<and> hd service \<le> 0x200A) \<and>
      \<not> (0x2000 \<le> last service \<and> last service \<le> 0x200A) \<and>
      (\<forall>c \<in> set (str ''/-,;''). c \<notin> set service)) \<and>
   ((\<forall>c \<in> set (str ''/-,;''). c \<notin> set serviceString) \<and> jsTrim serviceString \<noteq> [] \<longrightarrow>
      parseServices serviceString = [jsTrim serviceString])"
proof (intro conjI ballI impI)
  show "parseServices [] = []" by (simp add: parseServices_def)
next
  fix service assume a: "service \<in> set (parseServices serviceString)"
  then obtain piece where
    pc: "piece \<in> set (foldl splitServices [serviceString] separators)"
    and sv: "service = jsTrim piece" and ne: "service \<noteq> []"
    by (auto simp: parseServices_def split: if_splits)
  from ne show "service \<noteq> []" .
  from ne sv have h: "\<not> isWhiteSpace (hd service)" and l: "\<not> isWhiteSpace (last service)"
    using jsTrim_hd[of piece] jsTrim_last[of piece] by simp_all
  from h show "\<not> isWhiteSpace (hd service)" .
  from l show "\<not> isWhiteSpace (last service)" .
  from h show "\<not> (0x2000 \<le> hd service \<and> hd service \<le> 0x200A)"
    by (simp add: isWhiteSpace_def)
  from l show "\<not> (0x2000 \<le> last service \<and> last service \<le> 0x200A)"
    by (simp add: isWhiteSpace_def)
  {
    fix c :: jschar
    assume "c \<in> set [0x9, 0xA, 0xB, 0xC, 0xD, 0x20, 0xA0, 0x1680, 0x2028, 0x2029, 0x202F,
                     0x205F, 0x3000, 0xFEFF]"
    then have "isWhiteSpace c" by (simp only: isWhiteSpace_def simp_thms)
    with h l show "hd service \<noteq> c" and "last service \<noteq> c" by auto
  }
  fix c assume c: "c \<in> set (str ''/-,;'')"
  have "set (str ''/-,;'') = {0x2F, 0x2D, 0x2C, 0x3B}" by (simp add: str_def)
  with c have "c \<in> {0x2F, 0x2D, 0x2C, 0x3B}" by simp
  then have "c \<notin> set piece"
    using pc separators_free[of "[serviceString]"] by (auto simp: freeOf_def)
  with set_jsTrim[of piece] sv show "c \<notin> set service" by blast
next
  assume a: "(\<forall>c \<in> set (str ''/-,;''). c \<notin> set serviceString) \<and> jsTrim serviceString \<noteq> []"
  then have "serviceString \<noteq> []" using jsTrim_empty by auto
  moreover from a have "foldl splitServices [serviceString] separators = [serviceString]"
    by (intro splitServices_none) simp_all
  ultimately show "parseServices serviceString = [jsTrim serviceString]"
    using a by (simp add: parseServices_def)
qed

lemma eval_parseServices:
  "parseServices (str '' a / b-c ; '') = [str ''a'', str ''b'', str ''c'']"
  by (simp add: parseServices_def separators_def splitServices_def jsIncludes_def
      jsSplit_def str_def jsTrim_def trimStart_def trimEnd_def isWhiteSpace_def
      sublist_Cons_right)

text \<open>
  C10 at samples: \<^verbatim>\<open>parseServices(' a / b-c ; ')\<close> is \<^verbatim>\<open>a\<close>, \<^verbatim>\<open>b\<close>, \<^verbatim>\<open>c\<close>, and
  \<^verbatim>\<open>parseServices(' wash ')\<close> is \<^verbatim>\<open>wash\<close>.
\<close>

theorem C10_parseServices_pieces_witness:
  "parseServices (str '' a / b-c ; '') = [str ''a'', str ''b'', str ''c''] \<and>
   str ''b'' \<noteq> [] \<and> hd (str ''b'') \<noteq> 0x20 \<and> last (str ''b'') \<noteq> 0x20 \<and>
   \<not> isWhiteSpace (hd (str ''b'')) \<and> \<not> isWhiteSpace (last (str ''b'')) \<and>
   0x2F \<notin> set (str ''b'') \<and>
   jsTrim (str '' wash '') = str ''wash'' \<and>
   parseServices (str '' wash '') = [str ''wash'']"
proof -
  have "str ''b'' \<in> set (parseServices (str '' a / b-c ; ''))"
    by (simp add: eval_parseServices)
  from C10_parseServices_pieces[of "str '' a / b-c ; ''", THEN conjunct2, THEN conjunct1,
      rule_format, OF this]
  have b: "str ''b'' \<noteq> [] \<and> hd (str ''b'') \<noteq> 0x20 \<and> last (str ''b'') \<noteq> 0x20 \<and>
      \<not> isWhiteSpace (hd (str ''b'')) \<and> \<not> isWhiteSpace (last (str ''b'')) \<and>
      0x2F \<notin> set (str ''b'')"
    by (simp add: str_def)
  have t: "jsTrim (str '' wash '') = str ''wash''"
    by (simp add: str_def jsTrim_def trimStart_def trimEnd_def isWhiteSpace_def)
  have "(\<forall>c \<in> set (str ''/-,;''). c \<notin> set (str '' wash '')) \<and> jsTrim (str '' wash '') \<noteq> []"
    by (simp add: t) (simp add: str_def)
  from C10_parseServices_pieces[of "str '' wash ''", THEN conjunct2, THEN conjunct2,
      rule_format, OF this]
  have "parseServices (str '' wash '') = [str ''wash'']" by (simp only: t)
  with eval_parseServices b t show ?thesis by (intro conjI) (simp_all only: simp_thms)
qed
section \<open>Properties of the parsers\<close>

subsection \<open>Station ids\<close>

lemma findUniqueId_step:
  "uniqueId \<in> set usedIds \<Longrightarrow>
   findUniqueId usedIds stationId uniqueId n
     = findUniqueId usedIds stationId (candidateId stationId n) (n + 1)"
  by (subst findUniqueId.simps) (simp only: if_True)

lemma findUniqueId_free:
  "uniqueId \<notin> set usedIds \<Longrightarrow> findUniqueId usedIds stationId uniqueId n = uniqueId"
  by (subst findUniqueId.simps) (simp only: if_False)

lemma findUniqueId_unused: "findUniqueId usedIds stationId uniqueId n \<notin> set usedIds"
proof (induction usedIds stationId uniqueId n rule: findUniqueId.induct)
  case (1 usedIds stationId uniqueId n)
  show ?case
  proof (cases "uniqueId \<in> set usedIds")
    case True
    show ?thesis unfolding findUniqueId_step[OF True] by (rule "1.IH"[OF True])
  next
    case False
    show ?thesis unfolding findUniqueId_free[OF False] by (rule False)
  qed
qed

lemma findUniqueId_suffixed:
  "uniqueId \<in> set usedIds \<Longrightarrow>
   \<exists>k\<ge>n. findUniqueId usedIds stationId uniqueId n = candidateId stationId k \<and>
          (\<forall>j. n \<le> j \<and> j < k \<longrightarrow> candidateId stationId j \<in> set usedIds)"
proof (induction usedIds stationId uniqueId n rule: findUniqueId.induct)
  case (1 usedIds stationId uniqueId n)
  note step = findUniqueId_step[OF "1.prems", of stationId n]
  show ?case
  proof (cases "candidateId stationId n \<in> set usedIds")
    case True
    from "1.IH"[OF "1.prems" True] obtain k where k: "k \<ge> n + 1"
      "findUniqueId usedIds stationId (candidateId stationId n) (n + 1) = candidateId stationId k"
      "\<forall>j. n + 1 \<le> j \<and> j < k \<longrightarrow> candidateId stationId j \<in> set usedIds"
      by blast
    have "\<forall>j. n \<le> j \<and> j < k \<longrightarrow> candidateId stationId j \<in> set usedIds"
    proof (intro allI impI)
      fix j assume j: "n \<le> j \<and> j < k"
      show "candidateId stationId j \<in> set usedIds"
      proof (cases "j = n")
        case True with \<open>candidateId stationId n \<in> set usedIds\<close> show ?thesis by simp
      next
        case False with j have "n + 1 \<le> j \<and> j < k" by simp
        with k(3) show ?thesis by blast
      qed
    qed
    with k(1,2) step show ?thesis by (intro exI[of _ k]) simp
  next
    case False
    then have "findUniqueId usedIds stationId (candidateId stationId n) (n + 1)
               = candidateId stationId n"
      by (rule findUniqueId_free)
    with step show ?thesis by (intro exI[of _ n]) auto
  qed
qed

lemma station_id_buildStation: "station_id (buildStation lc uniqueId pdv) = uniqueId"
  unfolding buildStation_def Let_def by (simp only: GasStation.select_convs)

lemma station_id_buildFallbackStation: "station_id (buildFallbackStation uniqueId b) = uniqueId"
  unfolding buildFallbackStation_def Let_def by (simp only: GasStation.select_convs)

lemma parseStation_id:
  assumes "parseStation lc index usedIds pdv = (usedIds', st)"
  shows "\<exists>u. usedIds' = u # usedIds \<and> u \<notin> set usedIds \<and>
             (\<forall>s. st = Some s \<longrightarrow> station_id s = u)"
proof -
  let ?u = "findUniqueId usedIds (stationIdOf pdv index) (stationIdOf pdv index) 1"
  let ?s = "buildStation lc ?u pdv"
  have "parseStation lc index usedIds pdv =
        (?u # usedIds, if hasMeaningfulData ?s then Some ?s else None)"
    by (simp only: parseStation_def Let_def)
  with assms have u: "usedIds' = ?u # usedIds"
    and st: "st = (if hasMeaningfulData ?s then Some ?s else None)" by simp_all
  from st have "\<forall>s. st = Some s \<longrightarrow> station_id s = ?u"
    by (cases "hasMeaningfulData ?s") (simp_all add: station_id_buildStation)
  with u findUniqueId_unused show ?thesis by blast
qed

lemma fallbackStation_id:
  assumes "fallbackStation index usedIds b = (usedIds', st)"
  shows "\<exists>u. usedIds' = u # usedIds \<and> u \<notin> set usedIds \<and>
             (\<forall>s. st = Some s \<longrightarrow> station_id s = u)"
proof -
  let ?u = "findUniqueId usedIds (fallbackStationId b index) (fallbackStationId b index) 1"
  let ?s = "buildFallbackStation ?u b"
  have "fallbackStation index usedIds b =
        (?u # usedIds, if hasMeaningfulData ?s then Some ?s else None)"
    by (simp only: fallbackStation_def Let_def)
  with assms have u: "usedIds' = ?u # usedIds"
    and st: "st = (if hasMeaningfulData ?s then Some ?s else None)" by simp_all
  from st have "\<forall>s. st = Some s \<longrightarrow> station_id s = ?u"
    by (cases "hasMeaningfulData ?s") (simp_all add: station_id_buildFallbackStation)
  with u findUniqueId_unused show ?thesis by blast
qed

lemma parseStations_distinct:
  "distinct (map station_id (parseStations lc index usedIds pdvs)) \<and>
   set (map station_id (parseStations lc index usedIds pdvs)) \<inter> set usedIds = {}"
proof (induction pdvs arbitrary: index usedIds)
  case Nil
  then show ?case by simp
next
  case (Cons pdv pdvs)
  obtain usedIds' st where ps: "parseStation lc index usedIds pdv = (usedIds', st)"
    by (cases "parseStation lc index usedIds pdv")
  from parseStation_id[OF ps] obtain u where u: "usedIds' = u # usedIds" "u \<notin> set usedIds"
    "\<forall>s. st = Some s \<longrightarrow> station_id s = u" by blast
  note ih = Cons.IH[of "index + 1" usedIds']
  show ?case
  proof (cases st)
    case None
    with ps ih u show ?thesis by auto
  next
    case (Some s)
    with u have "station_id s = u" by simp
    with ps Some ih u show ?thesis by auto
  qed
qed

lemma fallbackStations_distinct:
  "distinct (map station_id (fallbackStations index usedIds bs)) \<and>
   set (map station_id (fallbackStations index usedIds bs)) \<inter> set usedIds = {}"
proof (induction bs arbitrary: index usedIds)
  case Nil
  then show ?case by simp
next
  case (Cons b bs)
  obtain usedIds' st where ps: "fallbackStation index usedIds b = (usedIds', st)"
    by (cases "fallbackStation index usedIds b")
  from fallbackStation_id[OF ps] obtain u where u: "usedIds' = u # usedIds" "u \<notin> set usedIds"
    "\<forall>s. st = Some s \<longrightarrow> station_id s = u" by blast
  note ih = Cons.IH[of "index + 1" usedIds']
  show ?case
  proof (cases st)
    case None
    with ps ih u show ?thesis by auto
  next
    case (Some s)
    with u have "station_id s = u" by simp
    with ps Some ih u show ?thesis by auto
  qed
qed

text \<open>
  C4: the station ids of one parse are pairwise distinct, in the primary parser (from the
  parsed document on) and in the fallback parser. Each parse starts from an empty
  \<^verbatim>\<open>usedIds\<close>; the id a station gets is never one already used: the candidate itself
  when it is unused, otherwise the candidate followed by \<^verbatim>\<open>-n\<close> for the first
  \<open>n = 1, 2, ...\<close> that is unused.
\<close>

theorem C4_station_ids_distinct:
  "(\<forall>stations. parseDocument lc documentElement = Inr stations
       \<longrightarrow> distinct (map station_id stations)) \<and>
   distinct (map station_id (parseXMLWithFallback blocks)) \<and>
   findUniqueId usedIds stationId stationId 1 \<notin> set usedIds \<and>
   (stationId \<notin> set usedIds \<longrightarrow> findUniqueId usedIds stationId stationId 1 = stationId) \<and>
   (stationId \<in> set usedIds \<longrightarrow>
      (\<exists>n\<ge>1. findUniqueId usedIds stationId stationId 1 = stationId @ str ''-'' @ showNat n \<and>
         (\<forall>j. 1 \<le> j \<and> j < n \<longrightarrow> stationId @ str ''-'' @ showNat j \<in> set usedIds)))"
proof (intro conjI allI impI)
  fix stations assume "parseDocument lc documentElement = Inr stations"
  then show "distinct (map station_id stations)"
    using parseStations_distinct by (auto simp: parseDocument_def Let_def split: if_splits)
next
  show "distinct (map station_id (parseXMLWithFallback blocks))"
    using fallbackStations_distinct by (simp add: parseXMLWithFallback_def)
next
  show "findUniqueId usedIds stationId stationId 1 \<notin> set usedIds"
    by (rule findUniqueId_unused)
next
  assume "stationId \<notin> set usedIds"
  then show "findUniqueId usedIds stationId stationId 1 = stationId"
    by (rule findUniqueId_free)
next
  assume "stationId \<in> set usedIds"
  from findUniqueId_suffixed[OF this, of 1 stationId]
  show "\<exists>n\<ge>1. findUniqueId usedIds stationId stationId 1 = stationId @ str ''-'' @ showNat n \<and>
         (\<forall>j. 1 \<le> j \<and> j < n \<longrightarrow> stationId @ str ''-'' @ showNat j \<in> set usedIds)"
    by (simp add: candidateId_def)
qed

subsection \<open>The parsers on the sample documents\<close>

lemmas dom_defs = querySelectorAll_def querySelector_def docQuerySelectorAll_def children_def
  attrs_def elementText_def orUndefined_def orEmpty_def str_def
  samplePdv_def sampleDocument_def

lemmas js_defs = jsTrim_def trimStart_def trimEnd_def isWhiteSpace_def jsIncludes_def
  sublist_Cons_right parseFloat_def readSign_def readExponent_def scale10_def isDigit_def
  digitsValue_def digitValue_def toDouble_zero toDouble_values

lemma eval_services:
  "parseServiceList asciiLower repeatedServicePdv = [str ''X'', str ''X'']"
  by (simp add: parseServiceList_def selectorServices_def serviceSelectors_def serviceName_def
      addChildService_def childServiceName_def asciiLower_def repeatedServicePdv_def
      List.map_filter_def dom_defs js_defs)

lemma eval_fuels:
  "parseFuels pricedPdv = [sampleFuel ''Gazole'' ''Gazole'' 1.5, sampleFuel ''SP95'' ''SP95'' 1.75]"
  by (simp add: parseFuels_def fuelSelectors_def parseFuel_def makeFuel_def parsePrice_def
      fuelPriceStr_def fuelName_def FUEL_NAMES_def pricedPdv_def gazolePrix_def sp95Prix_def e85Prix_def sampleFuel_def
      List.map_filter_def dom_defs js_defs)


lemmas station_defs = buildStation_def buildAddress_def convertCoordinate_def rawLatitude_def
  rawLongitude_def parseFuels_def fuelSelectors_def parseServiceList_def selectorServices_def
  serviceSelectors_def hourSelectors_def sampleStation_def List.map_filter_def


lemma eval_build_twin:
  "buildStation asciiLower u twinPdv
   = (sampleStation ''7'' None None [] None)\<lparr>station_id := u\<rparr>"
  by (simp add: station_defs twinPdv_def dom_defs js_defs)


lemma eval_id_twin: "stationIdOf twinPdv n = str ''7''"
  by (simp add: stationIdOf_def twinPdv_def dom_defs)

lemma eval_pdvs:
  "probeSelectors (docQuerySelectorAll (sampleDocument [halfPlacedPdv])) possibleSelectors
   = [halfPlacedPdv]"
  "probeSelectors (docQuerySelectorAll (sampleDocument [twinPdv, twinPdv])) possibleSelectors
   = [twinPdv, twinPdv]"
  by (simp_all add: possibleSelectors_def halfPlacedPdv_def twinPdv_def dom_defs)



lemma eval_unique_twin:
  "findUniqueId [] (str ''7'') (str ''7'') (Suc 0) = str ''7''"
  "findUniqueId [str ''7''] (str ''7'') (str ''7'') (Suc 0) = str ''7-1''"
proof -
  show "findUniqueId [] (str ''7'') (str ''7'') (Suc 0) = str ''7''"
    by (simp add: findUniqueId_free)
  have c: "candidateId (str ''7'') (Suc 0) = str ''7-1''"
    by (simp add: candidateId_def showNat.simps digitChar_def str_def)
  have "str ''7-1'' \<notin> set [str ''7'']" by (simp add: str_def)
  then have "findUniqueId [str ''7''] (str ''7'') (str ''7-1'') (Suc 0 + 1) = str ''7-1''"
    by (rule findUniqueId_free)
  moreover have "findUniqueId [str ''7''] (str ''7'') (str ''7'') (Suc 0)
        = findUniqueId [str ''7''] (str ''7'') (candidateId (str ''7'') (Suc 0)) (Suc 0 + 1)"
    by (rule findUniqueId_step) simp
  ultimately show "findUniqueId [str ''7''] (str ''7'') (str ''7'') (Suc 0) = str ''7-1''"
    by (simp only: c)
qed

lemma eval_station_twin:
  "parseStation asciiLower 0 [] twinPdv
   = ([str ''7''], Some (sampleStation ''7'' None None [] None))"
  "parseStation asciiLower (Suc 0) [str ''7''] twinPdv
   = ([str ''7-1'', str ''7''], Some (sampleStation ''7-1'' None None [] None))"
proof -
  have m: "hasMeaningfulData (sampleStation i None None [] None)" if "i \<noteq> []" for i
    using that by (simp add: hasMeaningfulData_def sampleStation_def str_def)
  have u: "(sampleStation ''7'' None None [] None)\<lparr>station_id := str i\<rparr>
           = sampleStation i None None [] None" for i
    by (simp add: sampleStation_def)
  show "parseStation asciiLower 0 [] twinPdv
   = ([str ''7''], Some (sampleStation ''7'' None None [] None))"
    using m[of "''7''"]
    by (simp add: parseStation_def Let_def eval_id_twin eval_unique_twin eval_build_twin u)
  show "parseStation asciiLower (Suc 0) [str ''7''] twinPdv
   = ([str ''7-1'', str ''7''], Some (sampleStation ''7-1'' None None [] None))"
    using m[of "''7-1''"]
    by (simp add: parseStation_def Let_def eval_id_twin eval_unique_twin eval_build_twin u)
qed

lemma eval_doc_twin:
  "parseDocument asciiLower (sampleDocument [twinPdv, twinPdv])
   = Inr [sampleStation ''7'' None None [] None, sampleStation ''7-1'' None None [] None]"
  by (simp add: parseDocument_def eval_pdvs eval_station_twin)

lemmas block_defs = sampleBlock_def attr_def str_def orEmpty_def orUndefined_def

lemmas fallback_defs = buildFallbackStation_def buildAddress_def convertCoordinate_def
  fallbackRawLatitude_def fallbackRawLongitude_def sampleStation_def List.map_filter_def

lemma eval_fallback_raw:
  "fallbackRawLatitude halfPlacedBlock = Num 0"
  "fallbackRawLongitude halfPlacedBlock = Num 250000"
  by (simp_all add: fallbackRawLatitude_def fallbackRawLongitude_def halfPlacedBlock_def
      block_defs js_defs)



lemma eval_fallback_fuel:
  "fallbackFuel (str ''1'', str ''1,5'', None) = Some (sampleFuel ''1'' ''Gazole'' 1.5)"
  by (simp add: fallbackFuel_def makeFuel_def fuelName_def FUEL_NAMES_def sampleFuel_def
      block_defs js_defs)

lemma eval_fallback_priced:
  "fallbackStation 0 [] pricedBlock
   = ([str ''1''], Some (sampleStation ''1'' None None [sampleFuel ''1'' ''Gazole'' 1.5] None))"
proof -
  have "hasMeaningfulData (sampleStation ''1'' None None [sampleFuel ''1'' ''Gazole'' 1.5] None)"
    by (simp add: hasMeaningfulData_def sampleStation_def str_def)
  moreover have "fallbackStationId pricedBlock 0 = str ''1''"
    by (simp add: fallbackStationId_def pricedBlock_def block_defs)
  moreover have "buildFallbackStation (str ''1'') pricedBlock
      = sampleStation ''1'' None None [sampleFuel ''1'' ''Gazole'' 1.5] None"
    by (simp add: fallback_defs pricedBlock_def fallbackFuel_def makeFuel_def fuelName_def
        FUEL_NAMES_def sampleFuel_def block_defs js_defs)
  ultimately show ?thesis
    by (simp add: fallbackStation_def Let_def findUniqueId_free)
qed

lemma eval_fallback_twin:
  "parseXMLWithFallback [twinBlock, twinBlock]
   = [sampleStation ''7'' None None [] None, sampleStation ''7-1'' None None [] None]"
proof -
  have m: "hasMeaningfulData (sampleStation i None None [] None)" if "i \<noteq> []" for i
    using that by (simp add: hasMeaningfulData_def sampleStation_def str_def)
  have i: "fallbackStationId twinBlock n = str ''7''" for n
    by (simp add: fallbackStationId_def twinBlock_def block_defs)
  have b: "buildFallbackStation (str u) twinBlock = sampleStation u None None [] None" for u
    by (simp add: fallback_defs twinBlock_def block_defs js_defs)
  have "fallbackStation 0 [] twinBlock = ([str ''7''], Some (sampleStation ''7'' None None [] None))"
    using m[of "''7''"] by (simp add: fallbackStation_def Let_def i eval_unique_twin b)
  moreover have "fallbackStation (Suc 0) [str ''7''] twinBlock
      = ([str ''7-1'', str ''7''], Some (sampleStation ''7-1'' None None [] None))"
    using m[of "''7-1''"] by (simp add: fallbackStation_def Let_def i eval_unique_twin b)
  ultimately show ?thesis by (simp add: parseXMLWithFallback_def)
qed

lemma eval_station_priced:
  "parseStation asciiLower 0 [] pricedPdv
   = ([str ''1''], Some (sampleStation ''1'' None None [sampleFuel ''Gazole'' ''Gazole'' 1.5, sampleFuel ''SP95'' ''SP95'' 1.75] None))"
proof -
  have "hasMeaningfulData (sampleStation ''1'' None None [sampleFuel ''Gazole'' ''Gazole'' 1.5, sampleFuel ''SP95'' ''SP95'' 1.75] None)"
    by (simp add: hasMeaningfulData_def sampleStation_def str_def)
  moreover have "stationIdOf pricedPdv 0 = str ''1''"
    by (simp add: stationIdOf_def pricedPdv_def dom_defs)
  moreover have "buildStation asciiLower (str ''1'') pricedPdv
      = sampleStation ''1'' None None [sampleFuel ''Gazole'' ''Gazole'' 1.5, sampleFuel ''SP95'' ''SP95'' 1.75] None"
    by (simp add: station_defs pricedPdv_def gazolePrix_def sp95Prix_def e85Prix_def parseFuel_def makeFuel_def
        parsePrice_def fuelPriceStr_def fuelName_def FUEL_NAMES_def sampleFuel_def
        addChildService_def asciiLower_def dom_defs js_defs)
  ultimately show ?thesis
    by (simp add: parseStation_def Let_def findUniqueId_free)
qed

lemma eval_station_repeated:
  "parseStation asciiLower 0 [] repeatedServicePdv
   = ([str ''1''],
      Some ((sampleStation ''1'' None None [] None)\<lparr>services := Some [str ''X'', str ''X'']\<rparr>))"
proof -
  have "hasMeaningfulData
          ((sampleStation ''1'' None None [] None)\<lparr>services := Some [str ''X'', str ''X'']\<rparr>)"
    by (simp add: hasMeaningfulData_def sampleStation_def str_def)
  moreover have "stationIdOf repeatedServicePdv 0 = str ''1''"
    by (simp add: stationIdOf_def repeatedServicePdv_def dom_defs)
  moreover have "buildStation asciiLower (str ''1'') repeatedServicePdv
      = (sampleStation ''1'' None None [] None)\<lparr>services := Some [str ''X'', str ''X'']\<rparr>"
    by (simp add: station_defs repeatedServicePdv_def serviceName_def
        addChildService_def childServiceName_def asciiLower_def dom_defs js_defs)
  ultimately show ?thesis
    by (simp add: parseStation_def Let_def findUniqueId_free)
qed

subsection \<open>Coordinates\<close>

lemma parseStations_built:
  "st \<in> set (parseStations lc index usedIds pdvs) \<Longrightarrow>
   \<exists>pdv \<in> set pdvs. \<exists>u. st = buildStation lc u pdv"
proof (induction pdvs arbitrary: index usedIds)
  case Nil
  then show ?case by simp
next
  case (Cons pdv pdvs)
  let ?u = "findUniqueId usedIds (stationIdOf pdv index) (stationIdOf pdv index) 1"
  let ?s = "buildStation lc ?u pdv"
  have ps: "parseStation lc index usedIds pdv =
        (?u # usedIds, if hasMeaningfulData ?s then Some ?s else None)"
    by (simp only: parseStation_def Let_def)
  from Cons.prems have "st = ?s \<or> st \<in> set (parseStations lc (index + 1) (?u # usedIds) pdvs)"
    by (cases "hasMeaningfulData ?s") (simp_all add: ps)
  then show ?case
  proof
    assume "st = ?s" then show ?thesis by auto
  next
    assume "st \<in> set (parseStations lc (index + 1) (?u # usedIds) pdvs)"
    from Cons.IH[OF this] show ?thesis by auto
  qed
qed

lemma fallbackStations_built:
  "st \<in> set (fallbackStations index usedIds bs) \<Longrightarrow>
   \<exists>b \<in> set bs. \<exists>u. st = buildFallbackStation u b"
proof (induction bs arbitrary: index usedIds)
  case Nil
  then show ?case by simp
next
  case (Cons b bs)
  let ?u = "findUniqueId usedIds (fallbackStationId b index) (fallbackStationId b index) 1"
  let ?s = "buildFallbackStation ?u b"
  have ps: "fallbackStation index usedIds b =
        (?u # usedIds, if hasMeaningfulData ?s then Some ?s else None)"
    by (simp only: fallbackStation_def Let_def)
  from Cons.prems have "st = ?s \<or> st \<in> set (fallbackStations (index + 1) (?u # usedIds) bs)"
    by (cases "hasMeaningfulData ?s") (simp_all add: ps)
  then show ?case
  proof
    assume "st = ?s" then show ?thesis by auto
  next
    assume "st \<in> set (fallbackStations (index + 1) (?u # usedIds) bs)"
    from Cons.IH[OF this] show ?thesis by auto
  qed
qed

lemma buildStation_fields:
  "latitude (buildStation lc u pdv) = convertCoordinate (rawLatitude pdv)"
  "longitude (buildStation lc u pdv) = convertCoordinate (rawLongitude pdv)"
  "fuels (buildStation lc u pdv) = parseFuels pdv"
  "services (buildStation lc u pdv) = Some (parseServiceList lc pdv)"
  unfolding buildStation_def Let_def by (simp_all only: GasStation.select_convs)

lemma buildFallbackStation_fields:
  "latitude (buildFallbackStation u b) = convertCoordinate (fallbackRawLatitude b)"
  "longitude (buildFallbackStation u b) = convertCoordinate (fallbackRawLongitude b)"
  "fuels (buildFallbackStation u b) = List.map_filter fallbackFuel (fuelMatches b)"
  unfolding buildFallbackStation_def Let_def by (simp_all only: GasStation.select_convs)


lemma parseStations_from:
  "st \<in> set (parseStations lc index usedIds pdvs) \<Longrightarrow>
   \<exists>i < length pdvs. \<exists>ids ids'. parseStation lc (index + i) ids (pdvs ! i) = (ids', Some st)"
proof (induction pdvs arbitrary: index usedIds)
  case Nil
  then show ?case by simp
next
  case (Cons pdv pdvs)
  obtain ids' r where ps: "parseStation lc index usedIds pdv = (ids', r)"
    by (cases "parseStation lc index usedIds pdv")
  from Cons.prems ps
  have "r = Some st \<or> st \<in> set (parseStations lc (index + 1) ids' pdvs)"
    by (cases r) auto
  then show ?case
  proof
    assume "r = Some st"
    with ps have "parseStation lc (index + 0) usedIds ((pdv # pdvs) ! 0) = (ids', Some st)"
      by simp
    then show ?thesis by blast
  next
    assume "st \<in> set (parseStations lc (index + 1) ids' pdvs)"
    from Cons.IH[OF this] obtain i ids ids'' where
      i: "i < length pdvs" "parseStation lc (index + 1 + i) ids (pdvs ! i) = (ids'', Some st)"
      by blast
    then have "Suc i < length (pdv # pdvs)"
      "parseStation lc (index + Suc i) ids ((pdv # pdvs) ! Suc i) = (ids'', Some st)"
      by simp_all
    then show ?thesis by blast
  qed
qed


lemma parseStation_built:
  "parseStation lc index usedIds pdv = (ids', Some st) \<Longrightarrow> \<exists>u. st = buildStation lc u pdv"
  by (simp only: parseStation_def Let_def) (auto split: if_splits)

lemma fallbackStation_built:
  "fallbackStation index usedIds b = (ids', Some st) \<Longrightarrow> \<exists>u. st = buildFallbackStation u b"
  by (simp only: fallbackStation_def Let_def) (auto split: if_splits)







subsection \<open>Fuels, and services\<close>

lemma positive_scaled:
  assumes "num_less (Num 0) p"
  shows "num_less (Num 0) (if num_less (Num 10) p then num_div p 1000 else p)"
proof (cases p)
  case (Num x)
  show ?thesis
  proof (cases "10 < x")
    case True
    then have "1 / 128 \<le> x / 1000" by simp
    from toDouble_positive[OF this] True Num show ?thesis by simp
  next
    case False
    with Num assms show ?thesis by simp
  qed
qed (use assms in auto)

lemma makeFuel_price:
  assumes "makeFuel fuelId p fuelUpdate = Some f"
  shows "num_less (Num 0) p \<and>
         price f = Some (if num_less (Num 10) p then num_div p 1000 else p) \<and>
         num_less (Num 0) (toNumber (price f))"
proof -
  from assms have pos: "num_less (Num 0) p"
    and f: "price f = Some (if num_less (Num 10) p then num_div p 1000 else p)"
    by (auto simp: makeFuel_def split: if_splits)
  from positive_scaled[OF pos] f pos show ?thesis by simp
qed

lemma in_map_filter: "y \<in> set (List.map_filter g xs) \<Longrightarrow> \<exists>x \<in> set xs. g x = Some y"
  by (auto simp: List.map_filter_def)

lemma parseFuels_positive: "f \<in> set (parseFuels pdv) \<Longrightarrow> num_less (Num 0) (toNumber (price f))"
  by (auto simp: parseFuels_def parseFuel_def dest!: in_map_filter makeFuel_price)

lemma fallbackFuels_positive:
  "f \<in> set (List.map_filter fallbackFuel ms) \<Longrightarrow> num_less (Num 0) (toNumber (price f))"
  by (auto simp: fallbackFuel_def dest!: in_map_filter makeFuel_price split: prod.splits)

lemma firstTruthy_None: "firstTruthy xs = None \<Longrightarrow> xs = [] \<or> last xs = None"
  by (induction xs rule: firstTruthy.induct) (auto split: if_splits)

lemma fuelPriceStr_Some: "fuelPriceStr prix \<noteq> None"
proof
  assume "fuelPriceStr prix = None"
  from firstTruthy_None[OF this[unfolded fuelPriceStr_def]] show False by simp
qed

lemma fuelPriceStr_valeur:
  "getAttribute prix (str ''valeur'') = Some t \<Longrightarrow> t \<noteq> [] \<Longrightarrow> fuelPriceStr prix = Some t"
  by (simp add: fuelPriceStr_def attrs_def)

lemma parseFloat_empty: "parseFloat [] = NaN"
  by (simp add: parseFloat_def readSign_def trimStart_def str_def)

lemma parsePrice_text:
  "parsePrice (Some t) =
     (if t = [] then Num 0 else parseFloat (replaceFirst (str '','') (str ''.'') t))"
  by (simp add: parsePrice_def orEmpty_def)

lemma parsePrice_positive:
  "num_less (Num 0) (parsePrice (Some t)) \<longleftrightarrow>
   num_less (Num 0) (parseFloat (replaceFirst (str '','') (str ''.'') t))"
proof (cases "t = []")
  case True
  then have "replaceFirst (str '','') (str ''.'') t = []"
    by (simp add: replaceFirst.simps str_def)
  with True show ?thesis by (simp add: parsePrice_text parseFloat_empty)
next
  case False
  then show ?thesis by (simp add: parsePrice_text)
qed

lemma makeFuel_None:
  "makeFuel fuelId p fuelUpdate = None \<longleftrightarrow> \<not> (truthyStr fuelId \<and> num_less (Num 0) p)"
  by (simp add: makeFuel_def)

text \<open>
  C3. In \<^verbatim>\<open>parseXMLData\<close>, let \<open>t\<close> be the price text of a fuel entry (its attribute
  \<^verbatim>\<open>valeur\<close> when that is not empty) and \<open>p\<close> the value that \<^verbatim>\<open>parseFloat\<close> gives for \<open>t\<close>
  with its first comma replaced by a dot. The entry is dropped unless \<open>p\<close> is greater than
  0; when it has a fuel id and \<open>p\<close> is greater than 0 it is kept, and the price stored is
  \<open>p / 1000\<close> when \<open>p > 10\<close> and \<open>p\<close> otherwise, which is greater than 0. The same holds in
  \<^verbatim>\<open>parseXMLWithFallback\<close> for the price text that the regular expression captures. The
  fuel list of a station pushed for an element is the list of the entries kept, so every
  fuel of every parsed station has a price greater than 0.
\<close>

theorem C3_fuel_price_normalised:
  "(\<forall>f t. parseFuel prix = Some f \<and> fuelPriceStr prix = Some t \<longrightarrow>
      num_less (Num 0) (parseFloat (replaceFirst (str '','') (str ''.'') t)) \<and>
      price f = Some (if num_less (Num 10) (parseFloat (replaceFirst (str '','') (str ''.'') t))
                      then num_div (parseFloat (replaceFirst (str '','') (str ''.'') t)) 1000
                      else parseFloat (replaceFirst (str '','') (str ''.'') t)) \<and>
      num_less (Num 0) (toNumber (price f))) \<and>
   fuelPriceStr prix \<noteq> None \<and>
   (\<forall>t. getAttribute prix (str ''valeur'') = Some t \<and> t \<noteq> [] \<longrightarrow> fuelPriceStr prix = Some t) \<and>
   (\<forall>t. fuelPriceStr prix = Some t \<longrightarrow>
      (parseFuel prix = None \<longleftrightarrow>
         \<not> (truthyStr (firstTruthy (attrs prix [''nom'', ''id'', ''type'', ''name'', ''code''])) \<and>
            num_less (Num 0) (parseFloat (replaceFirst (str '','') (str ''.'') t))))) \<and>
   (\<forall>f. fallbackFuel (fuelId, priceText, fuelUpdate) = Some f \<longrightarrow>
      num_less (Num 0) (parseFloat (replaceFirst (str '','') (str ''.'') priceText)) \<and>
      price f = Some (if num_less (Num 10) (parseFloat (replaceFirst (str '','') (str ''.'') priceText))
                      then num_div (parseFloat (replaceFirst (str '','') (str ''.'') priceText)) 1000
                      else parseFloat (replaceFirst (str '','') (str ''.'') priceText)) \<and>
      num_less (Num 0) (toNumber (price f))) \<and>
   (fallbackFuel (fuelId, priceText, fuelUpdate) = None \<longleftrightarrow>
      \<not> (fuelId \<noteq> [] \<and>
         num_less (Num 0) (parseFloat (replaceFirst (str '','') (str ''.'') priceText)))) \<and>
   (\<forall>usedIds' st. parseStation lc index usedIds pdv = (usedIds', Some st) \<longrightarrow>
      fuels st = List.map_filter parseFuel (probeSelectors (querySelectorAll pdv) fuelSelectors) \<and>
      (\<forall>f \<in> set (fuels st). num_less (Num 0) (toNumber (price f)))) \<and>
   (\<forall>usedIds' st. fallbackStation index usedIds b = (usedIds', Some st) \<longrightarrow>
      fuels st = List.map_filter fallbackFuel (fuelMatches b) \<and>
      (\<forall>f \<in> set (fuels st). num_less (Num 0) (toNumber (price f)))) \<and>
   (\<forall>st \<in> set (parseStations lc index usedIds pdvs).
      \<forall>f \<in> set (fuels st). num_less (Num 0) (toNumber (price f))) \<and>
   (\<forall>st \<in> set (fallbackStations index usedIds blocks).
      \<forall>f \<in> set (fuels st). num_less (Num 0) (toNumber (price f)))"
proof (intro conjI allI impI ballI)
  fix f t assume a: "parseFuel prix = Some f \<and> fuelPriceStr prix = Some t"
  let ?p = "parseFloat (replaceFirst (str '','') (str ''.'') t)"
  from a have m: "makeFuel (firstTruthy (attrs prix [''nom'', ''id'', ''type'', ''name'', ''code'']))
       (parsePrice (Some t))
       (firstTruthy (attrs prix [''maj'', ''last_update'', ''date'', ''update''])) = Some f"
    by (auto simp: parseFuel_def)
  from makeFuel_price[OF m] have pos: "num_less (Num 0) (parsePrice (Some t))"
    and pr: "price f = Some (if num_less (Num 10) (parsePrice (Some t))
                             then num_div (parsePrice (Some t)) 1000 else parsePrice (Some t))"
    and pf: "num_less (Num 0) (toNumber (price f))" by blast+
  from pos have "t \<noteq> []" by (auto simp: parsePrice_text)
  then have eq: "parsePrice (Some t) = ?p" by (simp add: parsePrice_text)
  from pos show "num_less (Num 0) ?p" by (simp only: eq)
  from pr show "price f = Some (if num_less (Num 10) ?p then num_div ?p 1000 else ?p)"
    by (simp only: eq)
  from pf show "num_less (Num 0) (toNumber (price f))" .
next
  show "fuelPriceStr prix \<noteq> None" by (rule fuelPriceStr_Some)
next
  fix t assume "getAttribute prix (str ''valeur'') = Some t \<and> t \<noteq> []"
  then show "fuelPriceStr prix = Some t" by (simp add: fuelPriceStr_valeur)
next
  fix t assume "fuelPriceStr prix = Some t"
  then show "parseFuel prix = None \<longleftrightarrow>
         \<not> (truthyStr (firstTruthy (attrs prix [''nom'', ''id'', ''type'', ''name'', ''code''])) \<and>
            num_less (Num 0) (parseFloat (replaceFirst (str '','') (str ''.'') t)))"
    by (simp only: parseFuel_def makeFuel_None parsePrice_positive)
next
  fix f assume "fallbackFuel (fuelId, priceText, fuelUpdate) = Some f"
  then have m: "makeFuel (Some fuelId)
      (parseFloat (replaceFirst (str '','') (str ''.'') priceText)) fuelUpdate = Some f"
    by (simp add: fallbackFuel_def)
  from makeFuel_price[OF m]
  show "num_less (Num 0) (parseFloat (replaceFirst (str '','') (str ''.'') priceText))"
    and "price f = Some (if num_less (Num 10) (parseFloat (replaceFirst (str '','') (str ''.'') priceText))
                      then num_div (parseFloat (replaceFirst (str '','') (str ''.'') priceText)) 1000
                      else parseFloat (replaceFirst (str '','') (str ''.'') priceText))"
    and "num_less (Num 0) (toNumber (price f))" by blast+
next
  show "fallbackFuel (fuelId, priceText, fuelUpdate) = None \<longleftrightarrow>
      \<not> (fuelId \<noteq> [] \<and>
         num_less (Num 0) (parseFloat (replaceFirst (str '','') (str ''.'') priceText)))"
    by (simp add: fallbackFuel_def makeFuel_None)
next
  fix usedIds' st assume "parseStation lc index usedIds pdv = (usedIds', Some st)"
  from parseStation_built[OF this] obtain u where st: "st = buildStation lc u pdv" ..
  then show "fuels st = List.map_filter parseFuel (probeSelectors (querySelectorAll pdv) fuelSelectors)"
    by (simp only: buildStation_fields parseFuels_def)
  fix f assume "f \<in> set (fuels st)"
  then show "num_less (Num 0) (toNumber (price f))"
    by (simp only: st buildStation_fields parseFuels_positive)
next
  fix usedIds' st assume "fallbackStation index usedIds b = (usedIds', Some st)"
  from fallbackStation_built[OF this] obtain u where st: "st = buildFallbackStation u b" ..
  then show "fuels st = List.map_filter fallbackFuel (fuelMatches b)"
    by (simp only: buildFallbackStation_fields)
  fix f assume "f \<in> set (fuels st)"
  then show "num_less (Num 0) (toNumber (price f))"
    by (simp only: st buildFallbackStation_fields fallbackFuels_positive)
next
  fix st f assume "st \<in> set (parseStations lc index usedIds pdvs)" "f \<in> set (fuels st)"
  with parseStations_built[of st lc index usedIds pdvs]
  show "num_less (Num 0) (toNumber (price f))"
    by (auto simp: buildStation_fields dest: parseFuels_positive)
next
  fix st f assume "st \<in> set (fallbackStations index usedIds blocks)" "f \<in> set (fuels st)"
  with fallbackStations_built[of st index usedIds blocks]
  show "num_less (Num 0) (toNumber (price f))"
    by (auto simp: buildFallbackStation_fields dest: fallbackFuels_positive)
qed

lemmas prix_defs = parseFuel_def makeFuel_def parsePrice_def fuelPriceStr_def fuelName_def
  FUEL_NAMES_def gazolePrix_def sp95Prix_def e85Prix_def roundedPrix_def sampleFuel_def

lemma eval_prix:
  "parseFuel gazolePrix = Some (sampleFuel ''Gazole'' ''Gazole'' 1.5)"
  "parseFuel sp95Prix = Some (sampleFuel ''SP95'' ''SP95'' 1.75)"
  "parseFuel e85Prix = None"
  by (simp_all add: prix_defs dom_defs js_defs)

lemma eval_prix_text:
  "fuelPriceStr gazolePrix = Some (str ''1,5'')"
  "fuelPriceStr sp95Prix = Some (str ''1750'')"
  "fuelPriceStr e85Prix = Some (str ''0'')"
  "fuelPriceStr roundedPrix = Some (str ''10.0000000000000001'')"
  by (simp_all add: prix_defs dom_defs)

lemma eval_prix_valeur:
  "getAttribute gazolePrix (str ''valeur'') = Some (str ''1,5'')" "str ''1,5'' \<noteq> []"
  by (simp_all add: gazolePrix_def str_def)

lemma eval_prix_id:
  "truthyStr (firstTruthy (attrs roundedPrix [''nom'', ''id'', ''type'', ''name'', ''code'']))"
  "firstTruthy (attrs roundedPrix [''nom'', ''id'', ''type'', ''name'', ''code'']) = Some (str ''SP98'')"
  "firstTruthy (attrs roundedPrix [''maj'', ''last_update'', ''date'', ''update'']) = None"
  by (simp_all add: roundedPrix_def attrs_def str_def)

lemma eval_replace:
  "replaceFirst (str '','') (str ''.'') (str ''1,5'') = str ''1.5''"
  "replaceFirst (str '','') (str ''.'') (str ''1750'') = str ''1750''"
  "replaceFirst (str '','') (str ''.'') (str ''0'') = str ''0''"
  "replaceFirst (str '','') (str ''.'') (str ''10.0000000000000001'') = str ''10.0000000000000001''"
  by (simp_all add: replaceFirst.simps str_def)

lemma eval_price_values:
  "parseFloat (str ''1.5'') = Num 1.5"
  "parseFloat (str ''1750'') = Num 1750"
  "parseFloat (str ''0'') = Num 0"
  "num_div (Num 1750) 1000 = Num 1.75"
  by (simp_all add: str_def js_defs)

lemma eval_prix_rounded: "parseFuel roundedPrix = Some (sampleFuel ''SP98'' ''SP98'' 10)"
proof -
  have "parsePrice (fuelPriceStr roundedPrix) = Num 10"
    by (simp add: eval_prix_text parsePrice_text eval_replace parseFloat_examples str_def)
       (simp add: parseFloat_examples[unfolded str_def, simplified])
  then show ?thesis
    by (simp only: parseFuel_def eval_prix_id)
       (simp add: makeFuel_def fuelName_def FUEL_NAMES_def sampleFuel_def orEmpty_def
          orUndefined_def str_def)
qed

text \<open>
  C3 at samples, in \<^verbatim>\<open>parseXMLData\<close>: \<^verbatim>\<open>valeur="1,5"\<close> gives the price 1.5 (the comma is
  replaced), \<^verbatim>\<open>valeur="1750"\<close> gives 1.75 (divided by 1000), \<^verbatim>\<open>valeur="0"\<close> is dropped, and
  \<^verbatim>\<open>valeur="10.0000000000000001"\<close>, which \<^verbatim>\<open>parseFloat\<close> rounds to 10, gives 10. In
  \<^verbatim>\<open>parseXMLWithFallback\<close> the text \<^verbatim>\<open>1,5\<close> gives 1.5 and the text \<^verbatim>\<open>0\<close> is dropped.
\<close>

theorem C3_fuel_price_normalised_witness:
  "parseFuel gazolePrix = Some (sampleFuel ''Gazole'' ''Gazole'' 1.5) \<and>
   getAttribute gazolePrix (str ''valeur'') = Some (str ''1,5'') \<and>
   fuelPriceStr gazolePrix = Some (str ''1,5'') \<and>
   replaceFirst (str '','') (str ''.'') (str ''1,5'') = str ''1.5'' \<and>
   parseFloat (str ''1.5'') = Num 1.5 \<and>
   price (sampleFuel ''Gazole'' ''Gazole'' 1.5) = Some (Num 1.5) \<and>
   parseFuel sp95Prix = Some (sampleFuel ''SP95'' ''SP95'' 1.75) \<and>
   fuelPriceStr sp95Prix = Some (str ''1750'') \<and>
   parseFloat (str ''1750'') = Num 1750 \<and>
   price (sampleFuel ''SP95'' ''SP95'' 1.75) = Some (num_div (Num 1750) 1000) \<and>
   num_div (Num 1750) 1000 = Num 1.75 \<and>
   fuelPriceStr e85Prix = Some (str ''0'') \<and> parseFloat (str ''0'') = Num 0 \<and>
   parseFuel e85Prix = None \<and>
   fuelPriceStr roundedPrix = Some (str ''10.0000000000000001'') \<and>
   parseFloat (str ''10.0000000000000001'') = Num 10 \<and>
   parseFuel roundedPrix = Some (sampleFuel ''SP98'' ''SP98'' 10) \<and>
   price (sampleFuel ''SP98'' ''SP98'' 10) = Some (Num 10) \<and>
   fallbackFuel (str ''1'', str ''1,5'', None) = Some (sampleFuel ''1'' ''Gazole'' 1.5) \<and>
   fallbackFuel (str ''2'', str ''0'', None) = None \<and>
   parseStation asciiLower 0 [] pricedPdv
     = ([str ''1''],
        Some (sampleStation ''1'' None None
                [sampleFuel ''Gazole'' ''Gazole'' 1.5, sampleFuel ''SP95'' ''SP95'' 1.75] None)) \<and>
   fallbackStation 0 [] pricedBlock
     = ([str ''1''], Some (sampleStation ''1'' None None [sampleFuel ''1'' ''Gazole'' 1.5] None)) \<and>
   num_less (Num 0) (Num 1.5) \<and> num_less (Num 0) (Num 1.75) \<and> num_less (Num 0) (Num 10)"
proof -
  note inst = C3_fuel_price_normalised
  let ?g = "sampleFuel ''Gazole'' ''Gazole'' 1.5"
  let ?s = "sampleFuel ''SP95'' ''SP95'' 1.75"
  let ?r = "sampleFuel ''SP98'' ''SP98'' 10"
  let ?f = "sampleFuel ''1'' ''Gazole'' 1.5"
  from inst[of gazolePrix, THEN conjunct2, THEN conjunct2, THEN conjunct1, rule_format,
      OF conjI, OF eval_prix_valeur]
  have tg: "fuelPriceStr gazolePrix = Some (str ''1,5'')" .
  from inst[of gazolePrix, THEN conjunct1, rule_format, OF conjI, OF eval_prix(1) tg]
  have g: "price ?g = Some (Num 1.5) \<and> num_less (Num 0) (toNumber (price ?g))"
    by (simp add: eval_replace eval_price_values)
  from inst[of sp95Prix, THEN conjunct1, rule_format, OF conjI, OF eval_prix(2) eval_prix_text(2)]
  have s: "price ?s = Some (num_div (Num 1750) 1000) \<and> num_less (Num 0) (toNumber (price ?s))"
    by (simp add: eval_replace eval_price_values toDouble_values)
  from inst[of e85Prix, THEN conjunct2, THEN conjunct2, THEN conjunct2, THEN conjunct1,
      rule_format, OF eval_prix_text(3)]
  have e: "parseFuel e85Prix = None"
    by (simp add: eval_replace eval_price_values)
  from inst[of roundedPrix, THEN conjunct2, THEN conjunct2, THEN conjunct2, THEN conjunct1,
      rule_format, OF eval_prix_text(4)]
  have "parseFuel roundedPrix \<noteq> None"
    by (simp add: eval_replace parseFloat_examples eval_prix_id(1))
  from inst[of roundedPrix, THEN conjunct1, rule_format, OF conjI,
      OF eval_prix_rounded eval_prix_text(4)]
  have r: "price ?r = Some (Num 10) \<and> num_less (Num 0) (toNumber (price ?r))"
    by (simp add: eval_replace parseFloat_examples)
  from inst[of _ "str ''1''" "str ''1,5''" None, THEN conjunct2, THEN conjunct2, THEN conjunct2,
      THEN conjunct2, THEN conjunct1, rule_format, OF eval_fallback_fuel]
  have f: "num_less (Num 0) (toNumber (price ?f))" by blast
  from inst[of _ "str ''2''" "str ''0''" None, THEN conjunct2, THEN conjunct2, THEN conjunct2,
      THEN conjunct2, THEN conjunct2, THEN conjunct1]
  have z: "fallbackFuel (str ''2'', str ''0'', None) = None"
    by (simp add: eval_replace eval_price_values)
  from inst[of _ _ _ _ asciiLower 0 "[]" pricedPdv, THEN conjunct2, THEN conjunct2,
      THEN conjunct2, THEN conjunct2, THEN conjunct2, THEN conjunct2, THEN conjunct1,
      rule_format, OF eval_station_priced, THEN conjunct2]
  have "\<forall>f \<in> set [?g, ?s]. num_less (Num 0) (toNumber (price f))"
    by (simp add: sampleStation_def)
  from inst[of _ _ _ _ _ 0 "[]" _ pricedBlock, THEN conjunct2, THEN conjunct2,
      THEN conjunct2, THEN conjunct2, THEN conjunct2, THEN conjunct2, THEN conjunct2,
      THEN conjunct1, rule_format, OF eval_fallback_priced, THEN conjunct2]
  have "\<forall>f \<in> set [?f]. num_less (Num 0) (toNumber (price f))"
    by (simp add: sampleStation_def)
  have n: "num_less (Num 0) (Num 1.5) \<and> num_less (Num 0) (Num 1.75) \<and> num_less (Num 0) (Num 10)"
    by simp
  from eval_prix eval_prix_valeur(1) eval_prix_text eval_replace(1) eval_price_values
    parseFloat_examples(4) eval_prix_rounded eval_fallback_fuel eval_station_priced
    eval_fallback_priced g s e r z n
  show ?thesis by (intro conjI) (simp_all only: simp_thms)
qed

text \<open>
  C4 at a sample: two station elements with the id 7 are parsed to the ids \<^verbatim>\<open>7\<close> and
  \<^verbatim>\<open>7-1\<close>.
\<close>

theorem C4_station_ids_distinct_witness:
  "parseDocument asciiLower (sampleDocument [twinPdv, twinPdv])
     = Inr [sampleStation ''7'' None None [] None, sampleStation ''7-1'' None None [] None] \<and>
   parseXMLWithFallback [twinBlock, twinBlock]
     = [sampleStation ''7'' None None [] None, sampleStation ''7-1'' None None [] None] \<and>
   distinct (map station_id
     [sampleStation ''7'' None None [] None, sampleStation ''7-1'' None None [] None]) \<and>
   findUniqueId [] (str ''7'') (str ''7'') 1 = str ''7'' \<and>
   findUniqueId [str ''7''] (str ''7'') (str ''7'') 1 = str ''7-1''"
proof -
  note inst = C4_station_ids_distinct[of asciiLower "sampleDocument [twinPdv, twinPdv]"
      "[twinBlock, twinBlock]" "[]" "str ''7''"]
  from inst[THEN conjunct1, rule_format, OF eval_doc_twin]
  have "distinct (map station_id
     [sampleStation ''7'' None None [] None, sampleStation ''7-1'' None None [] None])" .
  moreover from inst[THEN conjunct2, THEN conjunct2, THEN conjunct2, THEN conjunct1]
  have "findUniqueId [] (str ''7'') (str ''7'') 1 = str ''7''" by simp
  moreover have "findUniqueId [str ''7''] (str ''7'') (str ''7'') 1 = str ''7-1''"
    using eval_unique_twin(2) by simp
  ultimately show ?thesis using eval_doc_twin eval_fallback_twin by simp
qed

lemma serviceName_nonempty: "serviceName e = Some s \<Longrightarrow> s \<noteq> []"
  by (auto simp: serviceName_def orUndefined_def split: if_splits)

lemma childServiceName_nonempty: "childServiceName e = Some s \<Longrightarrow> s \<noteq> []"
  by (auto simp: childServiceName_def orUndefined_def split: if_splits)

lemma selectorServices_nonempty: "[] \<notin> set (selectorServices pdv)"
  by (auto simp: selectorServices_def dest!: in_map_filter serviceName_nonempty)

lemma firstOccurrences_set: "set (firstOccurrences xs) = set xs"
  by (induction xs rule: firstOccurrences.induct) auto

lemma firstOccurrences_distinct: "distinct (firstOccurrences xs)"
  by (induction xs rule: firstOccurrences.induct) (auto simp: firstOccurrences_set)

text \<open>The second loop, seen as a loop over the names that the children give.\<close>

lemma foldl_addChildService_names:
  "foldl (addChildService lc) svs cs
   = foldl (\<lambda>acc name. if name \<in> set acc then acc else acc @ [name]) svs
       (List.map_filter childServiceName
          (filter (\<lambda>child. tagName child \<noteq> [] \<and> jsIncludes (lc (tagName child)) (str ''service''))
             cs))"
proof (induction cs arbitrary: svs)
  case Nil
  show ?case by (simp add: map_filter_simps)
next
  case (Cons c cs)
  let ?P = "\<lambda>child. tagName child \<noteq> [] \<and> jsIncludes (lc (tagName child)) (str ''service'')"
  let ?add = "\<lambda>acc name. if name \<in> set acc then acc else acc @ [name]"
  show ?case
  proof (cases "?P c")
    case False
    then have "addChildService lc svs c = svs" by (auto simp: addChildService_def)
    moreover from False have "filter ?P (c # cs) = filter ?P cs" by simp
    ultimately show ?thesis by (simp add: Cons.IH)
  next
    case True
    then have f: "filter ?P (c # cs) = c # filter ?P cs" by simp
    show ?thesis
    proof (cases "childServiceName c")
      case None
      with True have "addChildService lc svs c = svs" by (simp add: addChildService_def)
      moreover from None have "List.map_filter childServiceName (c # filter ?P cs)
          = List.map_filter childServiceName (filter ?P cs)"
        by (simp add: map_filter_simps)
      ultimately show ?thesis unfolding f by (simp add: Cons.IH)
    next
      case (Some name)
      with True have "addChildService lc svs c = ?add svs name"
        by (simp add: addChildService_def)
      moreover from Some have "List.map_filter childServiceName (c # filter ?P cs)
          = name # List.map_filter childServiceName (filter ?P cs)"
        by (simp add: map_filter_simps)
      ultimately show ?thesis unfolding f by (simp add: Cons.IH)
    qed
  qed
qed

lemma foldl_new_names:
  "foldl (\<lambda>acc name. if name \<in> set acc then acc else acc @ [name]) svs names
   = svs @ firstOccurrences (filter (\<lambda>name. name \<notin> set svs) names)"
proof (induction names arbitrary: svs)
  case Nil
  show ?case by simp
next
  case (Cons n names)
  show ?case
  proof (cases "n \<in> set svs")
    case True
    with Cons.IH[of svs] show ?thesis by simp
  next
    case False
    have "filter (\<lambda>name. name \<notin> set (svs @ [n])) names
          = filter (\<lambda>y. y \<noteq> n) (filter (\<lambda>name. name \<notin> set svs) names)"
      by (induction names) auto
    with False Cons.IH[of "svs @ [n]"] show ?thesis by simp
  qed
qed

lemma parseServiceList_added:
  "parseServiceList lc pdv = selectorServices pdv @ addedServices lc pdv"
  by (simp only: parseServiceList_def addedServices_def childServiceNames_def
      foldl_addChildService_names foldl_new_names)

lemma set_map_filter: "set (List.map_filter g xs) = {y. \<exists>x \<in> set xs. g x = Some y}"
  by (induction xs) (auto simp: map_filter_simps split: option.splits)

lemma childServiceNames_set:
  "set (childServiceNames lc pdv)
   = {name. \<exists>child \<in> set (children pdv).
        tagName child \<noteq> [] \<and> jsIncludes (lc (tagName child)) (str ''service'') \<and>
        childServiceName child = Some name}"
  by (auto simp: childServiceNames_def set_map_filter)

lemma childServiceNames_nonempty: "[] \<notin> set (childServiceNames lc pdv)"
  by (auto simp: childServiceNames_def dest!: in_map_filter childServiceName_nonempty)

text \<open>
  C6, as the code has it: the services list of a station is the names found by the
  selector probes, in order and with their repetitions, followed by the names that the
  direct children whose lower-cased tag name contains \<^verbatim>\<open>service\<close> give and that the probes
  did not find, each of them once, in the order of their first child. So the names added
  by the children are exactly the names of such children that no probe found; they are
  pairwise distinct and differ from every name of the first step. No name is empty. The
  station pushed for an element has that list as its services.
\<close>

theorem C6_child_services_added_once:
  "parseServiceList lc pdv = selectorServices pdv @ addedServices lc pdv \<and>
   set (addedServices lc pdv)
     = {name. name \<notin> set (selectorServices pdv) \<and>
          (\<exists>child \<in> set (children pdv).
             tagName child \<noteq> [] \<and> jsIncludes (lc (tagName child)) (str ''service'') \<and>
             childServiceName child = Some name)} \<and>
   distinct (addedServices lc pdv) \<and>
   set (addedServices lc pdv) \<inter> set (selectorServices pdv) = {} \<and>
   [] \<notin> set (parseServiceList lc pdv) \<and>
   (\<forall>usedIds' st. parseStation lc index usedIds pdv = (usedIds', Some st) \<longrightarrow>
      services st = Some (parseServiceList lc pdv)) \<and>
   (\<forall>st \<in> set (parseStations lc index usedIds pdvs).
      \<exists>i < length pdvs. services st = Some (parseServiceList lc (pdvs ! i)) \<and>
        (\<exists>ids ids'. parseStation lc (index + i) ids (pdvs ! i) = (ids', Some st)))"
proof (intro conjI allI impI ballI)
  show eq: "parseServiceList lc pdv = selectorServices pdv @ addedServices lc pdv"
    by (rule parseServiceList_added)
  show s: "set (addedServices lc pdv)
     = {name. name \<notin> set (selectorServices pdv) \<and>
          (\<exists>child \<in> set (children pdv).
             tagName child \<noteq> [] \<and> jsIncludes (lc (tagName child)) (str ''service'') \<and>
             childServiceName child = Some name)}"
    unfolding addedServices_def firstOccurrences_set set_filter childServiceNames_set by blast
  show "distinct (addedServices lc pdv)"
    by (simp only: addedServices_def firstOccurrences_distinct)
  show "set (addedServices lc pdv) \<inter> set (selectorServices pdv) = {}"
    unfolding s by blast
  have "[] \<notin> set (addedServices lc pdv)"
    using childServiceNames_nonempty[of lc pdv]
    by (simp add: addedServices_def firstOccurrences_set)
  with selectorServices_nonempty[of pdv] show "[] \<notin> set (parseServiceList lc pdv)"
    by (simp add: eq)
next
  fix usedIds' st assume "parseStation lc index usedIds pdv = (usedIds', Some st)"
  from parseStation_built[OF this] obtain u where "st = buildStation lc u pdv" ..
  then show "services st = Some (parseServiceList lc pdv)"
    by (simp only: buildStation_fields)
next
  fix st assume "st \<in> set (parseStations lc index usedIds pdvs)"
  from parseStations_from[OF this] obtain i ids ids' where
    i: "i < length pdvs" "parseStation lc (index + i) ids (pdvs ! i) = (ids', Some st)"
    by blast
  from parseStation_built[OF i(2)] obtain u where "st = buildStation lc u (pdvs ! i)" ..
  then have "services st = Some (parseServiceList lc (pdvs ! i))"
    by (simp only: buildStation_fields)
  with i show "\<exists>i < length pdvs. services st = Some (parseServiceList lc (pdvs ! i)) \<and>
        (\<exists>ids ids'. parseStation lc (index + i) ids (pdvs ! i) = (ids', Some st))"
    by blast
qed

text \<open>
  C6 as stated fails: a station element with two \<^verbatim>\<open>service\<close> children of the same text
  \<^verbatim>\<open>X\<close> gets the services list \<^verbatim>\<open>X, X\<close>.
\<close>

theorem C6_counterexample:
  "parseStations asciiLower 0 [] [repeatedServicePdv]
     = [(sampleStation ''1'' None None [] None)\<lparr>services := Some [str ''X'', str ''X'']\<rparr>] \<and>
   parseServiceList asciiLower repeatedServicePdv = [str ''X'', str ''X''] \<and>
   \<not> distinct (parseServiceList asciiLower repeatedServicePdv)"
  using eval_services by (simp add: eval_station_repeated)

lemmas service_defs = selectorServices_def serviceSelectors_def serviceName_def
  childServiceName_def childServiceNames_def addedServices_def asciiLower_def
  mixedServicePdv_def List.map_filter_def

lemma eval_mixed:
  "selectorServices mixedServicePdv = [str ''X'']"
  "childServiceNames asciiLower mixedServicePdv = [str ''X'', str ''Y'', str ''X'', str ''Y'']"
  "addedServices asciiLower mixedServicePdv = [str ''Y'']"
  by (simp_all add: service_defs dom_defs js_defs)

lemma eval_station_mixed:
  "parseStation asciiLower 0 [] mixedServicePdv
   = ([str ''1''],
      Some ((sampleStation ''1'' None None [] None)\<lparr>services := Some [str ''X'', str ''Y'']\<rparr>))"
proof -
  have "hasMeaningfulData
          ((sampleStation ''1'' None None [] None)\<lparr>services := Some [str ''X'', str ''Y'']\<rparr>)"
    by (simp add: hasMeaningfulData_def sampleStation_def str_def)
  moreover have "stationIdOf mixedServicePdv 0 = str ''1''"
    by (simp add: stationIdOf_def mixedServicePdv_def dom_defs)
  moreover have "buildStation asciiLower (str ''1'') mixedServicePdv
      = (sampleStation ''1'' None None [] None)\<lparr>services := Some [str ''X'', str ''Y'']\<rparr>"
    by (simp add: station_defs mixedServicePdv_def serviceName_def
        addChildService_def childServiceName_def asciiLower_def dom_defs js_defs)
  ultimately show ?thesis
    by (simp add: parseStation_def Let_def findUniqueId_free)
qed

text \<open>
  C6 at a sample: a station element with the children \<^verbatim>\<open>service\<close> (text \<^verbatim>\<open>X\<close>),
  \<^verbatim>\<open>service_b\<close> (\<^verbatim>\<open>Y\<close>), \<^verbatim>\<open>service_c\<close> (\<^verbatim>\<open>X\<close>) and \<^verbatim>\<open>service_d\<close> (\<^verbatim>\<open>Y\<close>). The probes find
  \<^verbatim>\<open>X\<close>, the children give \<^verbatim>\<open>X, Y, X, Y\<close>, of which \<^verbatim>\<open>Y\<close> is added, once.
\<close>

theorem C6_child_services_added_once_witness:
  "selectorServices mixedServicePdv = [str ''X''] \<and>
   childServiceNames asciiLower mixedServicePdv = [str ''X'', str ''Y'', str ''X'', str ''Y''] \<and>
   addedServices asciiLower mixedServicePdv = [str ''Y''] \<and>
   parseServiceList asciiLower mixedServicePdv = [str ''X'', str ''Y''] \<and>
   parseStation asciiLower 0 [] mixedServicePdv
     = ([str ''1''],
        Some ((sampleStation ''1'' None None [] None)\<lparr>services := Some [str ''X'', str ''Y'']\<rparr>)) \<and>
   services ((sampleStation ''1'' None None [] None)\<lparr>services := Some [str ''X'', str ''Y'']\<rparr>)
     = Some (parseServiceList asciiLower mixedServicePdv)"
proof -
  note inst = C6_child_services_added_once[of asciiLower mixedServicePdv 0 "[]"]
  from inst[THEN conjunct1]
  have l: "parseServiceList asciiLower mixedServicePdv = [str ''X'', str ''Y'']"
    by (simp add: eval_mixed)
  from inst[THEN conjunct2, THEN conjunct2, THEN conjunct2, THEN conjunct2, THEN conjunct2,
      THEN conjunct1, rule_format, OF eval_station_mixed]
  have "services ((sampleStation ''1'' None None [] None)\<lparr>services := Some [str ''X'', str ''Y'']\<rparr>)
     = Some (parseServiceList asciiLower mixedServicePdv)" .
  with eval_mixed l eval_station_mixed show ?thesis by (intro conjI) (simp_all only: simp_thms)
qed
section \<open>Properties of fetching\<close>

lemma tryAttempts_all_fail:
  "\<forall>a \<in> set as. \<exists>e. runAttempt env a = Inl e \<Longrightarrow>
   tryAttempts env lastError as
     = Inl (if as = [] then lastError else Some (errorOf env (last as)))"
proof (induction as arbitrary: lastError)
  case Nil
  then show ?case by simp
next
  case (Cons a as)
  from Cons.prems obtain e where e: "runAttempt env a = Inl e" by auto
  from Cons.prems have "\<forall>a \<in> set as. \<exists>e. runAttempt env a = Inl e" by simp
  from Cons.IH[OF this, of "Some e"] e show ?case by (simp add: errorOf_def)
qed

lemma attemptsFor_nonempty: "attemptsFor env baseUrl \<noteq> []"
  by (simp add: attemptsFor_def)

lemma tryEndpoints_all_fail:
  "\<forall>a \<in> set (concat (map (attemptsFor env) urls)). \<exists>e. runAttempt env a = Inl e \<Longrightarrow>
   tryEndpoints env lastError urls
     = Inl (if urls = [] then lastError
            else Some (errorOf env (last (attemptsFor env (last urls)))))"
proof (induction urls arbitrary: lastError)
  case Nil
  then show ?case by simp
next
  case (Cons u urls)
  from Cons.prems have here: "\<forall>a \<in> set (attemptsFor env u). \<exists>e. runAttempt env a = Inl e"
    and rest: "\<forall>a \<in> set (concat (map (attemptsFor env) urls)). \<exists>e. runAttempt env a = Inl e"
    by auto
  from tryAttempts_all_fail[OF here, of lastError] attemptsFor_nonempty[of env u]
  have "tryAttempts env lastError (attemptsFor env u)
        = Inl (Some (errorOf env (last (attemptsFor env u))))" by simp
  with Cons.IH[OF rest] show ?case by simp
qed

lemma finalError_text:
  "finalError (Some detail) =
     str ''Failed to fetch data from all endpoints. Last error: '' @
     (if detail \<noteq> [] then detail else str ''Unknown error'') @
     str ''. '' @ [0xA, 0xA] @
     str ''Possible solutions:'' @ [0xA] @
     str ''1. The API might be temporarily down'' @ [0xA] @
     str ''2. CORS restrictions are blocking all proxy attempts'' @ [0xA] @
     str ''3. Network connectivity issues'' @ [0xA] @
     str ''4. The data format might have changed'' @ [0xA, 0xA] @
     str ''Please try again in a few minutes or check the browser'' @ [0x27] @
     str ''s developer console for more details.''"
  by (simp add: finalError_def possibleSolutions_def orEmpty_def)

lemma sublist_middle: "sublist ys (xs @ ys @ zs)"
  by (simp only: sublist_appendI)

text \<open>
  C7: when every attempt on every endpoint fails, \<^verbatim>\<open>fetchGasStationData\<close> returns no
  stations and throws one error. Its message is the sentence
  \<^verbatim>\<open>Failed to fetch data from all endpoints. Last error: \<close> followed by the message of the
  last attempt (the last proxy on the last endpoint; \<^verbatim>\<open>Unknown error\<close> when that message
  is empty), a full stop, and the advice: the heading \<^verbatim>\<open>Possible solutions:\<close>, its four
  numbered lines and the request to try again in a few minutes or to check the console.
\<close>

theorem C7_fetch_fails_with_last_error:
  assumes "\<forall>a \<in> set (concat (map (attemptsFor env) endpoints)). \<exists>e. runAttempt env a = Inl e"
  shows "\<exists>detail message.
           runAttempt env (last (attemptsFor env (last endpoints))) = Inl detail \<and>
           fetchGasStationData env = Inl message \<and>
           message =
             str ''Failed to fetch data from all endpoints. Last error: '' @
             (if detail \<noteq> [] then detail else str ''Unknown error'') @
             str ''. '' @ [0xA, 0xA] @
             str ''Possible solutions:'' @ [0xA] @
             str ''1. The API might be temporarily down'' @ [0xA] @
             str ''2. CORS restrictions are blocking all proxy attempts'' @ [0xA] @
             str ''3. Network connectivity issues'' @ [0xA] @
             str ''4. The data format might have changed'' @ [0xA, 0xA] @
             str ''Please try again in a few minutes or check the browser'' @ [0x27] @
             str ''s developer console for more details.'' \<and>
           sublist detail message \<and>
           sublist (str ''Possible solutions:'') message \<and>
           sublist (str ''Please try again in a few minutes'') message \<and>
           (\<forall>stations. fetchGasStationData env \<noteq> Inr stations)"
proof -
  let ?a = "last (attemptsFor env (last endpoints))"
  have "?a \<in> set (concat (map (attemptsFor env) endpoints))"
    using attemptsFor_nonempty[of env "last endpoints"]
    by (auto simp: endpoints_def intro!: last_in_set)
  with assms obtain detail where d: "runAttempt env ?a = Inl detail" by blast
  then have "errorOf env ?a = detail" by (simp add: errorOf_def)
  moreover have "endpoints \<noteq> []" by (simp add: endpoints_def)
  ultimately have "tryEndpoints env None endpoints = Inl (Some detail)"
    using tryEndpoints_all_fail[OF assms, of None] by simp
  then have f: "fetchGasStationData env = Inl (finalError (Some detail))"
    by (simp add: fetchGasStationData_def)
  let ?head = "str ''Failed to fetch data from all endpoints. Last error: ''"
  let ?advice = "str ''1. The API might be temporarily down'' @ [0xA] @
             str ''2. CORS restrictions are blocking all proxy attempts'' @ [0xA] @
             str ''3. Network connectivity issues'' @ [0xA] @
             str ''4. The data format might have changed'' @ [0xA, 0xA]"
  let ?tail = "str ''Please try again in a few minutes or check the browser'' @ [0x27] @
             str ''s developer console for more details.''"
  let ?who = "if detail \<noteq> [] then detail else str ''Unknown error''"
  have s1: "sublist detail (finalError (Some detail))"
  proof (cases "detail = []")
    case True
    then show ?thesis by simp
  next
    case False
    then have "finalError (Some detail) = ?head @ detail @ (str ''. '' @ [0xA, 0xA] @
        str ''Possible solutions:'' @ [0xA] @ ?advice @ ?tail)"
      by (simp add: finalError_text)
    then show ?thesis by (simp only: sublist_middle)
  qed
  have "finalError (Some detail) = (?head @ ?who @ str ''. '' @ [0xA, 0xA]) @
        str ''Possible solutions:'' @ ([0xA] @ ?advice @ ?tail)"
    by (simp add: finalError_text)
  then have s2: "sublist (str ''Possible solutions:'') (finalError (Some detail))"
    by (simp only: sublist_middle)
  have "str ''Please try again in a few minutes or check the browser''
        = str ''Please try again in a few minutes'' @ str '' or check the browser''"
    by (simp add: str_def)
  then have "finalError (Some detail) = (?head @ ?who @ str ''. '' @ [0xA, 0xA] @
        str ''Possible solutions:'' @ [0xA] @ ?advice) @
        str ''Please try again in a few minutes'' @ (str '' or check the browser'' @ [0x27] @
             str ''s developer console for more details.'')"
    by (simp add: finalError_text)
  then have s3: "sublist (str ''Please try again in a few minutes'') (finalError (Some detail))"
    by (simp only: sublist_middle)
  from f have "\<forall>stations. fetchGasStationData env \<noteq> Inr stations" by simp
  with d f s1 s2 s3 finalError_text[of detail] show ?thesis by blast
qed

text \<open>
  C7 at a sample: without network every attempt throws \<^verbatim>\<open>Failed to fetch\<close>, and so
  does the whole call, with that message inside its own.
\<close>

theorem C7_fetch_fails_with_last_error_witness:
  "fetchGasStationData offlineEnvironment =
     Inl (str ''Failed to fetch data from all endpoints. Last error: '' @
          str ''Failed to fetch'' @
          str ''. '' @ [0xA, 0xA] @
          str ''Possible solutions:'' @ [0xA] @
          str ''1. The API might be temporarily down'' @ [0xA] @
          str ''2. CORS restrictions are blocking all proxy attempts'' @ [0xA] @
          str ''3. Network connectivity issues'' @ [0xA] @
          str ''4. The data format might have changed'' @ [0xA, 0xA] @
          str ''Please try again in a few minutes or check the browser'' @ [0x27] @
          str ''s developer console for more details.'') \<and>
   runAttempt offlineEnvironment (last (attemptsFor offlineEnvironment (last endpoints)))
     = Inl (str ''Failed to fetch'')"
proof -
  have r: "runAttempt offlineEnvironment a = Inl (str ''Failed to fetch'')" for a
    by (simp add: runAttempt_def offlineEnvironment_def)
  then have "\<forall>a \<in> set (concat (map (attemptsFor offlineEnvironment) endpoints)).
               \<exists>e. runAttempt offlineEnvironment a = Inl e" by blast
  from C7_fetch_fails_with_last_error[OF this] obtain detail message where
    d: "runAttempt offlineEnvironment (last (attemptsFor offlineEnvironment (last endpoints)))
        = Inl detail"
    and f: "fetchGasStationData offlineEnvironment = Inl message"
    and m: "message =
             str ''Failed to fetch data from all endpoints. Last error: '' @
             (if detail \<noteq> [] then detail else str ''Unknown error'') @
             str ''. '' @ [0xA, 0xA] @
             str ''Possible solutions:'' @ [0xA] @
             str ''1. The API might be temporarily down'' @ [0xA] @
             str ''2. CORS restrictions are blocking all proxy attempts'' @ [0xA] @
             str ''3. Network connectivity issues'' @ [0xA] @
             str ''4. The data format might have changed'' @ [0xA, 0xA] @
             str ''Please try again in a few minutes or check the browser'' @ [0x27] @
             str ''s developer console for more details.''"
    by blast
  from d r have e: "detail = str ''Failed to fetch''" by simp
  have "str ''Failed to fetch'' \<noteq> []" by (simp add: str_def)
  with e m have "message =
             str ''Failed to fetch data from all endpoints. Last error: '' @
             str ''Failed to fetch'' @
             str ''. '' @ [0xA, 0xA] @
             str ''Possible solutions:'' @ [0xA] @
             str ''1. The API might be temporarily down'' @ [0xA] @
             str ''2. CORS restrictions are blocking all proxy attempts'' @ [0xA] @
             str ''3. Network connectivity issues'' @ [0xA] @
             str ''4. The data format might have changed'' @ [0xA, 0xA] @
             str ''Please try again in a few minutes or check the browser'' @ [0x27] @
             str ''s developer console for more details.''"
    by (simp only: simp_thms if_True)
  with f r show ?thesis by (simp only: simp_thms)
qed

end
